(* ===== verification/Prelude.thy ===== *)
theory Prelude
  imports Main "HOL-Library.Sublist"
begin

text \<open>
  Shared vocabulary of the development. JavaScript's \<open>Map\<close> (insertion-ordered,
  one entry per key) is an association list with \<open>jsmap_set\<close> and
  \<open>jsmap_delete\<close>; an operation that may throw is a sum \<open>error + 'a\<close> and a
  loop that stops at the first throw is \<open>map_throw\<close>; \<open>String.prototype.split\<close>
  and \<open>Array.prototype.join\<close> on one separator are \<open>split_on\<close> and
  \<open>join_on\<close>; \<open>String(n)\<close> of an integral number is \<open>dec_of_nat\<close>.
  The generic lemmas about them are collected in \<open>model_simps\<close>.
\<close>

named_theorems model_simps "evaluation and shape rules of the shared helpers"

type_synonym ('k, 'v) jsmap = "('k \<times> 'v) list"

section \<open>JavaScript Map as an association list\<close>

definition jsmap_set :: "'k \<Rightarrow> 'v \<Rightarrow> ('k, 'v) jsmap \<Rightarrow> ('k, 'v) jsmap" where
  "jsmap_set k v m =
     (if k \<in> set (map fst m) then map (\<lambda>(k', v'). if k' = k then (k', v) else (k', v')) m
      else m @ [(k, v)])"

definition jsmap_delete :: "'k \<Rightarrow> ('k, 'v) jsmap \<Rightarrow> ('k, 'v) jsmap" where
  "jsmap_delete k m = filter (\<lambda>kv. fst kv \<noteq> k) m"

section \<open>Throwing loops\<close>

fun map_throw :: "('a \<Rightarrow> 'e + 'b) \<Rightarrow> 'a list \<Rightarrow> 'e + 'b list" where
  "map_throw f [] = Inr []"
| "map_throw f (x # xs) =
     (case f x of
        Inl e \<Rightarrow> Inl e
      | Inr y \<Rightarrow> (case map_throw f xs of Inl e \<Rightarrow> Inl e | Inr ys \<Rightarrow> Inr (y # ys)))"

section \<open>Splitting and joining on a separator\<close>

fun split_on :: "'a \<Rightarrow> 'a list \<Rightarrow> 'a list list" where
  "split_on c [] = [[]]"
| "split_on c (x # xs) =
     (if x = c then [] # split_on c xs
      else (let r = split_on c xs in (x # hd r) # tl r))"

fun join_on :: "'a \<Rightarrow> 'a list list \<Rightarrow> 'a list" where
  "join_on c [] = []"
| "join_on c [w] = w"
| "join_on c (w # ws) = w @ c # join_on c ws"

section \<open>Decimal text of numbers\<close>

definition digit_char :: "nat \<Rightarrow> char" where
  "digit_char d = char_of (48 + d)"

fun dec_of_nat :: "nat \<Rightarrow> string" where
  "dec_of_nat n =
     (if n < 10 then [digit_char n] else dec_of_nat (n div 10) @ [digit_char (n mod 10)])"

declare dec_of_nat.simps [simp del]

definition digit_value :: "char \<Rightarrow> nat" where
  "digit_value c = of_char c - 48"

definition is_digit :: "char \<Rightarrow> bool" where
  "is_digit c \<longleftrightarrow> 48 \<le> (of_char c :: nat) \<and> (of_char c :: nat) < 58"

definition digits_value :: "string \<Rightarrow> nat" where
  "digits_value s = foldl (\<lambda>acc c. 10 * acc + digit_value c) 0 s"

section \<open>Lemmas\<close>

text \<open>A recursion through \<open>map_throw\<close> calls the function on the list's elements only.\<close>

lemma map_throw_cong [fundef_cong]:
  "xs = ys \<Longrightarrow> (\<And>x. x \<in> set ys \<Longrightarrow> f x = g x) \<Longrightarrow> map_throw f xs = map_throw g ys"
  by (induction ys arbitrary: xs) (auto cong: sum.case_cong)

lemma jsmap_set_keys [model_simps]:
  "map fst (jsmap_set k v m) = (if k \<in> set (map fst m) then map fst m else map fst m @ [k])"
  by (induction m) (auto simp: jsmap_set_def split: prod.splits)

lemma jsmap_delete_keys [model_simps]:
  "map fst (jsmap_delete k m) = filter (\<lambda>k'. k' \<noteq> k) (map fst m)"
  by (induction m) (auto simp: jsmap_delete_def)

lemma jsmap_set_distinct [model_simps]:
  "distinct (map fst m) \<Longrightarrow> distinct (map fst (jsmap_set k v m))"
  by (simp add: jsmap_set_keys)

lemma jsmap_delete_set [model_simps]:
  "set (jsmap_delete k m) = {kv \<in> set m. fst kv \<noteq> k}"
  by (auto simp: jsmap_delete_def)

lemma jsmap_delete_absent [model_simps]:
  "k \<notin> set (map fst m) \<Longrightarrow> jsmap_delete k m = m"
  by (induction m) (auto simp: jsmap_delete_def)

lemma jsmap_delete_Nil [model_simps]: "jsmap_delete k [] = []"
  by (simp add: jsmap_delete_def)

lemma jsmap_set_mem [model_simps]: "(k, v) \<in> set (jsmap_set k v m)"
  by (force simp: jsmap_set_def)

lemma jsmap_set_other [model_simps]:
  "(k, v) \<in> set m \<Longrightarrow> k' \<noteq> k \<Longrightarrow> (k, v) \<in> set (jsmap_set k' v' m)"
  by (force simp: jsmap_set_def)

lemma jsmap_set_length [model_simps]: "length (jsmap_set k v m) \<le> Suc (length m)"
proof -
  have "length (map fst (jsmap_set k v m)) \<le> Suc (length (map fst m))"
    by (simp add: jsmap_set_keys)
  then show ?thesis by simp
qed

lemma fold_jsmap_set_mem:
  assumes "(k, g k) \<in> set m \<or> (k \<in> set ks \<and> P k)"
  shows "(k, g k) \<in> set (fold (\<lambda>k m. if P k then jsmap_set k (g k) m else m) ks m)"
  using assms
proof (induction ks arbitrary: m)
  case (Cons x ks)
  let ?m1 = "if P x then jsmap_set x (g x) m else m"
  have "(k, g k) \<in> set ?m1 \<or> (k \<in> set ks \<and> P k)"
    using Cons.prems by (cases "x = k") (auto intro: jsmap_set_other simp: jsmap_set_mem)
  then show ?case by (simp add: Cons.IH)
qed simp

text \<open>The run \<open>takeWhile P (drop j t)\<close> reaches every position up to which \<open>P\<close> holds.\<close>

lemma takeWhile_drop_long:
  assumes "\<forall>m. j \<le> m \<and> m \<le> k \<longrightarrow> P (t ! m)" and "k < length t" and "j \<le> k"
  shows "k < j + length (takeWhile P (drop j t))"
proof -
  have "\<forall>i < Suc (k - j). P (drop j t ! i)"
  proof (intro allI impI)
    fix i assume "i < Suc (k - j)"
    with assms(2,3) have "drop j t ! i = t ! (j + i)" and "j \<le> j + i \<and> j + i \<le> k" by simp_all
    with assms(1) show "P (drop j t ! i)" by simp
  qed
  moreover have "Suc (k - j) \<le> length (drop j t)" using assms(2,3) by simp
  ultimately have "Suc (k - j) \<le> length (takeWhile P (drop j t))"
    by (intro length_takeWhile_less_P_nth) auto
  with assms(3) show ?thesis by simp
qed

lemma takeWhile_drop_all:
  assumes "j \<le> m" and "m < j + length (takeWhile P (drop j t))"
  shows "P (t ! m)"
proof -
  let ?i = "m - j"
  have i: "?i < length (takeWhile P (drop j t))" using assms by simp
  then have "takeWhile P (drop j t) ! ?i \<in> set (takeWhile P (drop j t))" by (rule nth_mem)
  then have "P (takeWhile P (drop j t) ! ?i)" by (rule set_takeWhileD [THEN conjunct2])
  moreover have "takeWhile P (drop j t) ! ?i = drop j t ! ?i" using i by (rule takeWhile_nth)
  moreover have "?i < length (drop j t)" using i length_takeWhile_le [of P "drop j t"] by simp
  then have "drop j t ! ?i = t ! m" using assms(1) by simp
  ultimately show ?thesis by simp
qed

lemma map_throw_Inr_iff [model_simps]:
  "map_throw f xs = Inr ys \<longleftrightarrow> list_all2 (\<lambda>x y. f x = Inr y) xs ys"
proof (induction xs arbitrary: ys)
  case Nil
  show ?case by auto
next
  case (Cons x xs)
  show ?case
  proof
    assume "map_throw f (x # xs) = Inr ys"
    then show "list_all2 (\<lambda>x y. f x = Inr y) (x # xs) ys"
      using Cons.IH by (auto split: sum.splits)
  next
    assume "list_all2 (\<lambda>x y. f x = Inr y) (x # xs) ys"
    then obtain z zs where "ys = z # zs" "f x = Inr z" "list_all2 (\<lambda>x y. f x = Inr y) xs zs"
      by (auto simp: list_all2_Cons1)
    moreover from this(3) have "map_throw f xs = Inr zs" using Cons.IH by blast
    ultimately show "map_throw f (x # xs) = Inr ys" by simp
  qed
qed

lemma map_throw_Inl:
  "x \<in> set xs \<Longrightarrow> f x = Inl e \<Longrightarrow> \<exists>e'. map_throw f xs = Inl e'"
  by (induction xs) (auto split: sum.splits)

lemma map_throw_isl_iff:
  "(\<exists>e. map_throw f xs = Inl e) \<longleftrightarrow> (\<exists>x\<in>set xs. \<exists>e. f x = Inl e)"
  by (induction xs) (auto split: sum.splits)

lemma map_throw_map [model_simps]:
  "(\<And>x. x \<in> set xs \<Longrightarrow> f x = Inr (g x)) \<Longrightarrow> map_throw f xs = Inr (map g xs)"
  by (induction xs) auto

lemma map_throw_map_comp:
  "(\<And>x. x \<in> set xs \<Longrightarrow> f (g x) = Inr (h x)) \<Longrightarrow> map_throw f (map g xs) = Inr (map h xs)"
  by (induction xs) auto

lemma map_throw_append:
  "map_throw f (xs @ ys) =
     (case map_throw f xs of
        Inl e \<Rightarrow> Inl e
      | Inr as \<Rightarrow> (case map_throw f ys of Inl e \<Rightarrow> Inl e | Inr bs \<Rightarrow> Inr (as @ bs)))"
  by (induction xs) (auto split: sum.splits)

lemma map_throw_Inr_elem:
  "map_throw f xs = Inr ys \<Longrightarrow> x \<in> set xs \<Longrightarrow> \<exists>y \<in> set ys. f x = Inr y"
  by (induction xs arbitrary: ys) (auto split: sum.splits)

lemma map_throw_Inr_results:
  "map_throw f xs = Inr ys \<Longrightarrow> y \<in> set ys \<Longrightarrow> \<exists>x \<in> set xs. f x = Inr y"
  by (induction xs arbitrary: ys) (auto split: sum.splits)

lemma map_throw_Inr_map:
  "map_throw f xs = Inr ys \<Longrightarrow> (\<And>x y. f x = Inr y \<Longrightarrow> g y = h x) \<Longrightarrow> map g ys = map h xs"
  by (induction xs arbitrary: ys) (auto split: sum.splits)

lemma subseq_distinct: "subseq ys xs \<Longrightarrow> distinct xs \<Longrightarrow> distinct ys"
  by (induction rule: list_emb.induct) (auto dest: list_emb_set)

lemma fold_jsmap_set_fresh_if:
  assumes "distinct (map f ks)" and "\<forall>k \<in> set ks. f k \<notin> set (map fst m)"
  shows "fold (\<lambda>k m. if P k then jsmap_set (f k) (g k) m else m) ks m
           = m @ map (\<lambda>k. (f k, g k)) (filter P ks)"
  using assms
proof (induction ks arbitrary: m)
  case (Cons k ks)
  show ?case
  proof (cases "P k")
    case True
    have "jsmap_set (f k) (g k) m = m @ [(f k, g k)]"
      using Cons.prems by (simp add: jsmap_set_def)
    moreover have "fold (\<lambda>k m. if P k then jsmap_set (f k) (g k) m else m) ks (m @ [(f k, g k)])
                     = (m @ [(f k, g k)]) @ map (\<lambda>k. (f k, g k)) (filter P ks)"
      using Cons.prems by (intro Cons.IH) (fastforce simp: image_iff)+
    ultimately show ?thesis using True by simp
  next
    case False
    then show ?thesis using Cons.prems Cons.IH [of m] by simp
  qed
qed simp

lemma map_keys_filter:
  "(\<And>kv. kv \<in> set xs \<Longrightarrow> g (fst kv) = snd kv) \<Longrightarrow>
     map (\<lambda>k. (k, g k)) (filter (\<lambda>k. P (g k)) (map fst xs)) = filter (\<lambda>kv. P (snd kv)) xs"
  by (induction xs) auto

lemma count_list_pos: "x \<in> set xs \<Longrightarrow> 1 \<le> count_list xs x"
  by (induction xs) auto

lemma split_on_nonempty [simp]: "split_on c xs \<noteq> []"
  by (induction xs) (auto simp: Let_def)

lemma split_on_no_sep [model_simps]: "c \<notin> set w \<Longrightarrow> split_on c w = [w]"
  by (induction w) auto

lemma split_on_append [model_simps]:
  "split_on c (v @ c # w) = split_on c v @ split_on c w"
proof (induction v)
  case Nil
  then show ?case by simp
next
  case (Cons x v)
  have "split_on c v \<noteq> []" by simp
  then obtain r rs where "split_on c v = r # rs" by (cases "split_on c v") auto
  with Cons show ?case by (simp add: Let_def)
qed

lemma split_on_single [model_simps]: "split_on c p = [w] \<longleftrightarrow> p = w \<and> c \<notin> set p"
proof (induction p arbitrary: w)
  case (Cons x p)
  obtain r rs where r: "split_on c p = r # rs" by (cases "split_on c p") auto
  show ?case
  proof (cases "x = c")
    case True
    then show ?thesis by simp
  next
    case False
    have "rs = [] \<longleftrightarrow> p = r \<and> c \<notin> set p" using Cons.IH [of r] r by auto
    with False r show ?thesis by (auto simp: Let_def split_on_no_sep)
  qed
qed simp
lemma join_on_snoc [model_simps]:
  "join_on c (ws @ [w]) = (if ws = [] then w else join_on c ws @ c # w)"
  by (induction c ws rule: join_on.induct) auto

lemma last_split_join [model_simps]:
  assumes "ws \<noteq> []" and "c \<notin> set (last ws)"
  shows "last (split_on c (join_on c ws)) = last ws"
proof -
  obtain vs w where ws: "ws = vs @ [w]"
    using assms(1) by (metis append_butlast_last_id)
  with assms(2) have w: "c \<notin> set w" by simp
  show ?thesis
  proof (cases "vs = []")
    case True
    with ws w show ?thesis by (simp add: split_on_no_sep)
  next
    case False
    with ws w show ?thesis by (simp add: join_on_snoc split_on_append split_on_no_sep)
  qed
qed

lemma digit_value_digit_char [simp]: "d < 10 \<Longrightarrow> digit_value (digit_char d) = d"
  by (simp add: digit_value_def digit_char_def)

lemma is_digit_digit_char [simp]: "d < 10 \<Longrightarrow> is_digit (digit_char d)"
  by (simp add: is_digit_def digit_char_def)

lemma digits_value_snoc: "digits_value (s @ [c]) = 10 * digits_value s + digit_value c"
  by (simp add: digits_value_def)

lemma digits_value_dec_of_nat [model_simps]: "digits_value (dec_of_nat n) = n"
proof (induction n rule: dec_of_nat.induct)
  case (1 n)
  show ?case
  proof (cases "n < 10")
    case True
    then show ?thesis
      by (simp add: dec_of_nat.simps [of n] digits_value_def)
  next
    case False
    with "1.IH" show ?thesis
      by (simp add: dec_of_nat.simps [of n] digits_value_snoc)
  qed
qed

lemma dec_of_nat_digits [model_simps]: "\<forall>c \<in> set (dec_of_nat n). is_digit c"
proof (induction n rule: dec_of_nat.induct)
  case (1 n)
  then show ?case
    by (cases "n < 10") (simp_all add: dec_of_nat.simps [of n])
qed

lemma dec_of_nat_nonempty [simp]: "dec_of_nat n \<noteq> []"
  by (simp add: dec_of_nat.simps [of n])

lemma dec_of_nat_eq_iff [model_simps]: "dec_of_nat j = dec_of_nat i \<longleftrightarrow> j = i"
  by (metis digits_value_dec_of_nat)

lemma digit_not_dot [simp]: "is_digit c \<Longrightarrow> c \<noteq> CHR ''.''"
  by (auto simp: is_digit_def)

end
