(* ===== verification/JsValue.thy ===== *)
theory JsValue
  imports Prelude
begin

text \<open>
  The runtime values the configuration patch is made of (the \<open>newConfig\<close> and
  \<open>config\<close> parameters of type \<open>CypressConfig\<close> in
  src/packages/cypress/src/utils/config). A JavaScript object is an association
  list in its own enumeration order (the order of \<open>for...in\<close> and
  \<open>Object.entries\<close>); a function is kept as the text \<open>fn.toString()\<close> returns.
  Numbers are integral (\<open>int\<close>) and of magnitude below \<open>10^21\<close>, where
  \<open>String(n)\<close> writes the decimal digits; fractions, NaN, the infinities and the
  exponent notation \<open>String(n)\<close> uses from \<open>1e21\<close> on are not modelled. A
  character is a code unit up to U+00FF (\<open>char\<close>). Property reads see own properties only: the prototype chain
  (\<open>toString\<close>, \<open>constructor\<close>, the methods of primitives) is not modelled,
  apart from the index and \<open>length\<close> properties of strings, which \<open>for...in\<close>
  and \<open>s[k]\<close> do see. \<open>String(n)\<close> and \<open>parseInt(s, 10)\<close> are
  \<open>js_number_to_string\<close> and \<open>js_parse_int\<close>; the lemmas show that one reads
  back what the other writes and that a string's index keys give its characters.
  \<open>String.prototype.match\<close> with a global regular expression is the loop over
  \<open>lastIndex\<close> of the ECMAScript specification, for an expression given by what it
  matches at a position; its result is \<open>null\<close> exactly when the expression matches
  nowhere.
\<close>

datatype jsval =
    JUndefined
  | JNull
  | JBool bool
  | JNum int
  | JStr string
  | JObj "(string \<times> jsval) list"
  | JFun string

text \<open>The results of \<open>typeof\<close> (\<open>typeof null\<close> is \<open>'object'\<close>).\<close>

datatype jstype = TUndefined | TObject | TBoolean | TNumber | TString | TFunction

fun js_typeof :: "jsval \<Rightarrow> jstype" where
  "js_typeof JUndefined = TUndefined"
| "js_typeof JNull = TObject"
| "js_typeof (JBool _) = TBoolean"
| "js_typeof (JNum _) = TNumber"
| "js_typeof (JStr _) = TString"
| "js_typeof (JObj _) = TObject"
| "js_typeof (JFun _) = TFunction"

text \<open>Truthiness, as \<open>if (value)\<close> tests it.\<close>

fun js_truthy :: "jsval \<Rightarrow> bool" where
  "js_truthy JUndefined = False"
| "js_truthy JNull = False"
| "js_truthy (JBool b) = b"
| "js_truthy (JNum n) = (n \<noteq> 0)"
| "js_truthy (JStr s) = (s \<noteq> [])"
| "js_truthy (JObj _) = True"
| "js_truthy (JFun _) = True"

text \<open>\<open>String(n)\<close> for an integral number of magnitude below \<open>10^21\<close>.\<close>

definition js_number_to_string :: "int \<Rightarrow> string" where
  "js_number_to_string n =
     (if n < 0 then CHR ''-'' # dec_of_nat (nat (- n)) else dec_of_nat (nat n))"

definition string_index :: "string \<Rightarrow> string \<Rightarrow> nat option" where
  "string_index s k = find (\<lambda>i. dec_of_nat i = k) [0..<length s]"

text \<open>
  \<open>parseInt(s, 10)\<close>: leading white space skipped, an optional sign, then the
  longest run of decimal digits; no digit at all is \<open>NaN\<close> (\<open>None\<close>).
\<close>

text \<open>
  The white space of \<open>\s\<close> in a regular expression and of \<open>parseInt\<close>
  (WhiteSpace and LineTerminator of ECMAScript): tab, line feed, vertical tab, form
  feed, carriage return, space and no-break space U+00A0; the others lie above U+00FF.
\<close>

definition is_js_space :: "char \<Rightarrow> bool" where
  "is_js_space c \<longleftrightarrow> c \<in> {CHR '' '', CHR 0x09, CHR 0x0A, CHR 0x0B, CHR 0x0C, CHR 0x0D, CHR 0xA0}"

definition js_parse_int :: "string \<Rightarrow> int option" where
  "js_parse_int s =
     (let t = dropWhile is_js_space s;
          (sign, r) = (case t of
                         c # r \<Rightarrow> if c = CHR ''-'' then (-1, r) else if c = CHR ''+'' then (1, r) else (1, t)
                       | [] \<Rightarrow> (1, []));
          ds = takeWhile is_digit r
      in if ds = [] then None else Some (sign * int (digits_value ds)))"

text \<open>The keys \<open>for (const k in v)\<close> enumerates (none for \<open>undefined\<close> and \<open>null\<close>).\<close>

fun js_keys :: "jsval \<Rightarrow> string list" where
  "js_keys (JObj kvs) = map fst kvs"
| "js_keys (JStr s) = map dec_of_nat [0..<length s]"
| "js_keys _ = []"

text \<open>\<open>v[k]\<close> on a value that is not \<open>undefined\<close> or \<open>null\<close>.\<close>

fun js_get :: "jsval \<Rightarrow> string \<Rightarrow> jsval" where
  "js_get (JObj kvs) k = (case map_of kvs k of Some v \<Rightarrow> v | None \<Rightarrow> JUndefined)"
| "js_get (JStr s) k =
     (case string_index s k of
        Some i \<Rightarrow> JStr [s ! i]
      | None \<Rightarrow> if k = ''length'' then JNum (int (length s)) else JUndefined)"
| "js_get _ k = JUndefined"

text \<open>Optional chaining \<open>v?.[k]\<close>: \<open>undefined\<close> on a nullish value.\<close>

fun js_optional_get :: "jsval \<Rightarrow> string \<Rightarrow> jsval" where
  "js_optional_get JUndefined k = JUndefined"
| "js_optional_get JNull k = JUndefined"
| "js_optional_get v k = js_get v k"

text \<open>A well-formed object has one entry per key, at every depth.\<close>

fun js_wf :: "jsval \<Rightarrow> bool" where
  "js_wf (JObj kvs) = (distinct (map fst kvs) \<and> (\<forall>kv \<in> set kvs. js_wf (snd kv)))"
| "js_wf _ = True"

section \<open>String.prototype.match with a global regular expression\<close>

text \<open>
  A regular expression is given by what it matches at a position of the text: the length
  of the match found there, or \<open>None\<close>. \<open>\b\<close> is the boundary between a word
  character (\<open>\w\<close>) and a non-word character or an end of the text.
\<close>

definition js_word_char :: "char \<Rightarrow> bool" where
  "js_word_char c \<longleftrightarrow> c \<in> set (''abcdefghijklmnopqrstuvwxyzABCDEFGHIJKLMNOPQRSTUVWXYZ0123456789_'')"

definition regex_boundary :: "string \<Rightarrow> nat \<Rightarrow> bool" where
  "regex_boundary t j \<longleftrightarrow>
     (0 < j \<and> js_word_char (t ! (j - 1))) \<noteq> (j < length t \<and> js_word_char (t ! j))"

type_synonym js_regex = "string \<Rightarrow> nat \<Rightarrow> nat option"

text \<open>
  \<open>RegExpBuiltinExec\<close> from \<open>lastIndex\<close>: the leftmost position from which the
  expression matches, with the length of that match.
\<close>

definition regex_exec :: "js_regex \<Rightarrow> string \<Rightarrow> nat \<Rightarrow> (nat \<times> nat) option" where
  "regex_exec re t lastIndex =
     (case find (\<lambda>j. re t j \<noteq> None) [lastIndex..<Suc (length t)] of
        None \<Rightarrow> None
      | Some j \<Rightarrow> (case re t j of None \<Rightarrow> None | Some len \<Rightarrow> Some (j, len)))"

text \<open>
  The loop of \<open>String.prototype.match\<close> for a global expression: execute from
  \<open>lastIndex\<close>, collect the matched text, continue at its end, one further after an
  empty match, and stop at the first failure. The result is \<open>null\<close> when nothing
  matched and the array of the matches otherwise.
\<close>

function string_match_loop :: "js_regex \<Rightarrow> string \<Rightarrow> nat \<Rightarrow> string list" where
  "string_match_loop re t lastIndex =
     (if length t < lastIndex then []
      else (case regex_exec re t lastIndex of
              None \<Rightarrow> []
            | Some (s, len) \<Rightarrow>
                take len (drop s t) # string_match_loop re t (if len = 0 then Suc s else s + len)))"
  by pat_completeness auto

termination
  by (relation "measure (\<lambda>(re, t, lastIndex). Suc (length t) - lastIndex)")
     (auto simp: regex_exec_def find_Some_iff simp del: upt_Suc split: option.splits)

declare string_match_loop.simps [simp del]

datatype match_result = MatchNull | MatchArray "string list"

definition js_string_match :: "js_regex \<Rightarrow> string \<Rightarrow> match_result" where
  "js_string_match re t = (case string_match_loop re t 0 of [] \<Rightarrow> MatchNull | ms \<Rightarrow> MatchArray ms)"

section \<open>Lemmas\<close>

text \<open>A global match is \<open>null\<close> exactly when the expression matches at no position.\<close>

lemma string_match_loop_Nil_iff:
  "string_match_loop re t i = [] \<longleftrightarrow> length t < i \<or> regex_exec re t i = None"
  by (subst string_match_loop.simps) (simp split: option.split)

lemma regex_exec_None_iff:
  "regex_exec re t i = None \<longleftrightarrow> (\<forall>j. i \<le> j \<and> j \<le> length t \<longrightarrow> re t j = None)"
proof
  assume none: "regex_exec re t i = None"
  show "\<forall>j. i \<le> j \<and> j \<le> length t \<longrightarrow> re t j = None"
  proof (intro allI impI, rule ccontr)
    fix j assume "i \<le> j \<and> j \<le> length t" and "re t j \<noteq> None"
    then have "find (\<lambda>j. re t j \<noteq> None) [i..<Suc (length t)] \<noteq> None"
      by (auto simp: find_None_iff less_Suc_eq_le simp del: upt_Suc)
    then obtain j' where found: "find (\<lambda>j. re t j \<noteq> None) [i..<Suc (length t)] = Some j'" by blast
    then have "re t j' \<noteq> None" by (simp only: find_Some_iff) blast
    then obtain len where "re t j' = Some len" by blast
    with found have "regex_exec re t i = Some (j', len)" by (simp add: regex_exec_def)
    with none show False by simp
  qed
next
  assume "\<forall>j. i \<le> j \<and> j \<le> length t \<longrightarrow> re t j = None"
  then have "find (\<lambda>j. re t j \<noteq> None) [i..<Suc (length t)] = None"
    by (auto simp: find_None_iff less_Suc_eq_le simp del: upt_Suc)
  then show "regex_exec re t i = None" by (simp add: regex_exec_def)
qed
  
lemma js_string_match_null_iff:
  "js_string_match re t = MatchNull \<longleftrightarrow> (\<forall>j \<le> length t. re t j = None)"
proof -
  have "js_string_match re t = MatchNull \<longleftrightarrow> string_match_loop re t 0 = []"
    by (simp add: js_string_match_def split: list.split)
  then show ?thesis by (simp add: string_match_loop_Nil_iff regex_exec_None_iff)
qed


lemma js_optional_get_undefined [simp]: "js_optional_get JUndefined k = JUndefined"
  by simp

lemma js_keys_wf [model_simps]: "js_wf v \<Longrightarrow> distinct (js_keys v)"
proof (cases v)
  case (JStr s)
  have "inj_on dec_of_nat {0..<length s}"
    by (rule inj_onI) (metis digits_value_dec_of_nat)
  with JStr show ?thesis by (simp add: distinct_map)
qed simp_all

lemma js_keys_no_dot_JStr:
  assumes "k \<in> set (js_keys (JStr s))"
  shows "CHR ''.'' \<notin> set k"
proof -
  from assms obtain i where "k = dec_of_nat i" by auto
  then show ?thesis using dec_of_nat_digits [of i] digit_not_dot by blast
qed

lemma js_get_JObj_key [model_simps]:
  "js_get (JObj kvs) k \<noteq> JUndefined \<Longrightarrow> k \<in> set (js_keys (JObj kvs))"
  by (force split: option.splits dest: map_of_SomeD)

lemma digits_parse:
  assumes "\<forall>c \<in> set ds. is_digit c" and "ds \<noteq> []"
  shows "\<not> is_js_space (hd ds)" "hd ds \<noteq> CHR ''-''" "hd ds \<noteq> CHR ''+''" "takeWhile is_digit ds = ds"
proof -
  have d: "is_digit (hd ds)" using assms by simp
  then show "\<not> is_js_space (hd ds)" "hd ds \<noteq> CHR ''-''" "hd ds \<noteq> CHR ''+''"
    by (auto simp: is_digit_def is_js_space_def)
  show "takeWhile is_digit ds = ds" using assms(1) by (simp add: takeWhile_eq_all_conv)
qed

lemma js_parse_int_number_to_string [model_simps]: "js_parse_int (js_number_to_string n) = Some n"
proof -
  let ?ds = "dec_of_nat (nat \<bar>n\<bar>)"
  have ds: "\<forall>c \<in> set ?ds. is_digit c" "?ds \<noteq> []" by (rule dec_of_nat_digits, rule dec_of_nat_nonempty)
  obtain c cs where cs: "?ds = c # cs" using ds(2) by (cases ?ds) auto
  have c: "\<not> is_js_space c" "c \<noteq> CHR ''-''" "c \<noteq> CHR ''+''" "takeWhile is_digit (c # cs) = c # cs"
    using digits_parse [OF ds] cs by simp_all
  have val: "int (digits_value ?ds) = \<bar>n\<bar>" by (simp add: digits_value_dec_of_nat)
  show ?thesis
  proof (cases "n < 0")
    case True
    then have "js_number_to_string n = CHR ''-'' # c # cs" using cs by (simp add: js_number_to_string_def)
    with True c val cs show ?thesis by (simp add: js_parse_int_def is_js_space_def)
  next
    case False
    then have "js_number_to_string n = c # cs" using cs by (simp add: js_number_to_string_def)
    with False c val cs show ?thesis by (simp add: js_parse_int_def)
  qed
qed

lemma js_get_JStr_index:
  assumes "i < length s"
  shows "js_get (JStr s) (dec_of_nat i) = JStr [s ! i]"
proof -
  have "find (\<lambda>j. dec_of_nat j = dec_of_nat i) [0..<length s] = Some i"
    unfolding find_Some_iff
  proof (intro exI conjI)
    show "i < length [0..<length s]" using assms by simp
    show "dec_of_nat ([0..<length s] ! i) = dec_of_nat i" using assms by simp
    show "i = [0..<length s] ! i" using assms by simp
    show "\<forall>j<i. dec_of_nat ([0..<length s] ! j) \<noteq> dec_of_nat i"
      using assms by (simp add: dec_of_nat_eq_iff)
  qed
  then show ?thesis by (simp add: string_index_def)
qed

lemma js_typeof_object_iff: "js_typeof v = TObject \<longleftrightarrow> v = JNull \<or> (\<exists>kvs. v = JObj kvs)"
  by (cases v) auto

end
