(* ===== verification/TsAst.thy ===== *)
theory TsAst
  imports JsValue
begin

text \<open>
  The part of the TypeScript compiler API the transformers use: the syntax nodes
  they read and build, the type guards they test (\<open>isNumericLiteral\<close>,
  \<open>isStringLiteralLike\<close>, \<open>isCallExpression\<close>, \<open>isObjectLiteralExpression\<close>,
  \<open>isExportAssignment\<close>, \<open>isPropertyAssignment\<close>), \<open>visitEachChild\<close> over the
  properties of an object literal, and \<open>transform\<close> over a source file. A node is built by a constructor: the factory
  calls \<open>createNumericLiteral\<close>, \<open>createStringLiteral\<close>, \<open>createTrue\<close>,
  \<open>createFalse\<close>, \<open>createPropertyAssignment\<close>, \<open>createObjectLiteralExpression\<close>
  and \<open>createCallExpression\<close> and their \<open>update\<close> forms.

  A property name is the text \<open>node.name.getText()\<close> returns. \<open>OtherE\<close> is any
  expression outside the modelled kinds (arrays, arrow functions, templates, ...):
  the transformers never look inside one, and as the argument of the exported call
  it is taken to have no child nodes. \<open>OtherMember\<close> is any object member that is
  not a property assignment (shorthand, spread, method, accessor). A statement with
  statements inside it (a module or namespace block, whose body \<open>visitEachChild\<close>
  reaches) is \<open>StmtBlock\<close>, so that an export assignment nested there is seen by
  the visitors as the code's recursion through \<open>visitEachChild\<close> sees it; any other
  statement is \<open>OtherStmt\<close>. The parser and the printer are not modelled: the
  transformers are functions from syntax trees to syntax trees.

  What the code throws is an \<open>error\<close>: a \<open>TypeError\<close> or \<open>ReferenceError\<close> of
  the JavaScript engine, or the \<open>Error\<close> of a failed \<open>Debug.assert\<close> of the
  compiler (\<open>DebugFailure\<close>: \<open>node.getText()\<close> on a node built by the factory,
  which has no position in a source file). \<open>UndefinedNode\<close> is not an exception of
  the code: it marks the point where the code hands \<open>undefined\<close> on in place of a
  node (in a node array given to a factory function, or as an argument of the exported
  call); \<open>createObjectLiteralExpression\<close> stores such a hole, and the model stops
  there instead of guessing what a later factory call or the printer makes of it.

  \<open>StrLit\<close> is a string literal or a template literal without substitutions: both
  pass \<open>isStringLiteralLike\<close>, and the code never tells them apart.
\<close>

datatype expr =
    NumLit string
  | StrLit string
  | TrueLit
  | FalseLit
  | Ident string
  | CallE expr "expr list"
  | ObjLit "member list"
  | OtherE string
and member =
    PropAssign string expr
  | OtherMember string

datatype stmt = ExportAssign expr | StmtBlock string "stmt list" | OtherStmt string

type_synonym source_file = "stmt list"

datatype error = TypeError string | ReferenceError string | DebugFailure string | UndefinedNode string

section \<open>Type guards\<close>

fun isNumericLiteral :: "expr \<Rightarrow> bool" where
  "isNumericLiteral (NumLit _) = True"
| "isNumericLiteral _ = False"

fun isStringLiteralLike :: "expr \<Rightarrow> bool" where
  "isStringLiteralLike (StrLit _) = True"
| "isStringLiteralLike _ = False"

fun isCallExpression :: "expr \<Rightarrow> bool" where
  "isCallExpression (CallE _ _) = True"
| "isCallExpression _ = False"

fun isObjectLiteralExpression :: "expr \<Rightarrow> bool" where
  "isObjectLiteralExpression (ObjLit _) = True"
| "isObjectLiteralExpression _ = False"

fun member_name :: "member \<Rightarrow> string option" where
  "member_name (PropAssign n _) = Some n"
| "member_name (OtherMember _) = None"

text \<open>A property whose initializer is an object literal.\<close>

fun is_object_property :: "member \<Rightarrow> bool" where
  "is_object_property (PropAssign n (ObjLit ms)) = True"
| "is_object_property _ = False"

definition member_names :: "member list \<Rightarrow> string list" where
  "member_names ms = List.map_filter member_name ms"

section \<open>visitEachChild over a node array\<close>

text \<open>
  \<open>visitNodes\<close>, as \<open>visitEachChild\<close> applies it to the properties of an object
  literal: the visitor runs on each node in order, threading whatever state its
  closure mutates; a result \<open>undefined\<close> (\<open>None\<close>) drops the node; an exception
  stops the walk.
\<close>

fun visit_nodes ::
  "('a \<Rightarrow> 's \<Rightarrow> error + ('a option \<times> 's)) \<Rightarrow> 'a list \<Rightarrow> 's \<Rightarrow> error + ('a list \<times> 's)" where
  "visit_nodes f [] s = Inr ([], s)"
| "visit_nodes f (x # xs) s =
     (case f x s of
        Inl e \<Rightarrow> Inl e
      | Inr (r, s') \<Rightarrow>
          (case visit_nodes f xs s' of
             Inl e \<Rightarrow> Inl e
           | Inr (ys, s'') \<Rightarrow> Inr (case r of None \<Rightarrow> ys | Some y \<Rightarrow> y # ys, s'')))"

text \<open>
  A node array given to a factory function (\<open>createObjectLiteralExpression\<close>,
  \<open>updateObjectLiteralExpression\<close>): the factory accepts an \<open>undefined\<close>
  element and stores the hole; the model stops at it (\<open>UndefinedNode\<close>).
\<close>

definition node_array :: "string \<Rightarrow> member option list \<Rightarrow> error + member list" where
  "node_array key rs = (if None \<in> set rs then Inl (UndefinedNode key) else Inr (map the rs))"

text \<open>
  \<open>transform(sourceFile, transformers)\<close>: the transformers run one after the other
  on the file; an exception of one of them escapes.
\<close>

fun transform_file :: "(source_file \<Rightarrow> error + source_file) list \<Rightarrow> source_file \<Rightarrow> error + source_file" where
  "transform_file [] sourceFile = Inr sourceFile"
| "transform_file (t # ts) sourceFile =
     (case t sourceFile of Inl err \<Rightarrow> Inl err | Inr sourceFile' \<Rightarrow> transform_file ts sourceFile')"

section \<open>Lemmas\<close>

text \<open>
  Building an array with \<open>map\<close> and handing it to a factory succeeds exactly when
  every element is built and none is \<open>undefined\<close>: then the holes may as well be
  reported element by element.
\<close>

lemma map_throw_node_array_Inr:
  "(case map_throw f xs of Inl err \<Rightarrow> Inl err | Inr rs \<Rightarrow> node_array key rs) = Inr ys \<longleftrightarrow>
   map_throw (\<lambda>x. case f x of Inl err \<Rightarrow> Inl err | Inr None \<Rightarrow> Inl (UndefinedNode (k x))
                             | Inr (Some y) \<Rightarrow> Inr y) xs = Inr ys"
proof (induction xs arbitrary: ys)
  case Nil
  then show ?case by (auto simp: node_array_def)
next
  case (Cons x xs)
  show ?case
  proof (cases "f x")
    case (Inl err)
    then show ?thesis by simp
  next
    case (Inr r)
    show ?thesis
    proof (cases r)
      case None
      with Inr show ?thesis by (auto simp: node_array_def split: sum.splits)
    next
      case (Some y)
      have l: "(case map_throw f (x # xs) of Inl err \<Rightarrow> Inl err | Inr rs \<Rightarrow> node_array key rs) = Inr ys
                 \<longleftrightarrow> (\<exists>zs. (case map_throw f xs of Inl err \<Rightarrow> Inl err | Inr rs \<Rightarrow> node_array key rs) = Inr zs
                          \<and> ys = y # zs)"
        using Inr Some by (auto simp: node_array_def split: sum.splits)
      show ?thesis
        unfolding l using Inr Some Cons.IH by (auto split: sum.splits)
    qed
  qed
qed

lemma member_names_simps [simp]:
  "member_names [] = []"
  "member_names (PropAssign n e # ms) = n # member_names ms"
  "member_names (OtherMember t # ms) = member_names ms"
  "member_names (ms @ ms') = member_names ms @ member_names ms'"
  by (simp_all add: member_names_def List.map_filter_def)

lemma member_names_mem: "PropAssign n e \<in> set ms \<Longrightarrow> n \<in> set (member_names ms)"
  by (induction ms) (auto simp: member_names_def List.map_filter_def)

lemma member_names_all_named:
  "map member_name ms = map Some ks \<Longrightarrow> member_names ms = ks"
  by (induction ms arbitrary: ks) (auto simp: member_names_def)

text \<open>Inversion of one successful step of a walk.\<close>

lemma visit_nodes_Cons_Inr:
  assumes "visit_nodes f (x # xs) s = Inr (ys, s')"
  obtains r s1 ys1 where "f x s = Inr (r, s1)" and "visit_nodes f xs s1 = Inr (ys1, s')"
    and "ys = (case r of None \<Rightarrow> ys1 | Some y \<Rightarrow> y # ys1)"
  using assms by (auto split: sum.splits prod.splits)

text \<open>A visitor that keeps or drops each node but never renames it.\<close>

lemma visit_nodes_names_subseq:
  assumes "visit_nodes f xs s = Inr (ys, s')"
    and "\<And>x s y s'. x \<in> set xs \<Longrightarrow> f x s = Inr (Some y, s') \<Longrightarrow> member_name y = member_name x"
  shows "subseq (member_names ys) (member_names xs)"
  using assms
proof (induction xs arbitrary: s ys)
  case (Cons x xs)
  from Cons.prems(1) obtain r s1 ys1 where
    fx: "f x s = Inr (r, s1)" and rest: "visit_nodes f xs s1 = Inr (ys1, s')"
    and ys: "ys = (case r of None \<Rightarrow> ys1 | Some y \<Rightarrow> y # ys1)"
    by (rule visit_nodes_Cons_Inr)
  have IH: "subseq (member_names ys1) (member_names xs)"
    using Cons.IH [OF rest] Cons.prems(2) by auto
  show ?case
  proof (cases r)
    case None
    with IH ys show ?thesis by (cases x) (auto simp: member_names_def)
  next
    case (Some y)
    with fx Cons.prems(2) have "member_name y = member_name x" by auto
    with IH ys Some show ?thesis
      by (cases x; cases y) (auto simp: member_names_def)
  qed
qed simp

lemma visit_nodes_Inl:
  assumes "x \<in> set xs" and "\<And>s. \<exists>e. f x s = Inl e"
  shows "\<exists>e. visit_nodes f xs s = Inl e"
  using assms
proof (induction xs arbitrary: s)
  case (Cons y ys)
  show ?case
  proof (cases "y = x")
    case True
    with Cons.prems(2)[of s] show ?thesis by auto
  next
    case False
    with Cons.prems(1) have x: "x \<in> set ys" by simp
    show ?thesis
    proof (cases "f y s")
      case (Inl e)
      then show ?thesis by simp
    next
      case (Inr p)
      obtain r s1 where p: "p = (r, s1)" by (cases p)
      obtain e where "visit_nodes f ys s1 = Inl e"
        using Cons.IH [OF x Cons.prems(2)] by blast
      with Inr p show ?thesis by simp
    qed
  qed
qed simp

lemma visit_nodes_Inl_from:
  "visit_nodes f xs s = Inl e \<Longrightarrow> \<exists>x \<in> set xs. \<exists>s'. f x s' = Inl e"
  by (induction xs arbitrary: s) (fastforce split: sum.splits prod.splits)+

text \<open>Nodes on which the visitor returns themselves survive, in their order.\<close>

lemma visit_nodes_subseq:
  assumes "visit_nodes f xs s = Inr (ys, s')"
    and "\<And>x s r s'. x \<in> set xs \<Longrightarrow> P x \<Longrightarrow> f x s = Inr (r, s') \<Longrightarrow> r = Some x"
  shows "subseq (filter P xs) ys"
  using assms
proof (induction xs arbitrary: s ys)
  case (Cons x xs)
  from Cons.prems(1) obtain r s1 ys1 where
    fx: "f x s = Inr (r, s1)" and rest: "visit_nodes f xs s1 = Inr (ys1, s')"
    and ys: "ys = (case r of None \<Rightarrow> ys1 | Some y \<Rightarrow> y # ys1)"
    by (rule visit_nodes_Cons_Inr)
  have IH: "subseq (filter P xs) ys1"
    using Cons.IH [OF rest] Cons.prems(2) by auto
  show ?case
  proof (cases "P x")
    case True
    with fx Cons.prems(2) have "r = Some x" by auto
    with IH ys True show ?thesis by simp
  next
    case False
    with IH ys show ?thesis by (cases r) auto
  qed
qed simp

lemma visit_nodes_keeps:
  assumes "visit_nodes f xs s = Inr (ys, s')" and "x \<in> set xs"
    and "\<And>s r s'. f x s = Inr (r, s') \<Longrightarrow> r = Some x"
  shows "x \<in> set ys"
proof -
  have sub: "subseq (filter (\<lambda>y. y = x) xs) ys"
  proof (rule visit_nodes_subseq [OF assms(1)])
    fix x' s r s'
    assume "x' = x" and "f x' s = Inr (r, s')"
    then show "r = Some x'" using assms(3) by simp
  qed
  have "x \<in> set (filter (\<lambda>y. y = x) xs)" using assms(2) by simp
  then obtain y where "y \<in> set ys" and "x = y"
    using list_emb_set [OF sub] by blast
  then show ?thesis by simp
qed

text \<open>A visitor that only keeps or drops nodes leaves a subsequence of them.\<close>

lemma visit_nodes_drops:
  assumes "visit_nodes f xs s = Inr (ys, s')"
    and "\<And>x s r s'. x \<in> set xs \<Longrightarrow> f x s = Inr (r, s') \<Longrightarrow> r = None \<or> r = Some x"
  shows "subseq ys xs"
  using assms
proof (induction xs arbitrary: s ys)
  case (Cons x xs)
  from Cons.prems(1) obtain r s1 ys1 where
    fx: "f x s = Inr (r, s1)" and rest: "visit_nodes f xs s1 = Inr (ys1, s')"
    and ys: "ys = (case r of None \<Rightarrow> ys1 | Some y \<Rightarrow> y # ys1)"
    by (rule visit_nodes_Cons_Inr)
  have IH: "subseq ys1 xs"
    using Cons.IH [OF rest] Cons.prems(2) by auto
  from fx Cons.prems(2) have "r = None \<or> r = Some x" by auto
  with IH ys show ?case by auto
qed simp

text \<open>Every node of the result is one the visitor returned for some input node.\<close>

lemma visit_nodes_results:
  assumes "visit_nodes f xs s = Inr (ys, s')" and "y \<in> set ys"
  shows "\<exists>x \<in> set xs. \<exists>s1 s2. f x s1 = Inr (Some y, s2)"
  using assms
proof (induction xs arbitrary: s ys)
  case (Cons x xs)
  from Cons.prems(1) obtain r s1 ys1 where
    fx: "f x s = Inr (r, s1)" and rest: "visit_nodes f xs s1 = Inr (ys1, s')"
    and ys: "ys = (case r of None \<Rightarrow> ys1 | Some y \<Rightarrow> y # ys1)"
    by (rule visit_nodes_Cons_Inr)
  show ?case
  proof (cases "y \<in> set ys1")
    case True
    with Cons.IH [OF rest] show ?thesis by auto
  next
    case False
    with ys Cons.prems(2) fx show ?thesis by (cases r) auto
  qed
qed simp

text \<open>A property of nodes that every step of the visitor passes on holds of the result.\<close>

lemma visit_nodes_preserves:
  assumes "visit_nodes f xs s = Inr (ys, s')" and "list_all P xs"
    and "\<And>x s1 y s2. f x s1 = Inr (Some y, s2) \<Longrightarrow> P x \<Longrightarrow> P y"
  shows "list_all P ys"
  unfolding list_all_iff
proof
  fix y assume "y \<in> set ys"
  then obtain x s1 s2 where "x \<in> set xs" and step: "f x s1 = Inr (Some y, s2)"
    using visit_nodes_results [OF assms(1)] by blast
  with assms(2) have "P x" by (simp add: list_all_iff)
  with step show "P y" by (rule assms(3))
qed

text \<open>A visitor that never changes its state and keeps every node is the identity.\<close>

lemma visit_nodes_id:
  assumes "\<And>x. x \<in> set xs \<Longrightarrow> f x s = Inr (Some x, s)"
  shows "visit_nodes f xs s = Inr (xs, s)"
  using assms by (induction xs) auto

end
