(* ===== verification/Transformers.thy ===== *)
theory Transformers
  imports TsAst
begin

text \<open>
  The merge transformer of src/packages/cypress/src/utils/config/transformers.ts.
  \<open>mergeCypressConfigs\<close> rewrites the call of every \<open>export default\<close> of the source
  file: in overwrite mode it drops the call's arguments, otherwise it keeps only the
  first one, rewritten by \<open>visitRootConfigNode\<close>. That visitor walks the root object
  literal once (\<open>updateAssignments\<close>), hands every object-valued property to
  \<open>updateChildObjectLiteral\<close> with the path \<open>[name]\<close>, replaces a literal-valued
  property whose patch value is truthy through \<open>updatePropertyAssignment\<close>, and
  finally puts the patch's left-over non-object keys in front of the properties.
  \<open>updateChildObjectLiteral\<close> does the same one level down, with the test
  \<open>value !== undefined\<close> and appending the left-over keys.

  The two JavaScript \<open>Map\<close>s the code mutates while the visitor runs
  (\<open>propertyMap\<close>, \<open>propertiesToAdd\<close>) are the state threaded through
  \<open>visit_nodes\<close>. The property builder is a parameter (\<open>prop_builder\<close>) because
  add-update-property-transformer.ts runs the same walk with another builder
  (theory \<open>AddUpdate\<close>); \<open>updateChild\<close> is a parameter of the root visitor for
  the same reason.
\<close>

type_synonym prop_builder = "string \<Rightarrow> jsval \<Rightarrow> error + member option"
type_synonym property_map = "(string, jsval) jsmap"

section \<open>Helpers of transformers.ts\<close>

fun isBooleanLiteral :: "expr \<Rightarrow> bool" where
  "isBooleanLiteral TrueLit = True"
| "isBooleanLiteral FalseLit = True"
| "isBooleanLiteral _ = False"

text \<open>
  The two regular expressions of \<open>createExpressionFromFunction\<close>, as what they
  match at a position (\<open>JsValue.js_regex\<close>).
  \<open>fnArgMatcher = /\([\s\S)]+?(?=\))/g\<close>: an opening parenthesis, then lazily one
  character or more, up to the first closing parenthesis after them, which the lookahead
  does not consume.
  \<open>fnNameMatcher = /\b\S+(?=\()/g\<close>: at a word boundary, greedily the run of
  non-space characters, given back one by one until an opening parenthesis follows;
  the parenthesis is itself a non-space character, so it is the last one of the run
  that counts.
\<close>

definition fnArgMatcher :: js_regex where
  "fnArgMatcher t j =
     (if j < length t \<and> t ! j = CHR ''(''
      then (case find (\<lambda>k. t ! k = CHR '')'') [j + 2..<length t] of
              None \<Rightarrow> None
            | Some k \<Rightarrow> Some (k - j))
      else None)"

definition fnNameMatcher :: js_regex where
  "fnNameMatcher t j =
     (if regex_boundary t j
      then (let e = j + length (takeWhile (\<lambda>c. \<not> is_js_space c) (drop j t))
            in case find (\<lambda>k. t ! k = CHR ''('') (rev [Suc j..<e]) of
                 None \<Rightarrow> None
               | Some k \<Rightarrow> Some (k - j))
      else None)"

text \<open>
  \<open>strFn\<close> is \<open>fn.toString()\<close>, the text a function value holds. With the global
  flag \<open>match\<close> returns the array of the matches or \<open>null\<close>. \<open>[0]\<close> on
  \<open>null\<close> throws; an array has no \<open>split\<close> method, and \<open>null\<close> has no
  properties, so the call \<open>.split(',')\<close> throws in both cases. The construction of
  the call expression after it (lines 80 to 95) is never reached. A value that is not
  a function is logged and \<open>undefined\<close> is returned.
\<close>

definition createExpressionFromFunction :: "jsval \<Rightarrow> error + expr option" where
  "createExpressionFromFunction fn =
     (case fn of
        JFun strFn \<Rightarrow>
          (case js_string_match fnNameMatcher strFn of
             MatchNull \<Rightarrow> Inl (TypeError ''Cannot read properties of null (reading 0)'')
           | MatchArray names \<Rightarrow>
               (let fnName = names ! 0
                in case js_string_match fnArgMatcher strFn of
                     MatchNull \<Rightarrow> Inl (TypeError ''Cannot read properties of null (reading split)'')
                   | MatchArray args \<Rightarrow> Inl (TypeError ''strFn.match(...).split is not a function'')))
      | _ \<Rightarrow> Inr None)"

definition getValueByPath :: "jsval \<Rightarrow> string list \<Rightarrow> jsval" where
  "getValueByPath config path = fold (\<lambda>key acc. js_optional_get acc key) path config"

text \<open>\<open>[...path, k].join('.')\<close> and \<open>key.split('.').pop()\<close>.\<close>

definition join_path :: "string list \<Rightarrow> string" where
  "join_path p = join_on CHR ''.'' p"

definition last_segment :: "string \<Rightarrow> string" where
  "last_segment key = last (split_on CHR ''.'' key)"

text \<open>
  \<open>updatePropertyAssignment(context, property, value)\<close>: a \<open>switch (typeof value)\<close>
  with no \<open>object\<close> and no \<open>default\<close> case, so an object, \<open>null\<close> or
  \<open>undefined\<close> value yields \<open>undefined\<close>. \<open>createNumericLiteral(value)\<close>
  takes the text \<open>String(value)\<close>, the decimal digits for the integral numbers of
  the model (magnitude below \<open>10^21\<close>, JsValue).
\<close>

definition updatePropertyAssignment :: prop_builder where
  "updatePropertyAssignment name value =
     (case value of
        JNum n \<Rightarrow> Inr (Some (PropAssign name (NumLit (js_number_to_string n))))
      | JStr s \<Rightarrow> Inr (Some (PropAssign name (StrLit s)))
      | JBool b \<Rightarrow> Inr (Some (PropAssign name (if b then TrueLit else FalseLit)))
      | JFun _ \<Rightarrow>
          (case createExpressionFromFunction value of
             Inl err \<Rightarrow> Inl err
           | Inr None \<Rightarrow> Inl (UndefinedNode name)
           | Inr (Some call) \<Rightarrow> Inr (Some (PropAssign name call)))
      | _ \<Rightarrow> Inr None)"

section \<open>updateChildObjectLiteral\<close>

definition child_properties_to_add :: "string list \<Rightarrow> jsval \<Rightarrow> property_map" where
  "child_properties_to_add path config =
     (let baseConfig = getValueByPath config path
      in fold (\<lambda>baseConfigKey m.
                 jsmap_set (join_path (path @ [baseConfigKey])) (js_get baseConfig baseConfigKey) m)
              (js_keys baseConfig) [])"

fun child_visitor ::
  "prop_builder \<Rightarrow> string list \<Rightarrow> jsval \<Rightarrow> member \<Rightarrow> property_map
     \<Rightarrow> error + (member option \<times> property_map)" where
  "child_visitor build path config (PropAssign n e) propertiesToAdd =
     (let propertyPath = path @ [n];
          propertiesToAdd' = jsmap_delete (join_path propertyPath) propertiesToAdd;
          value = getValueByPath config propertyPath
      in if value \<noteq> JUndefined
         then (case build n value of Inl err \<Rightarrow> Inl err | Inr r \<Rightarrow> Inr (r, propertiesToAdd'))
         else Inr (Some (PropAssign n e), propertiesToAdd'))"
| "child_visitor build path config m propertiesToAdd = Inr (Some m, propertiesToAdd)"

definition updateChildObjectLiteral ::
  "prop_builder \<Rightarrow> member list \<Rightarrow> string list \<Rightarrow> jsval \<Rightarrow> error + expr" where
  "updateChildObjectLiteral build objectProps path config =
     (case visit_nodes (child_visitor build path config) objectProps
             (child_properties_to_add path config) of
        Inl err \<Rightarrow> Inl err
      | Inr (updated, propertiesToAdd) \<Rightarrow>
          if propertiesToAdd = [] then Inr (ObjLit updated)
          else (case map_throw (\<lambda>(key, value). build (last_segment key) value) propertiesToAdd of
                  Inl err \<Rightarrow> Inl err
                | Inr extraProperties \<Rightarrow>
                    (case node_array ''extraProperties'' extraProperties of
                       Inl err \<Rightarrow> Inl err
                     | Inr extras \<Rightarrow> Inr (ObjLit (updated @ extras)))))"

section \<open>visitRootConfigNode\<close>

text \<open>The non-object entries of \<open>newConfig\<close>, collected before the walk.\<close>

definition root_property_map :: "jsval \<Rightarrow> property_map" where
  "root_property_map newConfig =
     fold (\<lambda>item m. if js_typeof (js_get newConfig item) \<noteq> TObject
                    then jsmap_set item (js_get newConfig item) m else m)
          (js_keys newConfig) []"

definition is_literal_initializer :: "expr \<Rightarrow> bool" where
  "is_literal_initializer e \<longleftrightarrow>
     isNumericLiteral e \<or> isStringLiteralLike e \<or> isBooleanLiteral e \<or> isCallExpression e"

fun updateAssignments ::
  "(string \<Rightarrow> member list \<Rightarrow> error + expr) \<Rightarrow> prop_builder \<Rightarrow> jsval \<Rightarrow> member
     \<Rightarrow> property_map \<Rightarrow> error + (member option \<times> property_map)" where
  "updateAssignments updateChild build newConfig (PropAssign n e) propertyMap =
     (case e of
        ObjLit props \<Rightarrow>
          (case updateChild n props of
             Inl err \<Rightarrow> Inl err
           | Inr e' \<Rightarrow> Inr (Some (PropAssign n e'), propertyMap))
      | _ \<Rightarrow>
          if is_literal_initializer e then
            (let value = getValueByPath newConfig [n]
             in if js_truthy value
                then (case build n value of
                        Inl err \<Rightarrow> Inl err
                      | Inr r \<Rightarrow> Inr (r, jsmap_delete n propertyMap))
                else Inr (Some (PropAssign n e), propertyMap))
          else Inr (Some (PropAssign n e), propertyMap))"
| "updateAssignments updateChild build newConfig m propertyMap = Inr (Some m, propertyMap)"

text \<open>
  The root is \<open>callExpression.arguments[0]\<close>, \<open>None\<close> when the call has no
  argument: \<open>visitEachChild(undefined, ...)\<close> returns \<open>undefined\<close>, and
  \<open>updatedConfig.properties\<close> then throws if there is something to add. The extra
  properties are built by \<open>map\<close> first, \<open>updatedConfig.properties\<close> is spread
  next, and only then is the array with its holes handed to the factory.
\<close>

definition visitRootConfigNode ::
  "(string \<Rightarrow> member list \<Rightarrow> error + expr) \<Rightarrow> prop_builder \<Rightarrow> expr option \<Rightarrow> jsval
     \<Rightarrow> error + expr option" where
  "visitRootConfigNode updateChild build rootNode newConfig =
     (let propertyMap = root_property_map newConfig;
          visited =
            (case rootNode of
               Some (ObjLit props) \<Rightarrow>
                 (case visit_nodes (updateAssignments updateChild build newConfig) props propertyMap of
                    Inl err \<Rightarrow> Inl err
                  | Inr (props', propertyMap') \<Rightarrow> Inr (Some (ObjLit props'), propertyMap'))
             | _ \<Rightarrow> Inr (rootNode, propertyMap))
      in case visited of
           Inl err \<Rightarrow> Inl err
         | Inr (updatedConfig, propertyMap') \<Rightarrow>
             if propertyMap' = [] then Inr updatedConfig
             else (case map_throw (\<lambda>(key, value). build key value) propertyMap' of
                     Inl err \<Rightarrow> Inl err
                   | Inr rs \<Rightarrow>
                       (case updatedConfig of
                          Some (ObjLit props') \<Rightarrow>
                            (case node_array ''properties'' rs of
                               Inl err \<Rightarrow> Inl err
                             | Inr added \<Rightarrow> Inr (Some (ObjLit (added @ props'))))
                        | Some _ \<Rightarrow> Inl (TypeError ''updatedConfig.properties is not iterable'')
                        | None \<Rightarrow> Inl (TypeError ''Cannot read properties of undefined (reading properties)''))))"

section \<open>mergeCypressConfigs\<close>

text \<open>
  The visitor of \<open>mergeCypressConfigs\<close> on one statement. The cast
  \<open>node.expression as CallExpression\<close> is unchecked: on any other expression
  \<open>callExpression.arguments[0]\<close> throws, in both modes. A call without arguments
  passes \<open>undefined\<close> as the root; if the root visitor returns \<open>undefined\<close>,
  the rebuilt call has an \<open>undefined\<close> argument. Any other node is handed to
  \<open>visitEachChild(node, visitor, context)\<close>, which visits the statements of a block
  in order, stopping at the first throw. The model's expressions have no \<open>new\<close>
  expression: an export of \<open>new X(...)\<close>, whose arguments the code would read like
  a call's and whose update would turn it into a call, is an \<open>OtherE\<close> and is not
  modelled.
\<close>

fun merge_export :: "(expr option \<Rightarrow> error + expr option) \<Rightarrow> bool \<Rightarrow> stmt \<Rightarrow> error + stmt" where
  "merge_export visitRoot overwrite (ExportAssign (CallE callee args)) =
     (if overwrite then Inr (ExportAssign (CallE callee []))
      else (case visitRoot (case args of [] \<Rightarrow> None | rootConfigNode # _ \<Rightarrow> Some rootConfigNode) of
              Inl err \<Rightarrow> Inl err
            | Inr None \<Rightarrow> Inl (UndefinedNode ''arguments[0]'')
            | Inr (Some root') \<Rightarrow> Inr (ExportAssign (CallE callee [root']))))"
| "merge_export visitRoot overwrite (ExportAssign e) =
     Inl (TypeError ''callExpression.arguments is undefined'')"
| "merge_export visitRoot overwrite (StmtBlock n body) =
     (case map_throw (merge_export visitRoot overwrite) body of
        Inl err \<Rightarrow> Inl err
      | Inr body' \<Rightarrow> Inr (StmtBlock n body'))"
| "merge_export visitRoot overwrite (OtherStmt t) = Inr (OtherStmt t)"

text \<open>The root visitor of transformers.ts, with its own child visitor and builder.\<close>

definition merge_root :: "jsval \<Rightarrow> expr option \<Rightarrow> error + expr option" where
  "merge_root newConfig rootNode =
     visitRootConfigNode
       (\<lambda>name props. updateChildObjectLiteral updatePropertyAssignment props [name] newConfig)
       updatePropertyAssignment rootNode newConfig"

definition mergeCypressConfigs :: "jsval \<Rightarrow> bool \<Rightarrow> source_file \<Rightarrow> error + source_file" where
  "mergeCypressConfigs newConfig overwrite sourceFile =
     map_throw (merge_export (merge_root newConfig) overwrite) sourceFile"

section \<open>Lemmas\<close>

lemmas transformers_eval =
  updateChildObjectLiteral_def child_properties_to_add_def getValueByPath_def join_path_def
  last_segment_def updatePropertyAssignment_def node_array_def createExpressionFromFunction_def
  root_property_map_def is_literal_initializer_def visitRootConfigNode_def merge_root_def
  mergeCypressConfigs_def jsmap_set_def jsmap_delete_def js_number_to_string_def string_index_def
  digit_char_def dec_of_nat.simps char_of_eq_iff

text \<open>
  A built property read element by element: the extra properties of both walks are
  built by \<open>map\<close> and only then handed to a factory, but whenever that succeeds the
  array has no hole, and the two readings agree.
\<close>

definition built_property :: "string \<Rightarrow> error + member option \<Rightarrow> error + member" where
  "built_property key r =
     (case r of Inl err \<Rightarrow> Inl err | Inr None \<Rightarrow> Inl (UndefinedNode key) | Inr (Some p) \<Rightarrow> Inr p)"

lemma extras_Inr_iff:
  "(case map_throw (\<lambda>(key, value). build (f key) value) pm of
      Inl err \<Rightarrow> Inl err
    | Inr rs \<Rightarrow> (case node_array k rs of Inl err \<Rightarrow> Inl err | Inr extras \<Rightarrow> Inr (g extras))) = Inr y
   \<longleftrightarrow> (\<exists>extras. map_throw (\<lambda>(key, value). built_property key (build (f key) value)) pm = Inr extras
                 \<and> y = g extras)"
proof -
  have "(case map_throw (\<lambda>(key, value). build (f key) value) pm of
           Inl err \<Rightarrow> Inl err | Inr rs \<Rightarrow> node_array k rs) = Inr extras
        \<longleftrightarrow> map_throw (\<lambda>(key, value). built_property key (build (f key) value)) pm = Inr extras" for extras
    using map_throw_node_array_Inr [where f = "\<lambda>(key, value). build (f key) value" and xs = pm
                                     and key = k and ys = extras and k = fst]
    by (simp add: split_def built_property_def)
  moreover have "(case map_throw (\<lambda>(key, value). build (f key) value) pm of
      Inl err \<Rightarrow> Inl err
    | Inr rs \<Rightarrow> (case node_array k rs of Inl err \<Rightarrow> Inl err | Inr extras \<Rightarrow> Inr (g extras))) =
    (case (case map_throw (\<lambda>(key, value). build (f key) value) pm of
             Inl err \<Rightarrow> Inl err | Inr rs \<Rightarrow> node_array k rs) of
       Inl err \<Rightarrow> Inl err | Inr extras \<Rightarrow> Inr (g extras))"
    by (simp split: sum.split)
  moreover have "(case r of Inl err \<Rightarrow> Inl err | Inr extras \<Rightarrow> Inr (g extras)) = Inr y
                   \<longleftrightarrow> (\<exists>extras. r = Inr extras \<and> y = g extras)" for r :: "error + member list"
    by (cases r) auto
  ultimately show ?thesis by presburger
qed

text \<open>
  Where each expression matches: \<open>fnArgMatcher\<close> somewhere exactly when an opening
  parenthesis is followed, two or more characters later, by a closing one;
  \<open>fnNameMatcher\<close> exactly when an opening parenthesis ends a run of non-space
  characters that starts at a word boundary.
\<close>

lemma fnArgMatcher_exists:
  "(\<exists>j \<le> length t. fnArgMatcher t j \<noteq> None) \<longleftrightarrow>
     (\<exists>i j. i + 2 \<le> j \<and> j < length t \<and> t ! i = CHR ''('' \<and> t ! j = CHR '')'')"
proof
  assume "\<exists>j \<le> length t. fnArgMatcher t j \<noteq> None"
  then obtain j where "j < length t" "t ! j = CHR ''(''"
      and "find (\<lambda>k. t ! k = CHR '')'') [j + 2..<length t] \<noteq> None"
    by (auto simp: fnArgMatcher_def split: if_splits option.splits)
  then show "\<exists>i j. i + 2 \<le> j \<and> j < length t \<and> t ! i = CHR ''('' \<and> t ! j = CHR '')''"
    by (auto simp: find_None_iff)
next
  assume "\<exists>i j. i + 2 \<le> j \<and> j < length t \<and> t ! i = CHR ''('' \<and> t ! j = CHR '')''"
  then obtain i j where "i + 2 \<le> j" "j < length t" "t ! i = CHR ''(''" "t ! j = CHR '')''" by blast
  then have "find (\<lambda>k. t ! k = CHR '')'') [i + 2..<length t] \<noteq> None"
    by (auto simp: find_None_iff)
  with \<open>i + 2 \<le> j\<close> \<open>j < length t\<close> \<open>t ! i = CHR ''(''\<close> show "\<exists>j \<le> length t. fnArgMatcher t j \<noteq> None"
    by (intro exI [of _ i]) (auto simp: fnArgMatcher_def split: option.splits)
qed

lemma fnNameMatcher_exists:
  "(\<exists>j \<le> length t. fnNameMatcher t j \<noteq> None) \<longleftrightarrow>
     (\<exists>k < length t. t ! k = CHR ''('' \<and>
        (\<exists>j < k. regex_boundary t j \<and> (\<forall>m. j \<le> m \<and> m < k \<longrightarrow> \<not> is_js_space (t ! m))))"
proof
  assume "\<exists>j \<le> length t. fnNameMatcher t j \<noteq> None"
  then obtain j where b: "regex_boundary t j"
    and f: "find (\<lambda>k. t ! k = CHR ''('') (rev [Suc j..<j + length (takeWhile (\<lambda>c. \<not> is_js_space c) (drop j t))]) \<noteq> None"
    by (auto simp: fnNameMatcher_def Let_def split: if_splits option.splits)
  then obtain k where k: "Suc j \<le> k" "k < j + length (takeWhile (\<lambda>c. \<not> is_js_space c) (drop j t))"
      "t ! k = CHR ''(''"
    by (auto simp: find_None_iff)
  have "k < length t"
    using k(1,2) length_takeWhile_le [of "\<lambda>c. \<not> is_js_space c" "drop j t"] by simp
  moreover have "\<forall>m. j \<le> m \<and> m < k \<longrightarrow> \<not> is_js_space (t ! m)"
    using k takeWhile_drop_all [of j _ "\<lambda>c. \<not> is_js_space c" t] by auto
  ultimately show "\<exists>k < length t. t ! k = CHR ''('' \<and>
        (\<exists>j < k. regex_boundary t j \<and> (\<forall>m. j \<le> m \<and> m < k \<longrightarrow> \<not> is_js_space (t ! m)))"
    using b k Suc_le_lessD by blast
next
  assume "\<exists>k < length t. t ! k = CHR ''('' \<and>
        (\<exists>j < k. regex_boundary t j \<and> (\<forall>m. j \<le> m \<and> m < k \<longrightarrow> \<not> is_js_space (t ! m)))"
  then obtain k j where k: "k < length t" "t ! k = CHR ''(''" and jk: "j < k" and b: "regex_boundary t j"
    and ns: "\<forall>m. j \<le> m \<and> m < k \<longrightarrow> \<not> is_js_space (t ! m)" by blast
  have "\<forall>m. j \<le> m \<and> m \<le> k \<longrightarrow> \<not> is_js_space (t ! m)"
    using ns k(2) by (auto simp: is_js_space_def le_less)
  then have "k < j + length (takeWhile (\<lambda>c. \<not> is_js_space c) (drop j t))"
    using k(1) jk by (intro takeWhile_drop_long) simp_all
  with jk k(2) have "find (\<lambda>k. t ! k = CHR ''('') (rev [Suc j..<j + length (takeWhile (\<lambda>c. \<not> is_js_space c) (drop j t))]) \<noteq> None"
    by (auto simp: find_None_iff)
  then obtain k' where "find (\<lambda>k. t ! k = CHR ''('') (rev [Suc j..<j + length (takeWhile (\<lambda>c. \<not> is_js_space c) (drop j t))]) = Some k'"
    by blast
  with b have "fnNameMatcher t j \<noteq> None" by (simp add: fnNameMatcher_def Let_def)
  with jk k(1) show "\<exists>j \<le> length t. fnNameMatcher t j \<noteq> None"
    by (intro exI [of _ j]) simp
qed

lemma getValueByPath_Nil [simp]: "getValueByPath config [] = config"
  by (simp add: getValueByPath_def)

lemma getValueByPath_snoc [simp]:
  "getValueByPath config (path @ [k]) = js_optional_get (getValueByPath config path) k"
  by (simp add: getValueByPath_def)

lemma getValueByPath_single [simp]: "getValueByPath config [k] = js_optional_get config k"
  by (simp add: getValueByPath_def)

text \<open>A member the patch does not mention at this path.\<close>

definition untouched :: "jsval \<Rightarrow> string list \<Rightarrow> member \<Rightarrow> bool" where
  "untouched config path m \<longleftrightarrow>
     (case m of PropAssign n e \<Rightarrow> getValueByPath config (path @ [n]) = JUndefined | OtherMember _ \<Rightarrow> True)"

lemma child_visitor_untouched:
  "untouched config path m \<Longrightarrow> child_visitor build path config m s = Inr (r, s') \<Longrightarrow> r = Some m"
  by (cases m) (auto simp: untouched_def Let_def)

lemma updateChildObjectLiteral_Inr:
  assumes "updateChildObjectLiteral build props path config = Inr (ObjLit out)"
  obtains updated pta extras where
    "visit_nodes (child_visitor build path config) props (child_properties_to_add path config)
       = Inr (updated, pta)"
    and "map_throw (\<lambda>(key, value). built_property key (build (last_segment key) value)) pta = Inr extras"
    and "out = updated @ extras"
proof -
  obtain updated pta where
    walk: "visit_nodes (child_visitor build path config) props (child_properties_to_add path config)
             = Inr (updated, pta)"
    using assms by (auto simp: updateChildObjectLiteral_def split: sum.splits)
  show ?thesis
  proof (cases "pta = []")
    case True
    with walk assms show ?thesis by (intro that [of updated pta "[]"]) (auto simp: updateChildObjectLiteral_def)
  next
    case False
    with walk assms show ?thesis
      by (auto simp: updateChildObjectLiteral_def extras_Inr_iff [where f = last_segment and build = build] intro: that)
  qed
qed

lemma join_path_snoc_eq [simp]:
  "join_path (path @ [a]) = join_path (path @ [b]) \<longleftrightarrow> a = b"
  by (simp add: join_path_def join_on_snoc)

lemma last_segment_join_path [simp]:
  "CHR ''.'' \<notin> set k \<Longrightarrow> last_segment (join_path (path @ [k])) = k"
  by (simp add: last_segment_def join_path_def last_split_join)

lemma fold_jsmap_set_fresh:
  assumes "distinct (map f ks)" and "\<forall>k \<in> set ks. f k \<notin> set (map fst m)"
  shows "fold (\<lambda>k m. jsmap_set (f k) (g k) m) ks m = m @ map (\<lambda>k. (f k, g k)) ks"
  using fold_jsmap_set_fresh_if [OF assms, of "\<lambda>_. True" g] by simp

text \<open>With distinct keys, \<open>propertiesToAdd\<close> starts as the base object with joined keys.\<close>

lemma child_properties_to_add_keys:
  assumes "distinct (js_keys (getValueByPath config path))"
  shows "child_properties_to_add path config =
           map (\<lambda>k. (join_path (path @ [k]), js_get (getValueByPath config path) k))
               (js_keys (getValueByPath config path))"
proof -
  have "distinct (map (\<lambda>k. join_path (path @ [k])) (js_keys (getValueByPath config path)))"
    using assms by (simp add: distinct_map inj_on_def)
  then show ?thesis
    unfolding child_properties_to_add_def Let_def
    by (subst fold_jsmap_set_fresh) auto
qed

text \<open>After the walk, \<open>propertiesToAdd\<close> has lost exactly the paths of the visited properties.\<close>

definition visited_paths :: "string list \<Rightarrow> member list \<Rightarrow> string set" where
  "visited_paths path props = (\<lambda>n. join_path (path @ [n])) ` set (member_names props)"

lemma visited_paths_simps [simp]:
  "visited_paths path [] = {}"
  "visited_paths path (PropAssign n e # ms) = insert (join_path (path @ [n])) (visited_paths path ms)"
  "visited_paths path (OtherMember t # ms) = visited_paths path ms"
  by (simp_all add: visited_paths_def)

lemma join_path_in_visited_paths [simp]:
  "join_path (path @ [k]) \<in> visited_paths path props \<longleftrightarrow> k \<in> set (member_names props)"
  by (auto simp: visited_paths_def)

lemma child_visit_state:
  assumes "visit_nodes (child_visitor build path config) props pta = Inr (ys, pta')"
  shows "pta' = filter (\<lambda>kv. fst kv \<notin> visited_paths path props) pta"
  using assms
proof (induction props arbitrary: pta ys)
  case (Cons m ms)
  show ?case
  proof (cases m)
    case (PropAssign n e)
    from Cons.prems obtain ys1 where
      "visit_nodes (child_visitor build path config) ms (jsmap_delete (join_path (path @ [n])) pta)
         = Inr (ys1, pta')"
      by (auto simp: PropAssign Let_def split: if_splits sum.splits prod.splits)
    then have "pta' = filter (\<lambda>kv. fst kv \<notin> visited_paths path ms)
                         (jsmap_delete (join_path (path @ [n])) pta)"
      by (rule Cons.IH)
    then show ?thesis by (simp add: PropAssign jsmap_delete_def filter_filter conj_commute)
  next
    case (OtherMember t)
    with Cons show ?thesis by (auto split: sum.splits prod.splits)
  qed
qed simp

text \<open>The walk when the builder succeeds on every defined value.\<close>

definition child_result :: "(string \<Rightarrow> jsval \<Rightarrow> member) \<Rightarrow> string list \<Rightarrow> jsval \<Rightarrow> member \<Rightarrow> member" where
  "child_result upd path config m =
     (case m of
        PropAssign n e \<Rightarrow>
          if getValueByPath config (path @ [n]) \<noteq> JUndefined
          then upd n (getValueByPath config (path @ [n])) else m
      | OtherMember _ \<Rightarrow> m)"

lemma child_visit_total:
  assumes "\<And>n e. PropAssign n e \<in> set props \<Longrightarrow> getValueByPath config (path @ [n]) \<noteq> JUndefined \<Longrightarrow>
             build n (getValueByPath config (path @ [n])) = Inr (Some (upd n (getValueByPath config (path @ [n]))))"
  shows "visit_nodes (child_visitor build path config) props pta =
           Inr (map (child_result upd path config) props,
                filter (\<lambda>kv. fst kv \<notin> visited_paths path props) pta)"
  using assms
proof (induction props arbitrary: pta)
  case (Cons m ms)
  have IH: "visit_nodes (child_visitor build path config) ms pta' =
              Inr (map (child_result upd path config) ms,
                   filter (\<lambda>kv. fst kv \<notin> visited_paths path ms) pta')" for pta'
  proof (rule Cons.IH)
    fix n e
    assume "PropAssign n e \<in> set ms" and "getValueByPath config (path @ [n]) \<noteq> JUndefined"
    then show "build n (getValueByPath config (path @ [n])) =
                 Inr (Some (upd n (getValueByPath config (path @ [n]))))"
      by (intro Cons.prems) auto
  qed
  show ?case
  proof (cases m)
    case (PropAssign n e)
    with Cons.prems [of n e] show ?thesis
      by (auto simp: IH Let_def child_result_def jsmap_delete_def filter_filter conj_commute)
  next
    case (OtherMember t)
    then show ?thesis by (simp add: IH child_result_def)
  qed
qed simp

lemma updateChildObjectLiteral_from_walk:
  assumes "visit_nodes (child_visitor build path config) props (child_properties_to_add path config)
             = Inr (ys, pta)"
    and "map_throw (\<lambda>(key, value). built_property key (build (last_segment key) value)) pta = Inr extras"
  shows "updateChildObjectLiteral build props path config = Inr (ObjLit (ys @ extras))"
  using assms by (auto simp: updateChildObjectLiteral_def extras_Inr_iff [where f = last_segment and build = build])

text \<open>
  C3. One level below the root, every property the patch does not mention at its path
  (and every member that is not a property assignment) is kept unchanged, in its
  original relative order, whatever the builder and whatever else the patch does.
\<close>

theorem updateChildObjectLiteral_keeps_untouched:
  assumes "updateChildObjectLiteral build props path config = Inr (ObjLit out)"
  shows "subseq (filter (untouched config path) props) out"
proof -
  obtain updated pta extras where
    v: "visit_nodes (child_visitor build path config) props (child_properties_to_add path config)
          = Inr (updated, pta)"
    and "map_throw (\<lambda>(key, value). built_property key (build (last_segment key) value)) pta
           = Inr extras"
    and out: "out = updated @ extras"
    by (rule updateChildObjectLiteral_Inr [OF assms])
  have "subseq (filter (untouched config path) props) updated"
  proof (rule visit_nodes_subseq [OF v])
    fix x s r s'
    assume "untouched config path x" and "child_visitor build path config x s = Inr (r, s')"
    then show "r = Some x" by (rule child_visitor_untouched)
  qed
  then show ?thesis by (simp add: out subseq_rev_drop_many)
qed

theorem updateChildObjectLiteral_keeps_untouched_witness:
  "updateChildObjectLiteral updatePropertyAssignment
      [PropAssign ''video'' TrueLit, PropAssign ''fixturesFolder'' (StrLit ''cypress/fixtures'')]
      [''component''] (JObj [(''component'', JObj [(''fixturesFolder'', JStr ''cool'')])])
     = Inr (ObjLit [PropAssign ''video'' TrueLit, PropAssign ''fixturesFolder'' (StrLit ''cool'')])
   \<and> subseq [PropAssign ''video'' TrueLit]
       [PropAssign ''video'' TrueLit, PropAssign ''fixturesFolder'' (StrLit ''cool'')]"
proof -
  have h: "updateChildObjectLiteral updatePropertyAssignment
      [PropAssign ''video'' TrueLit, PropAssign ''fixturesFolder'' (StrLit ''cypress/fixtures'')]
      [''component''] (JObj [(''component'', JObj [(''fixturesFolder'', JStr ''cool'')])])
     = Inr (ObjLit [PropAssign ''video'' TrueLit, PropAssign ''fixturesFolder'' (StrLit ''cool'')])"
    by (simp add: transformers_eval)
  have "subseq (filter (untouched (JObj [(''component'', JObj [(''fixturesFolder'', JStr ''cool'')])])
                 [''component''])
           [PropAssign ''video'' TrueLit, PropAssign ''fixturesFolder'' (StrLit ''cypress/fixtures'')])
         [PropAssign ''video'' TrueLit, PropAssign ''fixturesFolder'' (StrLit ''cool'')]"
    by (rule updateChildObjectLiteral_keeps_untouched [OF h])
  with h show ?thesis by (simp add: untouched_def)
qed


section \<open>The builder\<close>

lemma updatePropertyAssignment_name:
  "updatePropertyAssignment n v = Inr (Some m) \<Longrightarrow> member_name m = Some n"
  by (cases v) (auto simp: updatePropertyAssignment_def createExpressionFromFunction_def split: if_splits match_result.splits)

lemma updatePropertyAssignment_function:
  "\<exists>msg. updatePropertyAssignment n (JFun src) = Inl (TypeError msg)"
  by (simp add: updatePropertyAssignment_def createExpressionFromFunction_def split: match_result.splits)

lemma built_names:
  assumes "map_throw (\<lambda>(key, value). built_property key (updatePropertyAssignment (f key) value)) pm
             = Inr added"
  shows "member_names added = map (f \<circ> fst) pm"
proof -
  have "map member_name added = map (Some \<circ> (f \<circ> fst)) pm"
    using assms
    by (rule map_throw_Inr_map)
       (auto simp: built_property_def split: sum.splits option.splits dest: updatePropertyAssignment_name)
  then show ?thesis by (intro member_names_all_named) simp
qed

section \<open>The child walk on an absent base\<close>

lemma child_visitor_undefined_base:
  "getValueByPath config path = JUndefined \<Longrightarrow> child_visitor build path config m [] = Inr (Some m, [])"
  by (cases m) (simp_all add: Let_def jsmap_delete_Nil)

lemma updateChildObjectLiteral_undefined_base:
  assumes "getValueByPath config path = JUndefined"
  shows "updateChildObjectLiteral build props path config = Inr (ObjLit props)"
proof -
  have start: "child_properties_to_add path config = []"
    by (simp add: child_properties_to_add_def assms)
  have "visit_nodes (child_visitor build path config) props [] = Inr (props, [])"
    by (rule visit_nodes_id) (simp add: child_visitor_undefined_base [OF assms])
  then show ?thesis by (simp add: updateChildObjectLiteral_def start)
qed

section \<open>The root walk\<close>

text \<open>The tail of the root visitor, after the walk, when there is something to add.\<close>

lemma root_extras_Inr_iff:
  "(case map_throw (\<lambda>(key, value). build key value) pm of
      Inl err \<Rightarrow> Inl err
    | Inr rs \<Rightarrow>
        (case updatedConfig of
           Some (ObjLit props') \<Rightarrow>
             (case node_array ''properties'' rs of
                Inl err \<Rightarrow> Inl err
              | Inr added \<Rightarrow> Inr (Some (ObjLit (added @ props'))))
         | Some _ \<Rightarrow> Inl (TypeError ''updatedConfig.properties is not iterable'')
         | None \<Rightarrow> Inl (TypeError ''Cannot read properties of undefined (reading properties)''))) = Inr r
   \<longleftrightarrow> (\<exists>props' added. updatedConfig = Some (ObjLit props')
          \<and> map_throw (\<lambda>(key, value). built_property key (build key value)) pm = Inr added
          \<and> r = Some (ObjLit (added @ props')))"
proof (cases updatedConfig)
  case (Some e)
  show ?thesis
  proof (cases "\<exists>props'. e = ObjLit props'")
    case True
    then obtain props' where "e = ObjLit props'" by blast
    with Some show ?thesis
      using extras_Inr_iff [where f = "\<lambda>k. k" and build = build and pm = pm and k = "''properties''"
                              and g = "\<lambda>added. Some (ObjLit (added @ props'))" and y = r]
      by (simp cong: sum.case_cong)
  next
    case False
    with Some show ?thesis by (cases e) (simp_all split: sum.split)
  qed
qed (simp split: sum.split)

text \<open>On a root that is not an object literal the walk changes nothing.\<close>

lemma visitRootConfigNode_other:
  assumes "\<forall>props. root \<noteq> Some (ObjLit props)"
  shows "visitRootConfigNode updateChild build root newConfig =
           (if root_property_map newConfig = [] then Inr root
            else (case map_throw (\<lambda>(key, value). build key value) (root_property_map newConfig) of
                    Inl err \<Rightarrow> Inl err
                  | Inr rs \<Rightarrow>
                      (case root of
                         Some (ObjLit props') \<Rightarrow>
                           (case node_array ''properties'' rs of
                              Inl err \<Rightarrow> Inl err
                            | Inr added \<Rightarrow> Inr (Some (ObjLit (added @ props'))))
                       | Some _ \<Rightarrow> Inl (TypeError ''updatedConfig.properties is not iterable'')
                       | None \<Rightarrow> Inl (TypeError ''Cannot read properties of undefined (reading properties)''))))"
proof (cases root)
  case (Some e)
  with assms show ?thesis by (cases e) (simp_all add: visitRootConfigNode_def cong: sum.case_cong)
qed (simp add: visitRootConfigNode_def cong: sum.case_cong)

text \<open>The two ways a root walk succeeds.\<close>

lemma visitRootConfigNode_Inr_cases:
  assumes "visitRootConfigNode updateChild build root newConfig = Inr root'"
  obtains (obj) props props' pm' added where "root = Some (ObjLit props)"
    and "visit_nodes (updateAssignments updateChild build newConfig) props (root_property_map newConfig)
           = Inr (props', pm')"
    and "map_throw (\<lambda>(key, value). built_property key (build key value)) pm' = Inr added"
    and "root' = Some (ObjLit (added @ props'))"
  | (other) "\<forall>props. root \<noteq> Some (ObjLit props)" and "root_property_map newConfig = []" and "root' = root"
proof (cases "\<exists>props. root = Some (ObjLit props)")
  case True
  then obtain props where root: "root = Some (ObjLit props)" by blast
  show ?thesis
  proof (cases "visit_nodes (updateAssignments updateChild build newConfig) props (root_property_map newConfig)")
    case (Inl err)
    with assms root show ?thesis by (simp add: visitRootConfigNode_def)
  next
    case (Inr p)
    obtain props' pm' where p: "p = (props', pm')" by (cases p)
    show ?thesis
    proof (cases "pm' = []")
      case True
      with assms root Inr p have "root' = Some (ObjLit ([] @ props'))" by (simp add: visitRootConfigNode_def)
      with root Inr p True show ?thesis by (intro obj [of props props' pm' "[]"]) simp_all
    next
      case False
      with assms root Inr p obtain added where
        "map_throw (\<lambda>(key, value). built_property key (build key value)) pm' = Inr added"
        and "root' = Some (ObjLit (added @ props'))"
        by (auto simp: visitRootConfigNode_def root_extras_Inr_iff)
      with root Inr p show ?thesis by (intro obj [of props props' pm' added]) simp_all
    qed
  qed
next
  case False
  then have root: "\<forall>props. root \<noteq> Some (ObjLit props)" by blast
  show ?thesis
  proof (cases "root_property_map newConfig = []")
    case True
    with assms root show ?thesis by (intro other) (simp_all add: visitRootConfigNode_other)
  next
    case nonempty: False
    with assms root show ?thesis by (auto simp: visitRootConfigNode_other root_extras_Inr_iff)
  qed
qed

lemma visitRootConfigNode_ObjLit_Inr:
  assumes "visitRootConfigNode updateChild build (Some (ObjLit props)) newConfig = Inr (Some (ObjLit out))"
  obtains props' pm' added where
    "visit_nodes (updateAssignments updateChild build newConfig) props (root_property_map newConfig)
       = Inr (props', pm')"
    and "map_throw (\<lambda>(key, value). built_property key (build key value)) pm' = Inr added"
    and "out = added @ props'"
  using assms
proof (cases rule: visitRootConfigNode_Inr_cases)
  case (obj props1 props' pm' added)
  with that show ?thesis by simp
qed simp

lemma visitRootConfigNode_from_walk:
  assumes "visit_nodes (updateAssignments updateChild build newConfig) props (root_property_map newConfig)
             = Inr (props', pm')"
    and "map_throw (\<lambda>(key, value). built_property key (build key value)) pm' = Inr added"
  shows "visitRootConfigNode updateChild build (Some (ObjLit props)) newConfig = Inr (Some (ObjLit (added @ props')))"
  using assms by (auto simp: visitRootConfigNode_def root_extras_Inr_iff)

lemma root_property_map_mem:
  assumes "map_of kvs n = Some v" and "js_typeof v \<noteq> TObject"
  shows "(n, v) \<in> set (root_property_map (JObj kvs))"
proof -
  have "js_get (JObj kvs) n = v" using assms(1) by simp
  moreover have "n \<in> set (js_keys (JObj kvs))"
    using assms(1) by (force dest: map_of_SomeD)
  ultimately show ?thesis
    using fold_jsmap_set_mem [of n "js_get (JObj kvs)" "[]" "js_keys (JObj kvs)"
                                 "\<lambda>k. js_typeof (js_get (JObj kvs) k) \<noteq> TObject"] assms(2)
    by (simp add: root_property_map_def)
qed

lemma root_property_map_JObj:
  assumes "distinct (map fst kvs)"
  shows "root_property_map (JObj kvs) = filter (\<lambda>kv. js_typeof (snd kv) \<noteq> TObject) kvs"
proof -
  have get: "js_get (JObj kvs) (fst kv) = snd kv" if "kv \<in> set kvs" for kv
    using assms that by (cases kv) (simp add: map_of_is_SomeI)
  have "root_property_map (JObj kvs) =
          [] @ map (\<lambda>k. (k, js_get (JObj kvs) k))
                 (filter (\<lambda>k. js_typeof (js_get (JObj kvs) k) \<noteq> TObject) (map fst kvs))"
    unfolding root_property_map_def js_keys.simps
    by (rule fold_jsmap_set_fresh_if) (use assms in auto)
  then show ?thesis
    using map_keys_filter [of kvs "js_get (JObj kvs)" "\<lambda>v. js_typeof v \<noteq> TObject"] get by simp
qed

text \<open>The walk deletes a key from \<open>propertyMap\<close> only when its patch value is truthy.\<close>

lemma root_visit_keeps_falsy:
  assumes "visit_nodes (updateAssignments updateChild build newConfig) props pm = Inr (props', pm')"
    and "kv \<in> set pm" and "\<not> js_truthy (getValueByPath newConfig [fst kv])"
  shows "kv \<in> set pm'"
  using assms
proof (induction props arbitrary: pm props')
  case (Cons m ms)
  from Cons.prems(1) obtain r pm1 ys where
    step: "updateAssignments updateChild build newConfig m pm = Inr (r, pm1)"
    and rest: "visit_nodes (updateAssignments updateChild build newConfig) ms pm1 = Inr (ys, pm')"
    by (auto split: sum.splits prod.splits)
  have "kv \<in> set pm1"
  proof (cases m)
    case (PropAssign n e)
    with step Cons.prems(2,3) show ?thesis
      by (cases e) (auto simp: Let_def jsmap_delete_def split: sum.splits if_splits)
  next
    case (OtherMember t)
    with step Cons.prems(2) show ?thesis by simp
  qed
  then show ?case using Cons.IH [OF rest] Cons.prems(3) by blast
qed simp

lemma updateAssignments_literal_falsy:
  assumes "is_literal_initializer e" and "\<not> js_truthy (getValueByPath newConfig [n])"
    and "updateAssignments updateChild build newConfig (PropAssign n e) s = Inr (r, s')"
  shows "r = Some (PropAssign n e)"
  using assms by (cases e) (auto simp: is_literal_initializer_def Let_def)

text \<open>
  C6. At the root a patch value that is falsy (here \<open>false\<close>) does not replace a
  literal-valued property: the property is kept and a second property of the same name
  with the new value is put in front, so the result has a duplicate key.
\<close>

theorem visitRootConfigNode_falsy_duplicate:
  assumes out: "visitRootConfigNode updateChild updatePropertyAssignment (Some (ObjLit props)) (JObj kvs)
                  = Inr (Some (ObjLit out))"
    and mem: "PropAssign n e \<in> set props" and lit: "is_literal_initializer e"
    and val: "map_of kvs n = Some (JBool False)"
  shows "PropAssign n e \<in> set out \<and> PropAssign n FalseLit \<in> set out
         \<and> 2 \<le> count_list (member_names out) n"
proof -
  obtain props' pm' added where
    walk: "visit_nodes (updateAssignments updateChild updatePropertyAssignment (JObj kvs)) props
             (root_property_map (JObj kvs)) = Inr (props', pm')"
    and extra: "map_throw (\<lambda>(key, value). built_property key (updatePropertyAssignment key value)) pm'
                  = Inr added"
    and shape: "out = added @ props'"
    by (rule visitRootConfigNode_ObjLit_Inr [OF out])
  have falsy: "\<not> js_truthy (getValueByPath (JObj kvs) [n])" using val by simp
  have kept: "PropAssign n e \<in> set props'"
    using visit_nodes_keeps [OF walk mem] updateAssignments_literal_falsy [OF lit falsy] by blast
  have "(n, JBool False) \<in> set pm'"
    using root_visit_keeps_falsy [OF walk root_property_map_mem [OF val]] falsy by simp
  from map_throw_Inr_elem [OF extra this]
  have "\<exists>y \<in> set added. built_property n (updatePropertyAssignment n (JBool False)) = Inr y"
    by simp
  then obtain y where "y \<in> set added"
    and "built_property n (updatePropertyAssignment n (JBool False)) = Inr y"
    by blast
  then have added: "PropAssign n FalseLit \<in> set added"
    by (simp add: built_property_def updatePropertyAssignment_def)
  have "1 \<le> count_list (member_names added) n" "1 \<le> count_list (member_names props') n"
    by (rule count_list_pos, rule member_names_mem, fact)+
  then show ?thesis using kept added shape by simp
qed

theorem visitRootConfigNode_falsy_duplicate_witness:
  "visitRootConfigNode (\<lambda>name props. updateChildObjectLiteral updatePropertyAssignment props [name]
       (JObj [(''video'', JBool False)])) updatePropertyAssignment
     (Some (ObjLit [PropAssign ''video'' TrueLit])) (JObj [(''video'', JBool False)])
     = Inr (Some (ObjLit [PropAssign ''video'' FalseLit, PropAssign ''video'' TrueLit]))
   \<and> 2 \<le> count_list (member_names [PropAssign ''video'' FalseLit, PropAssign ''video'' TrueLit]) ''video''"
proof -
  have h: "visitRootConfigNode (\<lambda>name props. updateChildObjectLiteral updatePropertyAssignment props [name]
       (JObj [(''video'', JBool False)])) updatePropertyAssignment
     (Some (ObjLit [PropAssign ''video'' TrueLit])) (JObj [(''video'', JBool False)])
     = Inr (Some (ObjLit [PropAssign ''video'' FalseLit, PropAssign ''video'' TrueLit]))"
    by (simp add: transformers_eval)
  show ?thesis
    using visitRootConfigNode_falsy_duplicate [OF h, of "''video''" TrueLit]
    by (simp add: h is_literal_initializer_def)
qed


section \<open>Names after the child walk\<close>

lemma child_visitor_name:
  assumes "child_visitor updatePropertyAssignment path config x s = Inr (Some y, s')"
  shows "member_name y = member_name x"
  using assms
  by (cases x) (auto simp: Let_def split: if_splits sum.splits dest: updatePropertyAssignment_name)

lemma extras_names_keys:
  "\<forall>k \<in> set ks. CHR ''.'' \<notin> set k \<Longrightarrow>
     map (last_segment \<circ> fst)
       (filter (\<lambda>kv. fst kv \<notin> visited_paths path props) (map (\<lambda>k. (join_path (path @ [k]), g k)) ks))
     = filter (\<lambda>k. k \<notin> set (member_names props)) ks"
  by (induction ks) auto

text \<open>The appended properties are named by the base keys no existing property has.\<close>

lemma child_extras_names:
  assumes walk: "visit_nodes (child_visitor updatePropertyAssignment path config) props
                   (child_properties_to_add path config) = Inr (updated, pta)"
    and extra: "map_throw (\<lambda>(key, value). built_property key
                  (updatePropertyAssignment (last_segment key) value)) pta = Inr extras"
    and wf: "js_wf (getValueByPath config path)"
    and nodot: "\<forall>k \<in> set (js_keys (getValueByPath config path)). CHR ''.'' \<notin> set k"
  shows "member_names extras =
           filter (\<lambda>k. k \<notin> set (member_names props)) (js_keys (getValueByPath config path))"
proof -
  have "member_names extras = map (last_segment \<circ> fst) pta"
    by (rule built_names [OF extra])
  also have "pta = filter (\<lambda>kv. fst kv \<notin> visited_paths path props) (child_properties_to_add path config)"
    by (rule child_visit_state [OF walk])
  finally show ?thesis
    using child_properties_to_add_keys [OF js_keys_wf [OF wf]]
          extras_names_keys [OF nodot, of path props "js_get (getValueByPath config path)", unfolded comp_def]
    by simp
qed

text \<open>
  C9. Below the root, when the existing object has distinct property names and the patch
  object is well formed with keys free of dots, the result again has distinct property
  names: the walk never duplicates a key.
\<close>

theorem updateChildObjectLiteral_distinct_names:
  assumes out: "updateChildObjectLiteral updatePropertyAssignment props path config = Inr (ObjLit out)"
    and dprops: "distinct (member_names props)"
    and wf: "js_wf (getValueByPath config path)"
    and nodot: "\<forall>k \<in> set (js_keys (getValueByPath config path)). CHR ''.'' \<notin> set k"
  shows "distinct (member_names out)"
proof -
  obtain updated pta extras where
    walk: "visit_nodes (child_visitor updatePropertyAssignment path config) props
             (child_properties_to_add path config) = Inr (updated, pta)"
    and extra: "map_throw (\<lambda>(key, value). built_property key
                  (updatePropertyAssignment (last_segment key) value)) pta = Inr extras"
    and shape: "out = updated @ extras"
    by (rule updateChildObjectLiteral_Inr [OF out])
  have sub: "subseq (member_names updated) (member_names props)"
    using visit_nodes_names_subseq [OF walk] child_visitor_name by blast
  have names: "member_names extras =
                 filter (\<lambda>k. k \<notin> set (member_names props)) (js_keys (getValueByPath config path))"
    by (rule child_extras_names [OF walk extra wf nodot])
  have "set (member_names updated) \<subseteq> set (member_names props)"
    using list_emb_set [OF sub] by auto
  moreover have "distinct (member_names updated)" by (rule subseq_distinct [OF sub dprops])
  moreover have "distinct (member_names extras)" using names js_keys_wf [OF wf] by simp
  ultimately show ?thesis using names shape by auto
qed

theorem updateChildObjectLiteral_distinct_names_witness:
  "updateChildObjectLiteral updatePropertyAssignment
      [PropAssign ''video'' TrueLit, PropAssign ''fixturesFolder'' (StrLit ''cypress/fixtures'')]
      [''component''] (JObj [(''component'', JObj [(''video'', JBool False), (''blah'', JStr ''x'')])])
     = Inr (ObjLit [PropAssign ''video'' FalseLit,
                    PropAssign ''fixturesFolder'' (StrLit ''cypress/fixtures''),
                    PropAssign ''blah'' (StrLit ''x'')])
   \<and> distinct (member_names [PropAssign ''video'' FalseLit,
                    PropAssign ''fixturesFolder'' (StrLit ''cypress/fixtures''),
                    PropAssign ''blah'' (StrLit ''x'')])"
proof -
  have h: "updateChildObjectLiteral updatePropertyAssignment
      [PropAssign ''video'' TrueLit, PropAssign ''fixturesFolder'' (StrLit ''cypress/fixtures'')]
      [''component''] (JObj [(''component'', JObj [(''video'', JBool False), (''blah'', JStr ''x'')])])
     = Inr (ObjLit [PropAssign ''video'' FalseLit,
                    PropAssign ''fixturesFolder'' (StrLit ''cypress/fixtures''),
                    PropAssign ''blah'' (StrLit ''x'')])"
    by (simp add: transformers_eval)
  show ?thesis
    using updateChildObjectLiteral_distinct_names [OF h] h by simp
qed

text \<open>
  C14. Below the root, a patch entry whose value is an object does not merge into the
  existing property of that name (spec.md 4.2 asks for a recursive merge): the builder
  has no case for objects, so the property disappears from the result.
\<close>

theorem updateChildObjectLiteral_object_value_erases:
  assumes out: "updateChildObjectLiteral updatePropertyAssignment props path config = Inr (ObjLit out)"
    and mem: "PropAssign n e \<in> set props"
    and obj: "getValueByPath config (path @ [n]) = JObj sub"
    and wf: "js_wf (getValueByPath config path)"
    and nodot: "\<forall>k \<in> set (js_keys (getValueByPath config path)). CHR ''.'' \<notin> set k"
  shows "n \<notin> set (member_names out)"
proof -
  obtain updated pta extras where
    walk: "visit_nodes (child_visitor updatePropertyAssignment path config) props
             (child_properties_to_add path config) = Inr (updated, pta)"
    and extra: "map_throw (\<lambda>(key, value). built_property key
                  (updatePropertyAssignment (last_segment key) value)) pta = Inr extras"
    and shape: "out = updated @ extras"
    by (rule updateChildObjectLiteral_Inr [OF out])
  have "n \<notin> set (member_names extras)"
    using child_extras_names [OF walk extra wf nodot] member_names_mem [OF mem] by simp
  moreover have "n \<notin> set (member_names updated)"
  proof
    assume "n \<in> set (member_names updated)"
    then obtain y where y: "y \<in> set updated" "member_name y = Some n"
      by (auto simp: member_names_def List.map_filter_def)
    then obtain x s1 s2 where x: "x \<in> set props"
      and step: "child_visitor updatePropertyAssignment path config x s1 = Inr (Some y, s2)"
      using visit_nodes_results [OF walk] by blast
    from step y(2) obtain e' where "x = PropAssign n e'"
      using child_visitor_name by (cases x) fastforce+
    with step obj show False
      by (simp add: Let_def updatePropertyAssignment_def split: sum.splits)
  qed
  ultimately show ?thesis using shape by simp
qed

theorem updateChildObjectLiteral_object_value_erases_witness:
  "updateChildObjectLiteral updatePropertyAssignment
      [PropAssign ''retries'' (NumLit ''2''), PropAssign ''video'' TrueLit]
      [''e2e''] (JObj [(''e2e'', JObj [(''retries'', JObj [(''runMode'', JNum 1)])])])
     = Inr (ObjLit [PropAssign ''video'' TrueLit])
   \<and> ''retries'' \<notin> set (member_names [PropAssign ''video'' TrueLit])"
proof -
  have h: "updateChildObjectLiteral updatePropertyAssignment
      [PropAssign ''retries'' (NumLit ''2''), PropAssign ''video'' TrueLit]
      [''e2e''] (JObj [(''e2e'', JObj [(''retries'', JObj [(''runMode'', JNum 1)])])])
     = Inr (ObjLit [PropAssign ''video'' TrueLit])"
    by (simp add: transformers_eval)
  show ?thesis
    using updateChildObjectLiteral_object_value_erases [OF h, of "''retries''" "NumLit ''2''"] h
    by simp
qed

lemma updatePropertyAssignment_error:
  "updatePropertyAssignment n v = Inl err \<Longrightarrow> \<exists>msg. err = TypeError msg"
  by (cases v) (auto simp: updatePropertyAssignment_def createExpressionFromFunction_def split: if_splits match_result.splits)

lemma child_visitor_error:
  "child_visitor updatePropertyAssignment path config x s = Inl err \<Longrightarrow> \<exists>msg. err = TypeError msg"
  by (cases x) (auto simp: Let_def split: if_splits sum.splits dest: updatePropertyAssignment_error)

text \<open>
  C15. A patch value that is a function (the opaque call markers of spec.md 4.3) for an
  existing property makes the whole child walk throw a TypeError: no call expression is
  ever built from a function.
\<close>

theorem updateChildObjectLiteral_function_throws:
  assumes mem: "PropAssign n e \<in> set props"
    and fn: "getValueByPath config (path @ [n]) = JFun src"
  shows "\<exists>msg. updateChildObjectLiteral updatePropertyAssignment props path config = Inl (TypeError msg)"
proof -
  have v: "js_optional_get (getValueByPath config path) n = JFun src" using fn by simp
  have step: "\<exists>err. child_visitor updatePropertyAssignment path config (PropAssign n e) s = Inl err" for s
    using updatePropertyAssignment_function [of n src] by (auto simp: v Let_def)
  have "\<exists>err. visit_nodes (child_visitor updatePropertyAssignment path config) props
                (child_properties_to_add path config) = Inl err"
    by (rule visit_nodes_Inl [OF mem]) (rule step)
  then obtain err where walk: "visit_nodes (child_visitor updatePropertyAssignment path config) props
                                 (child_properties_to_add path config) = Inl err"
    by (rule exE)
  from visit_nodes_Inl_from [OF walk] obtain x s' where
    "child_visitor updatePropertyAssignment path config x s' = Inl err"
    by blast
  then obtain msg where "err = TypeError msg"
    by (blast dest: child_visitor_error)
  with walk show ?thesis by (auto simp: updateChildObjectLiteral_def)
qed

theorem updateChildObjectLiteral_function_throws_witness:
  "\<exists>msg. updateChildObjectLiteral updatePropertyAssignment
      [PropAssign ''devServer'' (CallE (Ident ''componentDevServer'')
                                  [StrLit ''tsconfig.cy.json'', StrLit ''babel'']),
       PropAssign ''video'' TrueLit]
      [''component'']
      (JObj [(''component'', JObj [(''devServer'', JFun ''function devServer(options) { }'')])])
   = Inl (TypeError msg)"
  by (rule updateChildObjectLiteral_function_throws [of "''devServer''"]) (simp_all add: getValueByPath_def)

section \<open>A string patch value for an object property\<close>

lemma updateChildObjectLiteral_string_base:
  assumes base: "getValueByPath config path = JStr s"
    and names: "\<forall>k \<in> set (member_names ps). js_get (JStr s) k = JUndefined"
  shows "updateChildObjectLiteral updatePropertyAssignment ps path config =
           Inr (ObjLit (ps @ map (\<lambda>i. PropAssign (dec_of_nat i) (StrLit [s ! i])) [0..<length s]))"
proof -
  have undef: "getValueByPath config (path @ [n]) = JUndefined" if "PropAssign n e \<in> set ps" for n e
  proof -
    from that have "n \<in> set (member_names ps)" by (rule member_names_mem)
    with names have "js_get (JStr s) n = JUndefined" by blast
    with base show ?thesis by (simp del: js_get.simps)
  qed
  have walk: "visit_nodes (child_visitor updatePropertyAssignment path config) ps pta =
                Inr (map (child_result (\<lambda>n v. OtherMember n) path config) ps,
                     filter (\<lambda>kv. fst kv \<notin> visited_paths path ps) pta)" for pta
    by (rule child_visit_total) (drule undef, simp)
  have same: "map (child_result (\<lambda>n v. OtherMember n) path config) ps = ps"
  proof (rule map_idI)
    fix m assume m: "m \<in> set ps"
    show "child_result (\<lambda>n v. OtherMember n) path config m = m"
    proof (cases m)
      case (PropAssign n e)
      with m have "getValueByPath config (path @ [n]) = JUndefined" by (intro undef) simp
      with PropAssign show ?thesis by (simp add: child_result_def del: getValueByPath_snoc)
    qed (simp add: child_result_def)
  qed
  have keys: "child_properties_to_add path config =
                map (\<lambda>k. (join_path (path @ [k]), js_get (JStr s) k)) (map dec_of_nat [0..<length s])"
    using child_properties_to_add_keys [of config path] js_keys_wf [of "JStr s"] base by simp
  have fresh: "dec_of_nat i \<notin> set (member_names ps)" if "i < length s" for i
    using names js_get_JStr_index [OF that] by auto
  have left: "filter (\<lambda>kv. fst kv \<notin> visited_paths path ps) (child_properties_to_add path config) =
                map (\<lambda>i. (join_path (path @ [dec_of_nat i]), JStr [s ! i])) [0..<length s]"
    by (auto simp: keys fresh js_get_JStr_index filter_map comp_def simp del: js_get.simps intro!: map_cong filter_True)
  have extras: "map_throw (\<lambda>(key, value). built_property key (updatePropertyAssignment (last_segment key) value))
                  (map (\<lambda>i. (join_path (path @ [dec_of_nat i]), JStr [s ! i])) [0..<length s])
                = Inr (map (\<lambda>i. PropAssign (dec_of_nat i) (StrLit [s ! i])) [0..<length s])"
  proof (rule map_throw_map_comp)
    fix i
    have "CHR ''.'' \<notin> set (dec_of_nat i)" using dec_of_nat_digits [of i] digit_not_dot by blast
    then show "(\<lambda>(key, value). built_property key (updatePropertyAssignment (last_segment key) value))
                 (join_path (path @ [dec_of_nat i]), JStr [s ! i]) = Inr (PropAssign (dec_of_nat i) (StrLit [s ! i]))"
      by (simp add: built_property_def updatePropertyAssignment_def)
  qed
  show ?thesis
    using updateChildObjectLiteral_from_walk [OF walk [of "child_properties_to_add path config", unfolded same left] extras] .
qed

text \<open>
  C18. A string patch value for a root property whose value is an object literal is
  spread into that object: \<open>for...in\<close> over the string enumerates its indices, so
  every character becomes a new property named by its index, and since the root only
  deletes keys in its literal branch, the string is also put in front as a second
  property of the same name.
\<close>

theorem merge_root_string_into_object:
  assumes "\<forall>k \<in> set (member_names ps). js_get (JStr s) k = JUndefined"
  shows "merge_root (JObj [(n, JStr s)]) (Some (ObjLit [PropAssign n (ObjLit ps)])) =
           Inr (Some (ObjLit [PropAssign n (StrLit s),
                        PropAssign n (ObjLit (ps @ map (\<lambda>i. PropAssign (dec_of_nat i) (StrLit [s ! i])) [0..<length s]))]))"
proof -
  have child: "updateChildObjectLiteral updatePropertyAssignment ps [n] (JObj [(n, JStr s)]) =
                 Inr (ObjLit (ps @ map (\<lambda>i. PropAssign (dec_of_nat i) (StrLit [s ! i])) [0..<length s]))"
    by (rule updateChildObjectLiteral_string_base [OF _ assms]) simp
  have pm: "root_property_map (JObj [(n, JStr s)]) = [(n, JStr s)]"
    by (simp add: root_property_map_def jsmap_set_def)
  show ?thesis
    by (simp add: merge_root_def visitRootConfigNode_def pm child node_array_def updatePropertyAssignment_def)
qed

theorem merge_root_string_into_object_witness:
  "merge_root (JObj [(''component'', JStr ''ab'')])
      (Some (ObjLit [PropAssign ''component'' (ObjLit [PropAssign ''video'' TrueLit])]))
     = Inr (Some (ObjLit [PropAssign ''component'' (StrLit ''ab''),
                    PropAssign ''component'' (ObjLit [PropAssign ''video'' TrueLit,
                                                     PropAssign ''0'' (StrLit ''a''),
                                                     PropAssign ''1'' (StrLit ''b'')])]))"
  using merge_root_string_into_object [of "[PropAssign ''video'' TrueLit]" "''ab''" "''component''"]
  by (simp add: transformers_eval upt_rec)

section \<open>The shape of a configuration object\<close>

text \<open>
  A configuration object as the code expects one: an object literal whose properties
  have a literal, a call or again such an object as their value (other members, such as
  spreads, are allowed and left alone).
\<close>

fun config_expr :: "expr \<Rightarrow> bool" and config_member :: "member \<Rightarrow> bool" where
  "config_expr (ObjLit ms) = list_all config_member ms"
| "config_expr e = is_literal_initializer e"
| "config_member (PropAssign n e) = config_expr e"
| "config_member (OtherMember t) = True"

lemma updatePropertyAssignment_shape:
  "updatePropertyAssignment n v = Inr (Some m) \<Longrightarrow> config_member m"
  by (cases v)
     (auto simp: updatePropertyAssignment_def createExpressionFromFunction_def is_literal_initializer_def
           split: if_splits match_result.splits)

lemma extras_shape:
  assumes "map_throw (\<lambda>(key, value). built_property key (updatePropertyAssignment (f key) value)) pm = Inr added"
  shows "list_all config_member added"
  unfolding list_all_iff
proof
  fix m assume "m \<in> set added"
  then obtain kv where "(\<lambda>(key, value). built_property key (updatePropertyAssignment (f key) value)) kv = Inr m"
    using map_throw_Inr_results [OF assms] by blast
  then show "config_member m"
    by (cases kv)
       (auto simp: built_property_def split: sum.splits option.splits dest: updatePropertyAssignment_shape)
qed

lemma updateChildObjectLiteral_shape:
  assumes out: "updateChildObjectLiteral updatePropertyAssignment ps path config = Inr e"
    and shape: "list_all config_member ps"
  shows "config_expr e"
proof -
  obtain ms where e: "e = ObjLit ms"
    using out by (auto simp: updateChildObjectLiteral_def node_array_def split: sum.splits if_splits)
  obtain updated pta extras where
    walk: "visit_nodes (child_visitor updatePropertyAssignment path config) ps
             (child_properties_to_add path config) = Inr (updated, pta)"
    and extra: "map_throw (\<lambda>(key, value). built_property key
                  (updatePropertyAssignment (last_segment key) value)) pta = Inr extras"
    and ms: "ms = updated @ extras"
    by (rule updateChildObjectLiteral_Inr [OF out [unfolded e]])
  have "list_all config_member updated"
  proof (rule visit_nodes_preserves [OF walk shape])
    fix x s1 y s2
    assume "child_visitor updatePropertyAssignment path config x s1 = Inr (Some y, s2)" and "config_member x"
    then show "config_member y"
      by (cases x) (auto simp: Let_def split: if_splits sum.splits dest: updatePropertyAssignment_shape)
  qed
  with extras_shape [OF extra] show ?thesis by (simp add: e ms)
qed

lemma updateAssignments_shape:
  assumes "updateAssignments (\<lambda>name props. updateChildObjectLiteral updatePropertyAssignment props [name] newConfig)
             updatePropertyAssignment newConfig x s = Inr (Some y, s')"
    and "config_member x"
  shows "config_member y"
proof (cases x)
  case (PropAssign n e)
  with assms show ?thesis
    by (cases e)
       (auto simp: Let_def split: if_splits sum.splits
             dest: updatePropertyAssignment_shape updateChildObjectLiteral_shape)
qed (use assms in simp)

text \<open>
  C21. The merge of transformers.ts keeps the shape of a configuration object: when the
  root argument is an object literal whose properties all have a literal, a call or a
  nested such object as value, so has the merged root. Every property the merge builds
  has a number, string or boolean literal as value.
\<close>

theorem merge_root_config_shape:
  assumes "merge_root newConfig (Some r) = Inr (Some r')" and "config_expr r"
  shows "config_expr r'"
  using assms(1) unfolding merge_root_def
proof (cases rule: visitRootConfigNode_Inr_cases)
  case (obj props props' pm' added)
  have "list_all config_member props" using assms(2) obj(1) by simp
  then have "list_all config_member props'"
    by (rule visit_nodes_preserves [OF obj(2)]) (rule updateAssignments_shape)
  with extras_shape [where f = "\<lambda>k. k", OF obj(3)] obj(4) show ?thesis by simp
next
  case other
  with assms(2) show ?thesis by simp
qed

theorem merge_root_config_shape_witness:
  "merge_root (JObj [(''e2e'', JObj [(''video'', JBool False)]), (''retries'', JNum 2)])
      (Some (ObjLit [PropAssign ''e2e'' (ObjLit [PropAssign ''video'' TrueLit]),
                     PropAssign ''baseUrl'' (StrLit ''http://localhost:4200'')]))
     = Inr (Some (ObjLit [PropAssign ''retries'' (NumLit ''2''),
                          PropAssign ''e2e'' (ObjLit [PropAssign ''video'' FalseLit]),
                          PropAssign ''baseUrl'' (StrLit ''http://localhost:4200'')]))
   \<and> config_expr (ObjLit [PropAssign ''retries'' (NumLit ''2''),
                          PropAssign ''e2e'' (ObjLit [PropAssign ''video'' FalseLit]),
                          PropAssign ''baseUrl'' (StrLit ''http://localhost:4200'')])"
proof -
  have h: "merge_root (JObj [(''e2e'', JObj [(''video'', JBool False)]), (''retries'', JNum 2)])
      (Some (ObjLit [PropAssign ''e2e'' (ObjLit [PropAssign ''video'' TrueLit]),
                     PropAssign ''baseUrl'' (StrLit ''http://localhost:4200'')]))
     = Inr (Some (ObjLit [PropAssign ''retries'' (NumLit ''2''),
                          PropAssign ''e2e'' (ObjLit [PropAssign ''video'' FalseLit]),
                          PropAssign ''baseUrl'' (StrLit ''http://localhost:4200'')]))"
    by (simp add: transformers_eval)
  have "config_expr (ObjLit [PropAssign ''e2e'' (ObjLit [PropAssign ''video'' TrueLit]),
                             PropAssign ''baseUrl'' (StrLit ''http://localhost:4200'')])"
    by (simp add: is_literal_initializer_def)
  with merge_root_config_shape [OF h] h show ?thesis by simp
qed

section \<open>The errors of createExpressionFromFunction\<close>

text \<open>
  C24. \<open>createExpressionFromFunction\<close> throws on every function value, and its
  regular expressions decide which TypeError: without a name followed by an opening
  parenthesis, \<open>[0]\<close> is read from \<open>null\<close>; otherwise, when an opening
  parenthesis is followed two or more characters later by a closing one, \<open>split\<close>
  is called on the array of matches, which has no such method; otherwise \<open>split\<close>
  is read from \<open>null\<close>. No call expression is ever built.
\<close>

theorem createExpressionFromFunction_throws:
  "createExpressionFromFunction (JFun strFn) = Inl (TypeError
     (if \<not> (\<exists>k < length strFn. strFn ! k = CHR ''('' \<and>
               (\<exists>j < k. regex_boundary strFn j \<and> (\<forall>m. j \<le> m \<and> m < k \<longrightarrow> \<not> is_js_space (strFn ! m))))
      then ''Cannot read properties of null (reading 0)''
      else if \<exists>i j. i + 2 \<le> j \<and> j < length strFn \<and> strFn ! i = CHR ''('' \<and> strFn ! j = CHR '')''
      then ''strFn.match(...).split is not a function''
      else ''Cannot read properties of null (reading split)''))"
proof -
  have name: "(\<exists>k < length strFn. strFn ! k = CHR ''('' \<and>
                 (\<exists>j < k. regex_boundary strFn j \<and> (\<forall>m. j \<le> m \<and> m < k \<longrightarrow> \<not> is_js_space (strFn ! m))))
              \<longleftrightarrow> js_string_match fnNameMatcher strFn \<noteq> MatchNull"
    using fnNameMatcher_exists [of strFn] by (auto simp: js_string_match_null_iff)
  have args: "(\<exists>i j. i + 2 \<le> j \<and> j < length strFn \<and> strFn ! i = CHR ''('' \<and> strFn ! j = CHR '')'')
              \<longleftrightarrow> js_string_match fnArgMatcher strFn \<noteq> MatchNull"
    using fnArgMatcher_exists [of strFn] by (auto simp: js_string_match_null_iff)
  show ?thesis
    unfolding name args
    by (cases "js_string_match fnNameMatcher strFn"; cases "js_string_match fnArgMatcher strFn")
       (simp_all add: createExpressionFromFunction_def)
qed

theorem createExpressionFromFunction_throws_witness:
  "createExpressionFromFunction (JFun ''function devServer(options) { }'') =
     Inl (TypeError ''strFn.match(...).split is not a function'')"
proof -
  let ?s = "''function devServer(options) { }''"
  have "\<exists>k < length ?s. ?s ! k = CHR ''('' \<and>
          (\<exists>j < k. regex_boundary ?s j \<and> (\<forall>m. j \<le> m \<and> m < k \<longrightarrow> \<not> is_js_space (?s ! m)))"
  proof (intro exI conjI)
    show "(18::nat) < length ?s" by simp
    show "?s ! 18 = CHR ''(''" by simp
    show "(9::nat) < 18" by simp
    show "regex_boundary ?s 9" by (simp add: regex_boundary_def js_word_char_def)
    have "list_all (\<lambda>m. \<not> is_js_space (?s ! m)) [9..<18]"
      by (simp add: upt_rec is_js_space_def)
    then show "\<forall>m. 9 \<le> m \<and> m < 18 \<longrightarrow> \<not> is_js_space (?s ! m)"
      by (simp only: list_all_iff set_upt Ball_def atLeastLessThan_iff)
  qed
  moreover have "\<exists>i j. i + 2 \<le> j \<and> j < length ?s \<and> ?s ! i = CHR ''('' \<and> ?s ! j = CHR '')''"
    by (rule exI [of _ 18], rule exI [of _ 26]) simp
  ultimately show ?thesis
    using createExpressionFromFunction_throws [of ?s] by (simp only: if_False if_True not_True_eq_False)
qed

end
