(* ===== verification/MergeSpec.thy ===== *)
theory MergeSpec
  imports TsAst
begin

text \<open>
  The contract spec.md states for the patcher, written over the same syntax trees as
  the code, so that the code can be compared with it. \<open>spec_literal\<close> is the
  LiteralBuilder of spec.md section 4.3 on scalars. \<open>spec_merge_level\<close> is one level
  of the MergeEngine of section 4.2 for a patch whose entries are all scalars: a
  mentioned property is replaced by the literal of its patch value, an unmentioned one
  is kept, and the patch's new keys are appended in the patch's order.
  \<open>spec_build\<close> is the LiteralBuilder on numbers, strings, booleans and nested
  objects. \<open>spec_remove\<close> is the RemovalEngine of section 4.4: a leaf is removed when its
  full dotted path from the root is listed, object-valued properties are recursed
  into and kept even when they become empty.
\<close>

fun spec_literal :: "jsval \<Rightarrow> expr option" where
  "spec_literal (JNum n) = Some (NumLit (js_number_to_string n))"
| "spec_literal (JStr s) = Some (StrLit s)"
| "spec_literal (JBool b) = Some (if b then TrueLit else FalseLit)"
| "spec_literal _ = None"

text \<open>
  The LiteralBuilder on numbers, strings, booleans and nested objects, entries in the
  object's own order. Opaque call markers and the values outside the five cases have no
  literal here (\<open>None\<close>).
\<close>

fun spec_build :: "jsval \<Rightarrow> expr option"
and spec_build_entries :: "(string \<times> jsval) list \<Rightarrow> member list option" where
  "spec_build (JObj kvs) = map_option ObjLit (spec_build_entries kvs)"
| "spec_build v = spec_literal v"
| "spec_build_entries [] = Some []"
| "spec_build_entries ((k, v) # kvs) =
     (case spec_build v of
        None \<Rightarrow> None
      | Some e \<Rightarrow> map_option (Cons (PropAssign k e)) (spec_build_entries kvs))"

definition is_scalar :: "jsval \<Rightarrow> bool" where
  "is_scalar v \<longleftrightarrow> spec_literal v \<noteq> None"

definition spec_update :: "(string \<times> jsval) list \<Rightarrow> member \<Rightarrow> member" where
  "spec_update patch m =
     (case m of
        PropAssign n e \<Rightarrow>
          (case map_of patch n of Some v \<Rightarrow> PropAssign n (the (spec_literal v)) | None \<Rightarrow> m)
      | OtherMember _ \<Rightarrow> m)"

definition spec_merge_level :: "member list \<Rightarrow> (string \<times> jsval) list \<Rightarrow> member list" where
  "spec_merge_level props patch =
     map (spec_update patch) props
     @ map (\<lambda>(k, v). PropAssign k (the (spec_literal v)))
           (filter (\<lambda>(k, v). k \<notin> set (member_names props)) patch)"

fun spec_remove :: "string list list \<Rightarrow> string list \<Rightarrow> member list \<Rightarrow> member list" where
  "spec_remove paths base [] = []"
| "spec_remove paths base (PropAssign n (ObjLit ms) # rest) =
     PropAssign n (ObjLit (spec_remove paths (base @ [n]) ms)) # spec_remove paths base rest"
| "spec_remove paths base (PropAssign n e # rest) =
     (if base @ [n] \<in> set paths then [] else [PropAssign n e]) @ spec_remove paths base rest"
| "spec_remove paths base (m # rest) = m # spec_remove paths base rest"

lemma is_scalar_cases: "is_scalar v \<longleftrightarrow> (\<exists>n. v = JNum n) \<or> (\<exists>s. v = JStr s) \<or> (\<exists>b. v = JBool b)"
  by (cases v) (auto simp: is_scalar_def)

end
