(* ===== verification/AddUpdate.thy ===== *)
theory AddUpdate
  imports Transformers MergeSpec
begin

text \<open>
  src/packages/cypress/src/utils/config/add-update-property-transformer.ts, the file
  update-config.ts actually calls. Its \<open>mergeCypressConfigs\<close>,
  \<open>updateChildObjectLiteral\<close> and \<open>visitRootConfigNode\<close> are copies of those of
  transformers.ts in which the builder \<open>updatePropertyAssignment(context, node, value)\<close>
  is replaced by \<open>createPropertyAssignment(context, node, value)\<close>, and the object
  branch of \<open>updateAssignments\<close> calls \<open>factory.updatePropertyAssignment\<close>. They are
  therefore the walks of theory \<open>Transformers\<close> instantiated with this file's builder
  and this file's child visitor.

  \<open>createPropertyAssignment(factory, key, value)\<close> is written for a \<open>NodeFactory\<close>
  and a string key, but every call site of this file passes the
  \<open>TransformationContext\<close> and a node. A context has no \<open>createIdentifier\<close>
  method, so the call \<open>factory.createIdentifier(key)\<close>, the first argument evaluated
  in the number, string, boolean and object cases, throws a TypeError; a function or
  \<open>undefined\<close> value falls off the \<open>switch\<close> and gives \<open>undefined\<close>. The argument
  the function is given is the datatype \<open>factory_arg\<close>.

  \<open>factory\<close> in the object branch of \<open>updateAssignments\<close> is bound nowhere in the
  module (the file imports the type \<open>NodeFactory\<close> only), so evaluating the callee
  \<open>factory.updatePropertyAssignment\<close> throws a ReferenceError before the child walk
  that is its argument runs.
\<close>

datatype factory_arg = NodeFactory | TransformationContext

definition createIdentifier :: "factory_arg \<Rightarrow> string \<Rightarrow> error + string" where
  "createIdentifier factory key =
     (case factory of
        NodeFactory \<Rightarrow> Inr key
      | TransformationContext \<Rightarrow> Inl (TypeError ''factory.createIdentifier is not a function''))"

text \<open>
  \<open>createPropertyAssignment\<close> with its recursion through
  \<open>Object.entries(value).map(...)\<close>, which builds every entry (stopping at the first
  throw) before the array is used; \<open>Object.entries(null)\<close> throws.
\<close>

fun createPropertyAssignment :: "factory_arg \<Rightarrow> string \<Rightarrow> jsval \<Rightarrow> error + member option"
and create_entries :: "factory_arg \<Rightarrow> (string \<times> jsval) list \<Rightarrow> error + member option list" where
  "createPropertyAssignment factory key (JNum n) =
     (case createIdentifier factory key of
        Inl err \<Rightarrow> Inl err
      | Inr name \<Rightarrow> Inr (Some (PropAssign name (NumLit (js_number_to_string n)))))"
| "createPropertyAssignment factory key (JStr s) =
     (case createIdentifier factory key of
        Inl err \<Rightarrow> Inl err
      | Inr name \<Rightarrow> Inr (Some (PropAssign name (StrLit s))))"
| "createPropertyAssignment factory key (JBool b) =
     (case createIdentifier factory key of
        Inl err \<Rightarrow> Inl err
      | Inr name \<Rightarrow> Inr (Some (PropAssign name (if b then TrueLit else FalseLit))))"
| "createPropertyAssignment factory key JNull =
     (case createIdentifier factory key of
        Inl err \<Rightarrow> Inl err
      | Inr name \<Rightarrow> Inl (TypeError ''Cannot convert undefined or null to object''))"
| "createPropertyAssignment factory key (JObj kvs) =
     (case createIdentifier factory key of
        Inl err \<Rightarrow> Inl err
      | Inr name \<Rightarrow>
          (case create_entries factory kvs of
             Inl err \<Rightarrow> Inl err
           | Inr rs \<Rightarrow>
               (case node_array name rs of
                  Inl err \<Rightarrow> Inl err
                | Inr props \<Rightarrow> Inr (Some (PropAssign name (ObjLit props))))))"
| "createPropertyAssignment factory key JUndefined = Inr None"
| "createPropertyAssignment factory key (JFun src) = Inr None"
| "create_entries factory [] = Inr []"
| "create_entries factory ((configKey, configValue) # kvs) =
     (case createPropertyAssignment factory configKey configValue of
        Inl err \<Rightarrow> Inl err
      | Inr r \<Rightarrow> (case create_entries factory kvs of Inl err \<Rightarrow> Inl err | Inr rs \<Rightarrow> Inr (r # rs)))"

text \<open>The copies of \<open>getValueByPath\<close> and \<open>createExpressionFromFunction\<close> (the latter is exported and called nowhere).\<close>

definition getValueByPath_au :: "jsval \<Rightarrow> string list \<Rightarrow> jsval" where
  "getValueByPath_au config path = fold (\<lambda>key acc. js_optional_get acc key) path config"

definition createExpressionFromFunction_au :: "jsval \<Rightarrow> error + expr option" where
  "createExpressionFromFunction_au fn =
     (case fn of
        JFun strFn \<Rightarrow>
          (case js_string_match fnNameMatcher strFn of
             MatchNull \<Rightarrow> Inl (TypeError ''Cannot read properties of null (reading 0)'')
           | MatchArray names \<Rightarrow>
               (let fnName = names ! 0
                in case js_string_match fnArgMatcher strFn of
                     MatchNull \<Rightarrow> Inl (TypeError ''Cannot read properties of null (reading split)'')
                   | MatchArray args \<Rightarrow> Inl (TypeError ''strFn.match(...).split is not a function'')))
      | _ \<Rightarrow> Inr None)"

text \<open>The builder every walk of this file uses.\<close>

abbreviation context_builder :: prop_builder where
  "context_builder \<equiv> createPropertyAssignment TransformationContext"

definition updateChildObjectLiteral_au :: "member list \<Rightarrow> string list \<Rightarrow> jsval \<Rightarrow> error + expr" where
  "updateChildObjectLiteral_au objectProps path config =
     updateChildObjectLiteral context_builder objectProps path config"

definition visitRootConfigNode_au :: "expr option \<Rightarrow> jsval \<Rightarrow> error + expr option" where
  "visitRootConfigNode_au rootNode newConfig =
     visitRootConfigNode (\<lambda>name props. Inl (ReferenceError ''factory is not defined''))
       context_builder rootNode newConfig"

definition mergeCypressConfigs_au :: "jsval \<Rightarrow> bool \<Rightarrow> source_file \<Rightarrow> error + source_file" where
  "mergeCypressConfigs_au newConfig overwrite sourceFile =
     map_throw (merge_export (\<lambda>rootConfigNode. visitRootConfigNode_au rootConfigNode newConfig) overwrite)
       sourceFile"

text \<open>A root that lost properties and gained none.\<close>

definition root_shrinks :: "expr option \<Rightarrow> expr option \<Rightarrow> bool" where
  "root_shrinks r r' \<longleftrightarrow>
     (case (r, r') of (Some (ObjLit ps), Some (ObjLit ps')) \<Rightarrow> subseq ps' ps | _ \<Rightarrow> r' = r)"

section \<open>Lemmas\<close>

lemma getValueByPath_au_eq: "getValueByPath_au = getValueByPath"
  by (simp add: fun_eq_iff getValueByPath_au_def getValueByPath_def)

lemma context_builder_result: "context_builder k v = Inr r \<Longrightarrow> r = None"
  by (cases v) (simp_all add: createIdentifier_def)

lemma context_built_property: "\<exists>err. built_property key (context_builder k v) = Inl err"
  by (cases v) (simp_all add: createIdentifier_def built_property_def)

lemma context_extras:
  assumes "map_throw (\<lambda>(key, value). built_property key (context_builder (f key) value)) pm = Inr added"
  shows "pm = []"
proof (cases pm)
  case (Cons kv pm')
  obtain err where "built_property (fst kv) (context_builder (f (fst kv)) (snd kv)) = Inl err"
    using context_built_property by blast
  with assms Cons show ?thesis by (simp add: split_def)
qed

lemma updateAssignments_au_step:
  assumes "updateAssignments (\<lambda>name props. Inl (ReferenceError ''factory is not defined''))
             context_builder newConfig x s = Inr (r, s')"
  shows "r = None \<or> r = Some x"
proof (cases x)
  case (PropAssign n e)
  with assms show ?thesis
    by (cases e) (auto simp: Let_def split: if_splits sum.splits dest: context_builder_result)
next
  case (OtherMember t)
  with assms show ?thesis by simp
qed

lemma node_factory_builds:
  "spec_build v = Some e \<Longrightarrow> createPropertyAssignment NodeFactory k v = Inr (Some (PropAssign k e))"
  "spec_build_entries kvs = Some ms \<Longrightarrow> create_entries NodeFactory kvs = Inr (map Some ms)"
  by (induction v and kvs arbitrary: k e and ms rule: spec_build_spec_build_entries.induct)
     (auto simp: createIdentifier_def node_array_def split: option.splits)

text \<open>
  C8. With a real \<open>NodeFactory\<close>, \<open>createPropertyAssignment\<close> is the
  LiteralBuilder of spec.md section 4.3 on numbers, strings, booleans and nested
  objects: it builds the property whose initializer is the contract's literal, nested
  objects entry by entry in their own order.
\<close>

theorem createPropertyAssignment_refines_spec_build:
  assumes "spec_build v = Some e"
  shows "createPropertyAssignment NodeFactory k v = Inr (Some (PropAssign k e))"
  using assms by (rule node_factory_builds(1))

theorem createPropertyAssignment_refines_spec_build_witness:
  "spec_build (JObj [(''a'', JNum 1), (''b'', JNum 2)])
     = Some (ObjLit [PropAssign ''a'' (NumLit ''1''), PropAssign ''b'' (NumLit ''2'')])
   \<and> createPropertyAssignment NodeFactory ''retries'' (JObj [(''a'', JNum 1), (''b'', JNum 2)])
     = Inr (Some (PropAssign ''retries'' (ObjLit [PropAssign ''a'' (NumLit ''1''), PropAssign ''b'' (NumLit ''2'')])))"
proof -
  have s: "spec_build (JObj [(''a'', JNum 1), (''b'', JNum 2)])
             = Some (ObjLit [PropAssign ''a'' (NumLit ''1''), PropAssign ''b'' (NumLit ''2'')])"
    by (simp add: js_number_to_string_def digit_char_def dec_of_nat.simps char_of_eq_iff)
  show ?thesis
    using createPropertyAssignment_refines_spec_build [OF s, of "''retries''"] s by simp
qed

text \<open>
  C13. As every call site of add-update-property-transformer.ts calls it, with the
  transformation context in place of a node factory, \<open>createPropertyAssignment\<close>
  never builds a property: it throws on numbers, strings, booleans, objects and
  \<open>null\<close>, and yields \<open>undefined\<close> on functions and \<open>undefined\<close>.
\<close>

theorem createPropertyAssignment_context_throws:
  "createPropertyAssignment TransformationContext k v =
     (if js_typeof v = TUndefined \<or> js_typeof v = TFunction then Inr None
      else Inl (TypeError ''factory.createIdentifier is not a function''))"
  by (cases v) (simp_all add: createIdentifier_def)

text \<open>
  The root visitor of this file never adds or updates a property: whenever it returns,
  the root has only lost properties (those whose patch value is a truthy function), in
  their order, and a root that is not an object literal comes back unchanged.
\<close>

lemma visitRootConfigNode_au_shrinks:
  assumes "visitRootConfigNode_au root newConfig = Inr root'"
  shows "root_shrinks root root'"
  using assms unfolding visitRootConfigNode_au_def
proof (cases rule: visitRootConfigNode_Inr_cases)
  case (obj props props' pm' added)
  have "pm' = []" by (rule context_extras [of "\<lambda>k. k", OF obj(3)])
  with obj(3) have "added = []" by simp
  have "subseq props' props"
    by (rule visit_nodes_drops [OF obj(2)]) (rule updateAssignments_au_step)
  with obj \<open>added = []\<close> show ?thesis by (simp add: root_shrinks_def)
next
  case other
  then show ?thesis by (simp add: root_shrinks_def split: option.split expr.split)
qed

end
