(* ===== verification/RemoveProps.thy ===== *)
theory RemoveProps
  imports Transformers MergeSpec
begin

text \<open>
  The removal transformer of src/packages/cypress/src/utils/config/remove-property-transformer.ts.
  \<open>removeProps(propertyPaths)\<close> rewrites every \<open>export default\<close> call so that its
  only argument is the first one after \<open>visitRootConfig\<close>, which runs the visitor
  \<open>remover\<close> over the properties of the root object literal through
  \<open>visitEachChild\<close>. The remover has no state (the unit state of \<open>visit_nodes\<close>).

  \<open>remover\<close> is a \<open>Visitor\<close> whose body falls off its end in two places, so it
  returns \<open>undefined\<close>, which \<open>visitEachChild\<close> takes as "drop this node": for a
  member that is not a property assignment, and for a property whose initializer is
  neither an object literal nor a literal or call. A property with a literal or call
  initializer is dropped when its bare name \<open>node.name.getText()\<close> is listed. A
  property with an object-literal initializer is passed to
  \<open>visitEachChild(node, remover, context)\<close>, which visits the property's name and its
  initializer with \<open>remover\<close>; neither is a property assignment, so both come back
  \<open>undefined\<close> and the rebuilt assignment has no name: the model stops there with
  \<open>UndefinedNode ''name''\<close>. The same happens to the callee of a root that is a call
  expression. \<open>isBooleanLiteral\<close> is imported from transformer.helper, which has the
  definition of transformers.ts (\<open>Transformers.isBooleanLiteral\<close>).
\<close>

section \<open>The remover and the root visitor\<close>

fun remover :: "string list \<Rightarrow> member \<Rightarrow> unit \<Rightarrow> error + (member option \<times> unit)" where
  "remover propertyPaths (PropAssign n e) s =
     (if isObjectLiteralExpression e then Inl (UndefinedNode ''name'')
      else if is_literal_initializer e then
        (if n \<in> set propertyPaths then Inr (None, s) else Inr (Some (PropAssign n e), s))
      else Inr (None, s))"
| "remover propertyPaths (OtherMember t) s = Inr (None, s)"

text \<open>
  \<open>visitEachChild(rootNode, remover, context)\<close>: an object literal's properties go
  through the remover; a call's callee and arguments would too, and its callee comes back
  \<open>undefined\<close>; a literal or identifier has no child and is returned as it is. An
  \<open>OtherE\<close> root is taken to have no child either (TsAst), so it is returned as it
  is, whereas an array literal root would lose its elements to the remover.
\<close>

definition visitRootConfig :: "expr \<Rightarrow> string list \<Rightarrow> error + expr" where
  "visitRootConfig rootNode propertyPaths =
     (case rootNode of
        ObjLit props \<Rightarrow>
          (case visit_nodes (remover propertyPaths) props () of
             Inl err \<Rightarrow> Inl err
           | Inr (props', _) \<Rightarrow> Inr (ObjLit props'))
      | CallE _ _ \<Rightarrow> Inl (UndefinedNode ''expression'')
      | _ \<Rightarrow> Inr rootNode)"

text \<open>
  The visitor of \<open>removeProps\<close> on one statement. As in the merge transformer, the
  cast to \<open>CallExpression\<close> is unchecked, and a call without arguments hands
  \<open>undefined\<close> to \<open>visitEachChild\<close>, which returns it, so the rebuilt call has an
  \<open>undefined\<close> argument. Any other node goes to \<open>visitEachChild\<close>, which visits
  the statements of a block.
\<close>

fun remove_export :: "string list \<Rightarrow> stmt \<Rightarrow> error + stmt" where
  "remove_export propertyPaths (ExportAssign (CallE callee args)) =
     (case args of
        [] \<Rightarrow> Inl (UndefinedNode ''arguments[0]'')
      | rootConfigNode # _ \<Rightarrow>
          (case visitRootConfig rootConfigNode propertyPaths of
             Inl err \<Rightarrow> Inl err
           | Inr root' \<Rightarrow> Inr (ExportAssign (CallE callee [root']))))"
| "remove_export propertyPaths (ExportAssign e) = Inl (TypeError ''callExpression.arguments is undefined'')"
| "remove_export propertyPaths (StmtBlock n body) =
     (case map_throw (remove_export propertyPaths) body of
        Inl err \<Rightarrow> Inl err
      | Inr body' \<Rightarrow> Inr (StmtBlock n body'))"
| "remove_export propertyPaths (OtherStmt t) = Inr (OtherStmt t)"

definition removeProps :: "string list \<Rightarrow> source_file \<Rightarrow> error + source_file" where
  "removeProps propertyPaths sourceFile = map_throw (remove_export propertyPaths) sourceFile"

section \<open>What the remover keeps\<close>

definition remover_keeps :: "string list \<Rightarrow> member \<Rightarrow> bool" where
  "remover_keeps propertyPaths m \<longleftrightarrow>
     (case m of PropAssign n e \<Rightarrow> is_literal_initializer e \<and> n \<notin> set propertyPaths | OtherMember _ \<Rightarrow> False)"

text \<open>A leaf property of the root the contract and the code both can handle.\<close>

fun flat_literal :: "member \<Rightarrow> bool" where
  "flat_literal (PropAssign n e) \<longleftrightarrow> is_literal_initializer e \<and> CHR ''.'' \<notin> set n"
| "flat_literal (OtherMember _) \<longleftrightarrow> False"

section \<open>Lemmas\<close>

lemma remover_keeps_simps [simp]:
  "remover_keeps paths (PropAssign n e) \<longleftrightarrow> is_literal_initializer e \<and> n \<notin> set paths"
  "\<not> remover_keeps paths (OtherMember t)"
  by (simp_all add: remover_keeps_def)

lemma remover_walk:
  "visit_nodes (remover paths) props () =
     (if list_ex is_object_property props then Inl (UndefinedNode ''name'')
      else Inr (filter (remover_keeps paths) props, ()))"
proof (induction props)
  case (Cons m ms)
  show ?case
  proof (cases m)
    case (PropAssign n e)
    then show ?thesis
      using Cons.IH by (cases e) (simp_all add: is_literal_initializer_def)
  next
    case (OtherMember t)
    then show ?thesis using Cons.IH by simp
  qed
qed simp

lemma visitRootConfig_ObjLit_walk:
  "visitRootConfig (ObjLit props) paths =
     (if list_ex is_object_property props then Inl (UndefinedNode ''name'')
      else Inr (ObjLit (filter (remover_keeps paths) props)))"
  by (simp add: visitRootConfig_def remover_walk)

lemma flat_literal_not_object: "flat_literal m \<Longrightarrow> \<not> is_object_property m"
  by (cases m rule: is_object_property.cases) (simp_all add: is_literal_initializer_def)

lemma spec_remove_flat:
  assumes "list_all flat_literal props"
  shows "spec_remove (map (split_on CHR ''.'') paths) [] props = filter (remover_keeps paths) props"
  using assms
proof (induction props)
  case (Cons m ms)
  then obtain n e where m: "m = PropAssign n e" and lit: "is_literal_initializer e"
    and nodot: "CHR ''.'' \<notin> set n"
    by (cases m) auto
  have "[n] \<in> set (map (split_on CHR ''.'') paths) \<longleftrightarrow> (\<exists>p \<in> set paths. split_on CHR ''.'' p = [n])"
    by (auto simp: image_iff eq_commute [of "[n]"])
  also have "\<dots> \<longleftrightarrow> n \<in> set paths"
    using nodot by (simp add: split_on_single)
  finally have mem: "[n] \<in> set (map (split_on CHR ''.'') paths) \<longleftrightarrow> n \<in> set paths" .
  from Cons m lit mem show ?case
    by (cases e) (simp_all add: is_literal_initializer_def)
qed simp

text \<open>
  C5. On a file whose only export is a call with an object literal as first argument,
  \<open>removeProps\<close> fails as soon as one root property has an object-literal value;
  otherwise it keeps exactly the root properties with a literal or call value whose bare
  name is not listed, in their order, drops every other member (identifiers, arrays,
  spreads, shorthand properties) even when no path is listed, and drops the call's
  further arguments.
\<close>

theorem removeProps_root_filter:
  "removeProps paths (map OtherStmt before @ ExportAssign (CallE callee (ObjLit props # rest))
                       # map OtherStmt after) =
     (if list_ex is_object_property props then Inl (UndefinedNode ''name'')
      else Inr (map OtherStmt before @ ExportAssign (CallE callee [ObjLit (filter (remover_keeps paths) props)])
                # map OtherStmt after))"
proof -
  have other: "map_throw (remove_export paths) (map OtherStmt xs) = Inr (map OtherStmt xs)" for xs
    by (rule map_throw_map_comp) simp
  show ?thesis
    by (simp add: removeProps_def map_throw_append other visitRootConfig_ObjLit_walk)
qed

text \<open>
  C4. On a root object literal whose members are all properties with a literal or call
  value and a name free of dots, \<open>visitRootConfig\<close> does what the RemovalEngine of
  spec.md section 4.4 asks for the dotted paths it is given: it removes exactly the
  properties whose full path is listed and keeps the others in order.
\<close>

theorem visitRootConfig_refines_spec_remove:
  assumes "list_all flat_literal props"
  shows "visitRootConfig (ObjLit props) paths =
           Inr (ObjLit (spec_remove (map (split_on CHR ''.'') paths) [] props))"
proof -
  have "\<not> list_ex is_object_property props"
    using assms by (auto simp: list_ex_iff list_all_iff dest: flat_literal_not_object)
  then show ?thesis
    by (simp add: visitRootConfig_ObjLit_walk spec_remove_flat [OF assms])
qed

theorem visitRootConfig_refines_spec_remove_witness:
  "visitRootConfig (ObjLit [PropAssign ''baseUrl'' (StrLit ''blah its me''), PropAssign ''video'' TrueLit])
      [''video'', ''e2e.video'']
     = Inr (ObjLit (spec_remove [[''video''], [''e2e'', ''video'']] []
                      [PropAssign ''baseUrl'' (StrLit ''blah its me''), PropAssign ''video'' TrueLit]))
   \<and> spec_remove [[''video''], [''e2e'', ''video'']] []
       [PropAssign ''baseUrl'' (StrLit ''blah its me''), PropAssign ''video'' TrueLit]
     = [PropAssign ''baseUrl'' (StrLit ''blah its me'')]"
  using visitRootConfig_refines_spec_remove
          [of "[PropAssign ''baseUrl'' (StrLit ''blah its me''), PropAssign ''video'' TrueLit]"
              "[''video'', ''e2e.video'']"]
  by (simp add: is_literal_initializer_def)

text \<open>
  C12. A nested property can never be removed: as soon as the root object literal of an
  export has a property whose value is an object literal, \<open>removeProps\<close> fails on the
  file, whatever the paths. spec.md section 8 asks that removing \<open>e2e.video\<close>
  delete that leaf only.
\<close>

theorem removeProps_nested_fails:
  assumes "ExportAssign (CallE callee (ObjLit props # rest)) \<in> set sf"
    and "list_ex is_object_property props"
  shows "\<exists>err. removeProps paths sf = Inl err"
  unfolding removeProps_def
  by (rule map_throw_Inl [OF assms(1)]) (simp add: visitRootConfig_ObjLit_walk assms(2))

theorem removeProps_nested_fails_witness:
  "removeProps [''e2e.video'']
      [ExportAssign (CallE (Ident ''defineConfig'')
         [ObjLit [PropAssign ''e2e'' (ObjLit [PropAssign ''video'' TrueLit, PropAssign ''fixturesFolder'' (StrLit ''./src/fixtures'')]),
                  PropAssign ''video'' TrueLit]])]
     = Inl (UndefinedNode ''name'')
   \<and> spec_remove [[''e2e'', ''video'']] []
       [PropAssign ''e2e'' (ObjLit [PropAssign ''video'' TrueLit, PropAssign ''fixturesFolder'' (StrLit ''./src/fixtures'')]),
        PropAssign ''video'' TrueLit]
     = [PropAssign ''e2e'' (ObjLit [PropAssign ''fixturesFolder'' (StrLit ''./src/fixtures'')]),
        PropAssign ''video'' TrueLit]"
proof -
  have "\<exists>err. removeProps [''e2e.video'']
      [ExportAssign (CallE (Ident ''defineConfig'')
         [ObjLit [PropAssign ''e2e'' (ObjLit [PropAssign ''video'' TrueLit, PropAssign ''fixturesFolder'' (StrLit ''./src/fixtures'')]),
                  PropAssign ''video'' TrueLit]])] = Inl err"
    by (rule removeProps_nested_fails) (auto simp: list_ex_iff)
  then show ?thesis
    by (simp add: removeProps_def visitRootConfig_ObjLit_walk)
qed

end
