(* ===== verification/UpdateConfig.thy ===== *)
theory UpdateConfig
  imports AddUpdate RemoveProps
begin

text \<open>
  The public entry points of src/packages/cypress/src/utils/config/update-config.ts and
  the test of update-config.spec.ts. \<open>addOrUpdateConfigProperties\<close> parses the text,
  runs \<open>transform(sourceFile, [mergeCypressConfigs(config, overwrite)])\<close> with the
  \<open>mergeCypressConfigs\<close> of add-update-property-transformer.ts, and prints the
  result; the parser and the printer are not modelled, so the entry is a function on
  source files; \<open>transform\<close> is \<open>TsAst.transform_file\<close>. \<open>removeConfigProperties\<close> has an empty body.
\<close>

definition addOrUpdateConfigProperties :: "source_file \<Rightarrow> jsval \<Rightarrow> bool \<Rightarrow> error + source_file" where
  "addOrUpdateConfigProperties configContent config overwrite =
     transform_file [mergeCypressConfigs_au config overwrite] configContent"

definition removeConfigProperties :: "unit \<Rightarrow> unit" where
  "removeConfigProperties u = ()"

section \<open>The test document\<close>

text \<open>
  The \<open>configContent\<close> of update-config.spec.ts and the patch of its test
  \<open>should add a property\<close>. The value of \<open>componentDevServer('tsconfig.cy.json', 'swc')\<close>
  comes from a module outside the repository's sources and is a parameter.
\<close>

definition spec_test_config :: source_file where
  "spec_test_config =
     [OtherStmt ''import { defineConfig } from cypress;'',
      OtherStmt ''import { componentDevServer } from @nrwl/cypress/plugins/next;'',
      ExportAssign (CallE (Ident ''defineConfig'')
        [ObjLit
          [PropAssign ''baseUrl'' (StrLit ''blah its me''),
           PropAssign ''component'' (ObjLit
             [PropAssign ''devServer'' (CallE (Ident ''componentDevServer'')
                                          [StrLit ''tsconfig.cy.json'', StrLit ''babel'']),
              PropAssign ''pluginsFile'' FalseLit,
              PropAssign ''video'' TrueLit,
              PropAssign ''chromeWebSecurity'' FalseLit,
              PropAssign ''fixturesFolder'' (StrLit ''cypress/fixtures''),
              PropAssign ''specPattern'' (StrLit ''**/*.cy.{js,jsx,ts,tsx}''),
              PropAssign ''supportFile'' (StrLit ''cypress/support/component.ts''),
              PropAssign ''videosFolder'' (StrLit ''../../dist/cypress/apps/n/videos''),
              PropAssign ''screenshotsFolder'' (StrLit ''../../dist/cypress/apps/n/screenshots'')]),
           PropAssign ''e2e'' (ObjLit
             [PropAssign ''fileServerFolder'' (StrLit ''.''),
              PropAssign ''fixturesFolder'' (StrLit ''./src/fixtures''),
              PropAssign ''integrationFolder'' (StrLit ''./src/e2e''),
              PropAssign ''supportFile'' (StrLit ''./src/support/e2e.ts''),
              PropAssign ''specPattern'' (StrLit ''**/*.cy.{js,ts}''),
              PropAssign ''pluginsFile'' FalseLit,
              PropAssign ''video'' TrueLit,
              PropAssign ''videosFolder'' (StrLit ''../../dist/cypress/apps/myapp4299814-e2e/videos''),
              PropAssign ''screenshotsFolder'' (StrLit ''../../dist/cypress/apps/myapp4299814-e2e/screenshots''),
              PropAssign ''chromeWebSecurity'' FalseLit])]])]"

definition spec_test_patch :: "jsval \<Rightarrow> jsval" where
  "spec_test_patch devServer =
     JObj [(''blah'', JStr ''i am a top level property''),
           (''baseUrl'', JStr ''http://localhost:1234''),
           (''component'', JObj [(''fixturesFolder'', JStr ''cypress/fixtures/cool''),
                                 (''devServer'', devServer),
                                 (''blah'', JStr ''i am a random property'')]),
           (''e2e'', JObj [(''video'', JBool False)])]"

section \<open>Shapes of the result\<close>

text \<open>
  What a statement may become: an export keeps its callee and a shrunk first argument,
  a block keeps its name and its statements shrink one by one, the rest is unchanged.
\<close>

fun stmt_shrinks :: "stmt \<Rightarrow> stmt \<Rightarrow> bool" where
  "stmt_shrinks (ExportAssign (CallE callee (r # rest))) s' =
     (case s' of ExportAssign (CallE callee' [r']) \<Rightarrow> callee' = callee \<and> root_shrinks (Some r) (Some r') | _ \<Rightarrow> False)"
| "stmt_shrinks (StmtBlock n body) s' =
     (case s' of StmtBlock n' body' \<Rightarrow> n' = n \<and> list_all2 stmt_shrinks body body' | _ \<Rightarrow> False)"
| "stmt_shrinks s s' \<longleftrightarrow> s' = s"

fun export_is_call :: "stmt \<Rightarrow> bool" where
  "export_is_call (ExportAssign e) = isCallExpression e"
| "export_is_call (StmtBlock n body) = list_all export_is_call body"
| "export_is_call (OtherStmt _) = True"

fun clear_args :: "stmt \<Rightarrow> stmt" where
  "clear_args (ExportAssign (CallE callee args)) = ExportAssign (CallE callee [])"
| "clear_args (StmtBlock n body) = StmtBlock n (map clear_args body)"
| "clear_args s = s"

text \<open>A statement that is or contains an export assignment.\<close>

fun has_export :: "stmt \<Rightarrow> bool" where
  "has_export (ExportAssign _) = True"
| "has_export (StmtBlock n body) = list_ex has_export body"
| "has_export (OtherStmt _) = False"

section \<open>Lemmas\<close>

lemma addOrUpdateConfigProperties_eq:
  "addOrUpdateConfigProperties sf config overwrite = mergeCypressConfigs_au config overwrite sf"
  by (simp add: addOrUpdateConfigProperties_def split: sum.splits)

lemma merge_export_au_shrinks:
  assumes "merge_export (\<lambda>r. visitRootConfigNode_au r newConfig) False s = Inr s'"
  shows "stmt_shrinks s s'"
  using assms
proof (induction s arbitrary: s')
  case (ExportAssign e)
  show ?case
  proof (cases "\<exists>callee r rest. e = CallE callee (r # rest)")
    case True
    then obtain callee r rest where e: "e = CallE callee (r # rest)" by blast
    with ExportAssign obtain r' where "visitRootConfigNode_au (Some r) newConfig = Inr (Some r')"
      and "s' = ExportAssign (CallE callee [r'])"
      by (auto split: sum.splits option.splits)
    then show ?thesis using e by (simp add: visitRootConfigNode_au_shrinks)
  next
    case False
    have none: "visitRootConfigNode_au None newConfig \<noteq> Inr (Some r')" for r'
      using visitRootConfigNode_au_shrinks [of None newConfig "Some r'"] by (auto simp: root_shrinks_def)
    with ExportAssign False show ?thesis
      by (cases e) (auto split: list.splits sum.splits option.splits)
  qed
next
  case (StmtBlock n body)
  then obtain body' where walk: "map_throw (merge_export (\<lambda>r. visitRootConfigNode_au r newConfig) False) body
                                   = Inr body'"
    and s': "s' = StmtBlock n body'"
    by (auto split: sum.splits)
  have "list_all2 stmt_shrinks body body'"
    using walk [unfolded map_throw_Inr_iff] by (rule list.rel_mono_strong) (rule StmtBlock.IH)
  with s' show ?case by simp
next
  case (OtherStmt t)
  then have "s' = OtherStmt t" by simp
  then show ?case by simp
qed

text \<open>In overwrite mode every exported call, also inside blocks, loses its arguments.\<close>

lemma merge_export_overwrite:
  "export_is_call s \<Longrightarrow> merge_export f True s = Inr (clear_args s)"
proof (induction s)
  case (ExportAssign e)
  then show ?case by (cases e) simp_all
next
  case (StmtBlock n body)
  then have "map_throw (merge_export f True) body = Inr (map clear_args body)"
    by (intro map_throw_map) (simp add: list_all_iff)
  then show ?case by simp
qed simp

text \<open>A statement without an export assignment passes both visitors unchanged.\<close>

lemma no_export_unchanged:
  "\<not> has_export s \<Longrightarrow> merge_export f overwrite s = Inr s \<and> remove_export paths s = Inr s"
proof (induction s)
  case (StmtBlock n body)
  have "map_throw (merge_export f overwrite) body = Inr (map id body)"
    by (rule map_throw_map) (use StmtBlock in \<open>auto simp: list_ex_iff\<close>)
  moreover have "map_throw (remove_export paths) body = Inr (map id body)"
    by (rule map_throw_map) (use StmtBlock in \<open>auto simp: list_ex_iff\<close>)
  ultimately show ?case by simp
qed simp_all

lemma empty_patch_walk:
  "visit_nodes (updateAssignments (\<lambda>name props. Inl (ReferenceError ''factory is not defined''))
                  context_builder (JObj [])) props [] =
     (if list_ex is_object_property props then Inl (ReferenceError ''factory is not defined'')
      else Inr (props, []))"
proof (induction props)
  case (Cons m ms)
  show ?case
  proof (cases m)
    case (PropAssign n e)
    with Cons.IH show ?thesis by (cases e) (simp_all add: Let_def)
  next
    case (OtherMember t)
    with Cons.IH show ?thesis by simp
  qed
qed simp

lemma other_stmts_au:
  "map_throw (merge_export f overwrite) (map OtherStmt xs) = Inr (map OtherStmt xs)"
  by (rule map_throw_map_comp) simp

text \<open>
  C1. The public entry \<open>addOrUpdateConfigProperties\<close> never adds or updates a
  property: whenever it returns in merge mode, every statement is unchanged except the
  exported calls, which keep their callee and get as only argument their first one with
  some properties removed. spec.md section 8 expects new keys to be added and mentioned
  ones updated.
\<close>

theorem addOrUpdateConfigProperties_never_adds:
  assumes "addOrUpdateConfigProperties sf config False = Inr sf'"
  shows "list_all2 stmt_shrinks sf sf'"
proof -
  have "list_all2 (\<lambda>s s'. merge_export (\<lambda>r. visitRootConfigNode_au r config) False s = Inr s') sf sf'"
    using assms by (simp add: addOrUpdateConfigProperties_eq mergeCypressConfigs_au_def map_throw_Inr_iff)
  then show ?thesis by (rule list_all2_mono) (rule merge_export_au_shrinks)
qed

theorem addOrUpdateConfigProperties_never_adds_witness:
  "addOrUpdateConfigProperties
      [ExportAssign (CallE (Ident ''defineConfig'')
         [ObjLit [PropAssign ''devServer'' (CallE (Ident ''componentDevServer'') []),
                  PropAssign ''video'' TrueLit]])]
      (JObj [(''devServer'', JFun ''function devServer() {}'')]) False
     = Inr [ExportAssign (CallE (Ident ''defineConfig'') [ObjLit [PropAssign ''video'' TrueLit]])]
   \<and> list_all2 stmt_shrinks
       [ExportAssign (CallE (Ident ''defineConfig'')
         [ObjLit [PropAssign ''devServer'' (CallE (Ident ''componentDevServer'') []),
                  PropAssign ''video'' TrueLit]])]
       [ExportAssign (CallE (Ident ''defineConfig'') [ObjLit [PropAssign ''video'' TrueLit]])]"
proof -
  have h: "addOrUpdateConfigProperties
      [ExportAssign (CallE (Ident ''defineConfig'')
         [ObjLit [PropAssign ''devServer'' (CallE (Ident ''componentDevServer'') []),
                  PropAssign ''video'' TrueLit]])]
      (JObj [(''devServer'', JFun ''function devServer() {}'')]) False
     = Inr [ExportAssign (CallE (Ident ''defineConfig'') [ObjLit [PropAssign ''video'' TrueLit]])]"
    by (simp add: addOrUpdateConfigProperties_eq mergeCypressConfigs_au_def visitRootConfigNode_au_def
                  transformers_eval)
  show ?thesis using addOrUpdateConfigProperties_never_adds [OF h] h by simp
qed

text \<open>
  C10. With the empty patch, on a file whose export is a call with an object literal,
  \<open>addOrUpdateConfigProperties\<close> throws the ReferenceError of the unbound
  \<open>factory\<close> as soon as one root property has an object-literal value, and otherwise
  returns the file with the call's further arguments dropped. spec.md section 8 asks
  that the empty patch leave every valid document unchanged.
\<close>

theorem addOrUpdateConfigProperties_empty_patch:
  "addOrUpdateConfigProperties
      (map OtherStmt before @ ExportAssign (CallE callee (ObjLit props # rest)) # map OtherStmt after)
      (JObj []) False =
     (if list_ex is_object_property props then Inl (ReferenceError ''factory is not defined'')
      else Inr (map OtherStmt before @ ExportAssign (CallE callee [ObjLit props]) # map OtherStmt after))"
  by (simp add: addOrUpdateConfigProperties_eq mergeCypressConfigs_au_def map_throw_append
                other_stmts_au visitRootConfigNode_au_def visitRootConfigNode_def Let_def
                root_property_map_def empty_patch_walk)

text \<open>
  C11. In overwrite mode \<open>addOrUpdateConfigProperties\<close> ignores the patch: every
  exported call, at top level or inside a block, loses all its arguments, whatever the
  patch holds. spec.md section 4.2
  asks for a root rebuilt from the patch, with exactly the patch's keys.
\<close>

theorem addOrUpdateConfigProperties_overwrite_ignores_patch:
  assumes "list_all export_is_call sf"
  shows "addOrUpdateConfigProperties sf config True = Inr (map clear_args sf)"
proof -
  have "merge_export f True s = Inr (clear_args s)" if "s \<in> set sf" for f s
  proof -
    from assms that have "export_is_call s" by (simp add: list_all_iff)
    then show ?thesis by (rule merge_export_overwrite)
  qed
  then show ?thesis
    by (simp add: addOrUpdateConfigProperties_eq mergeCypressConfigs_au_def map_throw_map)
qed

theorem addOrUpdateConfigProperties_overwrite_ignores_patch_witness:
  "addOrUpdateConfigProperties spec_test_config (spec_test_patch (JFun ''devServer'')) True
     = Inr [OtherStmt ''import { defineConfig } from cypress;'',
            OtherStmt ''import { componentDevServer } from @nrwl/cypress/plugins/next;'',
            ExportAssign (CallE (Ident ''defineConfig'') [])]"
proof -
  have "list_all export_is_call spec_test_config" by (simp add: spec_test_config_def)
  from addOrUpdateConfigProperties_overwrite_ignores_patch [OF this]
  show ?thesis by (simp add: spec_test_config_def)
qed

text \<open>
  C19. There is no root locator: on a file without an export assignment (at top level
  or inside a block) both entry points return the file unchanged, where spec.md section 4.1 asks for a \<open>StructureError\<close>.
\<close>

theorem no_export_passes_unchanged:
  assumes "list_all (\<lambda>s. \<not> has_export s) sf"
  shows "addOrUpdateConfigProperties sf config overwrite = Inr sf \<and> removeProps paths sf = Inr sf"
proof -
  have other: "\<not> has_export s" if "s \<in> set sf" for s
    using assms that by (simp add: list_all_iff)
  have merge: "merge_export (\<lambda>r. visitRootConfigNode_au r config) overwrite s = Inr s" if "s \<in> set sf" for s
    using no_export_unchanged [OF other [OF that]] by blast
  have remove: "remove_export paths s = Inr s" if "s \<in> set sf" for s
    using no_export_unchanged [OF other [OF that]] by blast
  have "map_throw (merge_export (\<lambda>r. visitRootConfigNode_au r config) overwrite) sf = Inr (map id sf)"
    by (rule map_throw_map) (simp add: merge)
  moreover have "map_throw (remove_export paths) sf = Inr (map id sf)"
    by (rule map_throw_map) (simp add: remove)
  ultimately show ?thesis
    by (simp add: addOrUpdateConfigProperties_eq mergeCypressConfigs_au_def removeProps_def)
qed

theorem no_export_passes_unchanged_witness:
  "addOrUpdateConfigProperties [OtherStmt ''import { defineConfig } from cypress;'']
      (spec_test_patch (JStr ''swc'')) False = Inr [OtherStmt ''import { defineConfig } from cypress;'']
   \<and> removeProps [''e2e.video''] [OtherStmt ''import { defineConfig } from cypress;'']
      = Inr [OtherStmt ''import { defineConfig } from cypress;'']"
  by (rule no_export_passes_unchanged) simp

end
