(* ===== verification/PropertyTransformer.thy ===== *)
theory PropertyTransformer
  imports UpdateConfig
begin

text \<open>
  The class \<open>CypressPropertyTransformer\<close> of
  src/packages/cypress/src/utils/config/add-update-property-transformer.ts. Its only
  field is the static \<open>configMetadataMap\<close>, shared by every call in the process: the
  state of the record \<open>transformer_state\<close>, passed explicitly and returned by each
  method, also when the method throws (a throw does not undo what was written).

  \<open>addOrUpdate\<close> runs \<open>transform\<close> with an empty list of transformers (the call
  of \<open>mergeCypressConfigs\<close> is commented out). \<open>mergeConfigs\<close> first calls
  \<open>addNewConfigToMetadata(context.factory, newConfig)\<close>, which builds the patch as
  property assignments with the real node factory and calls
  \<open>buildMetadataFromConfig\<close> with one argument, the object literal: the parameters
  shift, so \<open>factory\<close> is the object literal and \<open>config\<close> is \<open>undefined\<close>.
  Its recursive call (line 183) would pass two arguments too, the nested literal as
  \<open>factory\<close> and the new child map as \<open>config\<close>, but it is never reached (below).
  \<open>meta_value\<close> is what reaches these parameters. Every call the code makes leaves
  \<open>metadataMap\<close> at its default, the static map, which the model therefore uses.

  Every node that reaches \<open>buildMetadataFromConfig\<close> in these calls was built
  by the factory, so the first \<open>assignment.name.getText()\<close> of its loop fails the
  compiler's \<open>Debug.assert\<close> that the node has a position in a source file: the
  \<open>devServer\<close> test, the recursion and \<open>fromLiteralToPrimitive\<close> after it are
  never reached. \<open>fromLiteralToPrimitive\<close> is modelled on its own, for a node whose
  text \<open>node.getText()\<close> (the parameter \<open>getText\<close>) returns: \<open>parseInt\<close> of a
  numeric literal's text, the boolean of \<open>true\<close>/\<open>false\<close>, and otherwise the
  node's text. \<open>PrimitiveValue\<close> is \<open>string | number | boolean\<close>, with
  \<open>NaN\<close> among the numbers.
\<close>

datatype primitive = PNum int | PNaN | PBool bool | PStr string

datatype metadata = MPrim primitive | MMap "(string \<times> metadata) list"

type_synonym metadata_map = "(string, metadata) jsmap"

record transformer_state =
  configMetadataMap :: metadata_map

datatype meta_value = MetaFactory | MetaNode expr | MetaMap | MetaUndefined

section \<open>Reading a literal back\<close>

definition fromLiteralToPrimitive :: "(expr \<Rightarrow> string) \<Rightarrow> expr \<Rightarrow> primitive" where
  "fromLiteralToPrimitive getText nodeInitializer =
     (if isNumericLiteral nodeInitializer
      then (case js_parse_int (getText nodeInitializer) of Some i \<Rightarrow> PNum i | None \<Rightarrow> PNaN)
      else if isBooleanLiteral nodeInitializer \<and> nodeInitializer = TrueLit then PBool True
      else if isBooleanLiteral nodeInitializer \<and> nodeInitializer = FalseLit then PBool False
      else PStr (getText nodeInitializer))"

section \<open>buildMetadataFromConfig\<close>

text \<open>
  \<open>for (const property of config.properties)\<close> throws unless \<open>config\<close> is an
  object literal node; the loop body first reads \<open>assignment.name.getText()\<close>. The
  object literals that reach \<open>config\<close> are built by the factory (the root literal of
  \<open>addNewConfigToMetadata\<close> and the literals nested in it), so on a property
  assignment \<open>getText\<close> fails its \<open>Debug.assert\<close>; a member without a name (a
  spread, \<open>OtherMember\<close>) throws reading \<open>getText\<close> of \<open>undefined\<close>.
\<close>

definition buildMetadataFromConfig ::
  "meta_value \<Rightarrow> meta_value \<Rightarrow> bool \<Rightarrow> metadata_map \<Rightarrow> (error + unit) \<times> metadata_map" where
  "buildMetadataFromConfig factory config merge metadataMap =
     (if merge then (Inr (), metadataMap)
      else (case config of
              MetaNode (ObjLit []) \<Rightarrow> (Inr (), metadataMap)
            | MetaNode (ObjLit (property # _)) \<Rightarrow>
                (case member_name property of
                   Some _ \<Rightarrow> (Inl (DebugFailure ''Node must have a real position for this operation''), metadataMap)
                 | None \<Rightarrow> (Inl (TypeError ''Cannot read properties of undefined (reading getText)''), metadataMap))
            | MetaUndefined \<Rightarrow>
                (Inl (TypeError ''Cannot read properties of undefined (reading properties)''), metadataMap)
            | _ \<Rightarrow> (Inl (TypeError ''config.properties is not iterable''), metadataMap)))"

section \<open>The methods\<close>

text \<open>\<open>Object.entries(v)\<close>: own enumerable string-keyed entries; \<open>null\<close> and \<open>undefined\<close> throw.\<close>

definition object_entries :: "jsval \<Rightarrow> error + (string \<times> jsval) list" where
  "object_entries v =
     (case v of
        JUndefined \<Rightarrow> Inl (TypeError ''Cannot convert undefined or null to object'')
      | JNull \<Rightarrow> Inl (TypeError ''Cannot convert undefined or null to object'')
      | JObj kvs \<Rightarrow> Inr kvs
      | JStr str \<Rightarrow> Inr (map (\<lambda>i. (dec_of_nat i, JStr [str ! i])) [0..<length str])
      | _ \<Rightarrow> Inr [])"

definition addNewConfigToMetadata ::
  "jsval \<Rightarrow> metadata_map \<Rightarrow> (error + unit) \<times> metadata_map" where
  "addNewConfigToMetadata newConfig metadataMap =
     (case object_entries newConfig of
        Inl err \<Rightarrow> (Inl err, metadataMap)
      | Inr entries \<Rightarrow>
          (case create_entries NodeFactory entries of
             Inl err \<Rightarrow> (Inl err, metadataMap)
           | Inr rs \<Rightarrow>
               (case node_array ''propertyAssignments'' rs of
                  Inl err \<Rightarrow> (Inl err, metadataMap)
                | Inr propertyAssignments \<Rightarrow>
                    buildMetadataFromConfig (MetaNode (ObjLit propertyAssignments)) MetaUndefined
                      False metadataMap)))"

text \<open>The node visitor of \<open>mergeConfigs\<close>: an export is returned as it is, after the unchecked cast.\<close>

fun mergeConfigs_visitor :: "stmt \<Rightarrow> error + stmt" where
  "mergeConfigs_visitor (ExportAssign (CallE callee args)) = Inr (ExportAssign (CallE callee args))"
| "mergeConfigs_visitor (ExportAssign e) = Inl (TypeError ''callExpression.arguments is undefined'')"
| "mergeConfigs_visitor (StmtBlock n body) =
     (case map_throw mergeConfigs_visitor body of Inl err \<Rightarrow> Inl err | Inr body' \<Rightarrow> Inr (StmtBlock n body'))"
| "mergeConfigs_visitor (OtherStmt t) = Inr (OtherStmt t)"

definition mergeConfigs ::
  "jsval \<Rightarrow> bool \<Rightarrow> transformer_state \<Rightarrow> source_file
     \<Rightarrow> (error + source_file) \<times> transformer_state" where
  "mergeConfigs newConfig overwrite st sourceFile =
     (case addNewConfigToMetadata newConfig (configMetadataMap st) of
        (Inl err, m) \<Rightarrow> (Inl err, st\<lparr>configMetadataMap := m\<rparr>)
      | (Inr (), m) \<Rightarrow> (map_throw mergeConfigs_visitor sourceFile, st\<lparr>configMetadataMap := m\<rparr>))"


section \<open>Calls on the class\<close>




section \<open>Lemmas\<close>






text \<open>
  C17. \<open>mergeConfigs\<close> can never merge: for a patch object whose entries are all
  numbers, strings, booleans or nested objects of them, the call of
  \<open>buildMetadataFromConfig\<close> with one argument leaves \<open>config\<close> undefined and
  the transformer factory throws before any file is visited.
\<close>

theorem mergeConfigs_throws:
  assumes "spec_build_entries kvs = Some ms"
  shows "mergeConfigs (JObj kvs) overwrite st sf =
           (Inl (TypeError ''Cannot read properties of undefined (reading properties)''), st)"
proof -
  have "create_entries NodeFactory kvs = Inr (map Some ms)" by (rule node_factory_builds(2) [OF assms])
  then show ?thesis
    by (simp add: mergeConfigs_def addNewConfigToMetadata_def buildMetadataFromConfig_def object_entries_def node_array_def)
qed

theorem mergeConfigs_throws_witness:
  "mergeConfigs (spec_test_patch (JStr ''swc'')) False \<lparr>configMetadataMap = []\<rparr> spec_test_config =
     (Inl (TypeError ''Cannot read properties of undefined (reading properties)''), \<lparr>configMetadataMap = []\<rparr>)"
  unfolding spec_test_patch_def
  by (rule mergeConfigs_throws) (simp add: js_number_to_string_def)

end
