(* ===== verification/Spec2Isabelle.thy ===== *)
theory Spec2Isabelle
  imports PropertyTransformer "HOL-Library.Multiset"
begin

text \<open>
  A model of the Cypress configuration patcher of the Nx repository, the directory
  src/packages/cypress/src/utils/config. Its parts are TypeScript transformers that
  rewrite the object literal passed to \<open>export default defineConfig({...})\<close> in a
  \<open>cypress.config.ts\<close> file: they merge a patch (a runtime configuration object) into
  it, or remove properties from it.

  \<^bold>\<open>How the parts interact.\<close> The public module update-config.ts exports
  \<open>addOrUpdateConfigProperties\<close>, which parses the text, runs TypeScript's
  \<open>transform\<close> with the \<open>mergeCypressConfigs\<close> of
  add-update-property-transformer.ts, and prints the result. That file is a copy of
  transformers.ts: an export visitor, a root visitor \<open>visitRootConfigNode\<close> that
  collects the patch's non-object keys into a \<open>Map\<close> and walks the root's properties,
  and a child visitor \<open>updateChildObjectLiteral\<close> one level down. The copy uses
  another property builder and another root object branch. remove-property-transformer.ts
  holds \<open>removeProps\<close>, which update-config.ts does not call (its
  \<open>removeConfigProperties\<close> is empty). The class \<open>CypressPropertyTransformer\<close>
  of add-update-property-transformer.ts is a separate, unfinished design with a static map.

  \<^bold>\<open>Theories\<close>, in import order, and the code each one models:
  \<^item> \<open>Prelude\<close>: the shared vocabulary. JavaScript \<open>Map\<close> is an association list
    (\<open>jsmap_set\<close>, \<open>jsmap_delete\<close>). A loop that stops at the first throw is
    \<open>map_throw\<close>. \<open>split\<close>/\<open>join\<close> on one separator and the decimal text of
    numbers are also here, with their generic lemmas.
  \<^item> \<open>JsValue\<close>: the runtime values of a patch, with \<open>typeof\<close>, truthiness,
    \<open>for...in\<close> keys, \<open>v?.[k]\<close>, \<open>String(n)\<close>, \<open>parseInt\<close>, and
    \<open>String.prototype.match\<close> with a global regular expression: an expression is
    what it matches at each position (\<open>js_regex\<close>), and the match is the
    \<open>lastIndex\<close> loop \<open>string_match_loop\<close>, whose result is \<open>null\<close> or the
    array of the matches.
  \<^item> \<open>TsAst\<close>: the part of the TypeScript API the code uses. It has the syntax
    nodes, the type guards, \<open>visitEachChild\<close> over an object literal's members
    (\<open>visit_nodes\<close>, threading the state the visitor's closure mutates) and
    \<open>transform\<close> (\<open>transform_file\<close>).
  \<^item> \<open>Transformers\<close>: transformers.ts, every function, one definition per
    function. A visitor closure is a definition of its own (\<open>child_visitor\<close>,
    \<open>updateAssignments\<close>, \<open>merge_export\<close>).
  \<^item> \<open>MergeSpec\<close>: the contract of spec.md, written over the same trees. It has
    \<open>spec_merge_level\<close> (section 4.2, one level, scalar patch),
    \<open>spec_build\<close> (section 4.3) and \<open>spec_remove\<close> (section 4.4).
  \<^item> \<open>AddUpdate\<close>: the functions of add-update-property-transformer.ts.
    \<open>createPropertyAssignment\<close> is modelled with the factory it is given
    (\<open>factory_arg\<close>). The walks are those of \<open>Transformers\<close> instantiated with
    this file's builder (\<open>createPropertyAssignment\<close> applied to the context) and
    this file's root object branch (a ReferenceError: \<open>factory\<close> is unbound).
  \<^item> \<open>RemoveProps\<close>: remove-property-transformer.ts.
  \<^item> \<open>UpdateConfig\<close>: update-config.ts and the inputs of the test of
    update-config.spec.ts.
  \<^item> \<open>PropertyTransformer\<close>: the class \<open>CypressPropertyTransformer\<close>. Its static
    \<open>configMetadataMap\<close> is the record \<open>transformer_state\<close>, passed and returned
    by every method. Any sequence of method calls is an inductive reachability
    predicate.
  \<^item> \<open>Spec2Isabelle\<close> (this theory): the properties that compare the code with
    \<open>MergeSpec\<close>, and the two builders with each other.

  \<^bold>\<open>Errors.\<close> Every exception the code can raise is a value of \<open>error\<close> in
  a sum \<open>error + 'a\<close>. \<open>TypeError\<close> and \<open>ReferenceError\<close> stand for the engine's
  exceptions, \<open>DebugFailure\<close> for a failed assertion of the compiler (\<open>getText\<close>
  on a node built by the factory). \<open>UndefinedNode\<close> marks \<open>undefined\<close> handed on
  where a node is expected; \<open>createObjectLiteralExpression\<close> stores such a hole,
  and the model stops there rather than guess what a later factory call or the printer
  does with it. The order of evaluation is
  kept where it decides which error is raised. The extra properties are built by
  \<open>map\<close> to the end before the array with its holes reaches the factory
  (\<open>node_array\<close>). A call without arguments hands \<open>undefined\<close> to the root
  visitor (its root is an \<open>expr option\<close>), which builds its \<open>propertyMap\<close> and its
  extra properties before it reads \<open>updatedConfig.properties\<close>.

  \<^bold>\<open>What the lemmas show\<close> (the claims C1 to C24, in the order of the project
  manifest).
  \<^item> The public entry never adds or updates a property (C1). It throws on the empty
    patch when the root has an object property (C10), and ignores the patch in
    overwrite mode (C11). The builder it uses never builds anything (C13), although
    with a real factory it would build the contract's literals (C8).
  \<^item> The child walk of transformers.ts refines the one-level contract on scalar
    patches (C2). It keeps unmentioned properties in order (C3) and keeps names
    distinct (C9). It drops object-valued entries (C14) and throws on functions
    (C15).
  \<^item> The root walk of transformers.ts duplicates a key on a falsy value (C6). It
    prepends new keys where the contract appends them (C7); on a root of literal
    properties and truthy scalar patch values it is the contract's merge up to that
    position, the same multiset of members (C23). It spreads a string value into an
    object-valued property (C18). With the empty patch it is the identity (C20), and
    it keeps a configuration object well shaped: every value a literal, a call or a
    nested such object (C21).
  \<^item> The builder of transformers.ts and \<open>createPropertyAssignment\<close> with a real
    factory agree exactly on numbers, strings, booleans and \<open>undefined\<close> (C22).
  \<^item> \<open>createExpressionFromFunction\<close> throws on every function, with the TypeError
    its two regular expressions (\<open>fnNameMatcher\<close>, \<open>fnArgMatcher\<close>) select
    (C24).
  \<^item> Neither entry point locates a root: a file without an export assignment passes
    unchanged instead of failing (C19).
  \<^item> The remover keeps exactly the literal root properties whose bare name is not
    listed (C5). On flat roots this refines the contract's full-path removal (C4). It
    fails on any nested object (C12).
  \<^item> In the class, the static map is never written (C16) and \<open>mergeConfigs\<close>
    always throws (C17).

  \<^bold>\<open>Loops, bounds and fuel.\<close> Every loop of the code runs over a finite list of
  members, keys or statements: the model has structural recursion, plus one
  \<open>function\<close> with a measure, the \<open>lastIndex\<close> loop of
  \<open>String.prototype.match\<close>, which moves forward by at least one position each
  round. So every definition is total and needs no fuel, and no claim of termination
  or liveness is stated: the code has no loop that may run forever and no reactive
  behaviour. Numbers are integers of magnitude below \<open>10^21\<close>; no claim depends on
  a width.

  \<^bold>\<open>Not modelled.\<close>
  \<^item> The parser and the printer: texts are syntax trees. \<open>getText\<close> of a node
    parsed from a source file is the text the trees hold; on the factory-built nodes
    of \<open>buildMetadataFromConfig\<close> it throws, so that method's loop stops at its
    first property and the lines after it (add-update-property-transformer.ts 170 to
    189) are never reached.
  \<^item> The contents of \<open>OtherE\<close> expressions, and \<open>new\<close> expressions, whose
    arguments the export visitors would read like a call's.
  \<^item> Non-integral numbers, NaN, numbers from \<open>1e21\<close> on (which \<open>String\<close>
    writes with an exponent), characters above U+00FF, and the prototype chain.
  \<^item> The quoting style of string literals.
  \<^item> The \<open>console.log\<close> calls, which have no effect on the result.
  \<^item> The construction of the call expression in \<open>createExpressionFromFunction\<close>
    (transformers.ts lines 80 to 95 and their copy in add-update-property-transformer.ts):
    it is never reached, because \<open>split\<close> is called on the result of
    \<open>match\<close>, which is an array or \<open>null\<close>.
  \<^item> Other regular expressions: only the two of the code are modelled, by what they
    match, not by a general regular expression engine.
  \<^item> The module transformer.helper, which is missing from the sources: its
    \<open>isBooleanLiteral\<close> is that of transformers.ts.
\<close>

text \<open>An export whose call has exactly one argument, also inside blocks; other statements qualify.\<close>

fun single_argument_export :: "stmt \<Rightarrow> bool" where
  "single_argument_export (ExportAssign (CallE callee [r])) = True"
| "single_argument_export (ExportAssign _) = False"
| "single_argument_export (StmtBlock n body) = list_all single_argument_export body"
| "single_argument_export (OtherStmt _) = True"

text \<open>A root member the literal branch of the root walk handles, or one it leaves alone.\<close>

fun literal_member :: "member \<Rightarrow> bool" where
  "literal_member (PropAssign n e) \<longleftrightarrow> is_literal_initializer e"
| "literal_member (OtherMember _) \<longleftrightarrow> True"

section \<open>The child walk against the merge contract\<close>

lemma updatePropertyAssignment_scalar:
  "spec_literal v = Some lit \<Longrightarrow> updatePropertyAssignment n v = Inr (Some (PropAssign n lit))"
  by (cases v) (auto simp: updatePropertyAssignment_def)

text \<open>
  C2. One level below the root, for a patch object whose entries are all numbers,
  strings or booleans with keys free of dots, \<open>updateChildObjectLiteral\<close> does exactly
  what spec.md section 4.2 asks: mentioned properties are replaced by the literal of
  their patch value, the others are kept, and new keys are appended in patch order.
\<close>

theorem updateChildObjectLiteral_refines_merge_spec:
  assumes base: "getValueByPath config path = JObj patch"
    and dist: "distinct (map fst patch)"
    and scalar: "\<forall>(k, v) \<in> set patch. is_scalar v \<and> CHR ''.'' \<notin> set k"
  shows "updateChildObjectLiteral updatePropertyAssignment props path config =
           Inr (ObjLit (spec_merge_level props patch))"
proof -
  let ?upd = "\<lambda>n v. PropAssign n (the (spec_literal v))"
  have val: "getValueByPath config (path @ [n]) =
                 (case map_of patch n of Some v \<Rightarrow> v | None \<Rightarrow> JUndefined)" for n
    by (simp add: base)
  have defined: "map_of patch n = Some v \<Longrightarrow> v \<noteq> JUndefined" for n v
    using scalar by (auto simp: is_scalar_def dest!: map_of_SomeD)
  have build: "updatePropertyAssignment n v = Inr (Some (?upd n v))" if "(k, v) \<in> set patch" for n k v
    using scalar that by (auto simp: is_scalar_def intro!: updatePropertyAssignment_scalar)
  have walk: "visit_nodes (child_visitor updatePropertyAssignment path config) props pta =
                Inr (map (child_result ?upd path config) props,
                     filter (\<lambda>kv. fst kv \<notin> visited_paths path props) pta)" for pta
    by (rule child_visit_total) (auto simp: base build split: option.splits dest: map_of_SomeD)
  have result: "map (child_result ?upd path config) props = map (spec_update patch) props"
    by (auto simp: child_result_def spec_update_def base defined split: member.splits option.splits)
  have start: "child_properties_to_add path config = map (\<lambda>(k, v). (join_path (path @ [k]), v)) patch"
  proof -
    have "js_get (JObj patch) k = v" if "(k, v) \<in> set patch" for k v
      using dist that by (simp add: map_of_is_SomeI)
    then show ?thesis
      using child_properties_to_add_keys [of config path] dist by (auto simp: base)
  qed
  have left: "filter (\<lambda>kv. fst kv \<notin> visited_paths path props) (child_properties_to_add path config) =
                map (\<lambda>(k, v). (join_path (path @ [k]), v))
                    (filter (\<lambda>(k, v). k \<notin> set (member_names props)) patch)"
    by (simp add: start filter_map comp_def split_def)
  have extras: "map_throw (\<lambda>(key, value). built_property key (updatePropertyAssignment (last_segment key) value))
                  (map (\<lambda>(k, v). (join_path (path @ [k]), v))
                    (filter (\<lambda>(k, v). k \<notin> set (member_names props)) patch))
                = Inr (map (\<lambda>(k, v). ?upd k v) (filter (\<lambda>(k, v). k \<notin> set (member_names props)) patch))"
  proof -
    have elem: "built_property (join_path (path @ [k]))
                  (updatePropertyAssignment (last_segment (join_path (path @ [k]))) v) = Inr (?upd k v)"
      if "(k, v) \<in> set patch" for k v
      using that scalar build [OF that] by (auto simp: built_property_def)
    show ?thesis by (intro map_throw_map_comp) (auto simp: elem)
  qed
  show ?thesis
    using updateChildObjectLiteral_from_walk
            [OF walk [of "child_properties_to_add path config", unfolded result left] extras]
    by (simp add: spec_merge_level_def)
qed


theorem updateChildObjectLiteral_refines_merge_spec_witness:
  "updateChildObjectLiteral updatePropertyAssignment
      [PropAssign ''video'' TrueLit, PropAssign ''fixturesFolder'' (StrLit ''cypress/fixtures'')]
      [''component'']
      (JObj [(''component'', JObj [(''fixturesFolder'', JStr ''cool''), (''retries'', JNum 2)])])
   = Inr (ObjLit (spec_merge_level
      [PropAssign ''video'' TrueLit, PropAssign ''fixturesFolder'' (StrLit ''cypress/fixtures'')]
      [(''fixturesFolder'', JStr ''cool''), (''retries'', JNum 2)]))"
  by (rule updateChildObjectLiteral_refines_merge_spec) (simp_all add: is_scalar_def)

section \<open>The root walk against the merge contract\<close>

lemma root_walk_untouched:
  assumes "\<forall>k \<in> set (member_names props). map_of kvs k = None"
  shows "visit_nodes (updateAssignments
             (\<lambda>name ps. updateChildObjectLiteral updatePropertyAssignment ps [name] (JObj kvs))
             updatePropertyAssignment (JObj kvs)) props pm = Inr (props, pm)"
proof (rule visit_nodes_id)
  fix x assume x: "x \<in> set props"
  show "updateAssignments (\<lambda>name ps. updateChildObjectLiteral updatePropertyAssignment ps [name] (JObj kvs))
          updatePropertyAssignment (JObj kvs) x pm = Inr (Some x, pm)"
  proof (cases x)
    case (PropAssign n e)
    with x assms have none: "map_of kvs n = None" by (auto dest: member_names_mem)
    then have base: "getValueByPath (JObj kvs) [n] = JUndefined" by simp
    show ?thesis
    proof (cases e)
      case (ObjLit ps)
      with PropAssign show ?thesis
        by (simp add: updateChildObjectLiteral_undefined_base [OF base])
    qed (use PropAssign none in \<open>simp_all add: Let_def\<close>)
  qed simp
qed

text \<open>
  C7. At the root, a patch of new keys with number, string or boolean values is put in
  front of the existing properties, which are all kept unchanged; spec.md section 4.2
  asks for the new keys to be appended after them, as \<open>spec_merge_level\<close> does and
  as the child walk does one level down.
\<close>

theorem merge_root_prepends_new_keys:
  assumes dist: "distinct (map fst kvs)"
    and new: "\<forall>(k, v) \<in> set kvs. is_scalar v \<and> k \<notin> set (member_names props)"
  shows "merge_root (JObj kvs) (Some (ObjLit props)) =
           Inr (Some (ObjLit (map (\<lambda>(k, v). PropAssign k (the (spec_literal v))) kvs @ props)))
         \<and> spec_merge_level props kvs = props @ map (\<lambda>(k, v). PropAssign k (the (spec_literal v))) kvs"
proof
  have fresh: "\<forall>k \<in> set (member_names props). map_of kvs k = None"
    using new by (auto simp: map_of_eq_None_iff)
  have scalar: "js_typeof v \<noteq> TObject" if "(k, v) \<in> set kvs" for k v
    using new that by (auto simp: is_scalar_cases)
  have pm: "root_property_map (JObj kvs) = kvs"
    using root_property_map_JObj [OF dist] scalar by (auto simp: filter_id_conv)
  have built: "map_throw (\<lambda>(key, value). built_property key (updatePropertyAssignment key value)) kvs
                 = Inr (map (\<lambda>(k, v). PropAssign k (the (spec_literal v))) kvs)"
  proof (rule map_throw_map)
    fix kv assume "kv \<in> set kvs"
    with new obtain lit where "spec_literal (snd kv) = Some lit"
      by (cases kv) (auto simp: is_scalar_def)
    then show "(\<lambda>(key, value). built_property key (updatePropertyAssignment key value)) kv =
                 Inr ((\<lambda>(k, v). PropAssign k (the (spec_literal v))) kv)"
      by (simp add: split_def built_property_def updatePropertyAssignment_scalar)
  qed
  show "merge_root (JObj kvs) (Some (ObjLit props)) =
          Inr (Some (ObjLit (map (\<lambda>(k, v). PropAssign k (the (spec_literal v))) kvs @ props)))"
    unfolding merge_root_def
    by (rule visitRootConfigNode_from_walk [OF _ built]) (simp add: root_walk_untouched [OF fresh] pm)
  have "spec_update kvs m = m" if "m \<in> set props" for m
  proof (cases m)
    case (PropAssign n e)
    with that fresh have "map_of kvs n = None" by (auto dest: member_names_mem)
    with PropAssign show ?thesis by (simp add: spec_update_def)
  qed (simp add: spec_update_def)
  then have "map (spec_update kvs) props = props" by (simp add: map_idI)
  moreover have "filter (\<lambda>(k, v). k \<notin> set (member_names props)) kvs = kvs"
    using new by (auto simp: filter_id_conv)
  ultimately show "spec_merge_level props kvs = props @ map (\<lambda>(k, v). PropAssign k (the (spec_literal v))) kvs"
    by (simp add: spec_merge_level_def)
qed

theorem merge_root_prepends_new_keys_witness:
  "merge_root (JObj [(''blah'', JStr ''i am a top level property'')])
      (Some (ObjLit [PropAssign ''baseUrl'' (StrLit ''blah its me'')]))
     = Inr (Some (ObjLit [PropAssign ''blah'' (StrLit ''i am a top level property''),
                    PropAssign ''baseUrl'' (StrLit ''blah its me'')]))
   \<and> spec_merge_level [PropAssign ''baseUrl'' (StrLit ''blah its me'')]
       [(''blah'', JStr ''i am a top level property'')]
     = [PropAssign ''baseUrl'' (StrLit ''blah its me''),
        PropAssign ''blah'' (StrLit ''i am a top level property'')]"
  using merge_root_prepends_new_keys [of "[(''blah'', JStr ''i am a top level property'')]"
                                         "[PropAssign ''baseUrl'' (StrLit ''blah its me'')]"]
  by (simp add: is_scalar_def)

text \<open>
  C20. No-op idempotence (spec.md section 8) holds for the merge of transformers.ts:
  with the empty patch, \<open>mergeCypressConfigs\<close> returns every file whose exported
  calls have exactly one argument unchanged, nested objects included.
\<close>

theorem mergeCypressConfigs_empty_patch_identity:
  assumes "list_all single_argument_export sf"
  shows "mergeCypressConfigs (JObj []) False sf = Inr sf"
proof -
  have pm: "root_property_map (JObj []) = []" by (simp add: root_property_map_def)
  have root: "merge_root (JObj []) r = Inr r" for r
  proof (cases "\<exists>props. r = Some (ObjLit props)")
    case True
    then obtain props where r: "r = Some (ObjLit props)" by blast
    have "visit_nodes (updateAssignments
            (\<lambda>name ps. updateChildObjectLiteral updatePropertyAssignment ps [name] (JObj []))
            updatePropertyAssignment (JObj [])) props [] = Inr (props, [])"
      by (rule root_walk_untouched) simp
    then show ?thesis by (simp add: r merge_root_def visitRootConfigNode_def pm)
  next
    case False
    then show ?thesis by (simp add: merge_root_def visitRootConfigNode_other pm)
  qed
  have stmt: "single_argument_export s \<Longrightarrow> merge_export (merge_root (JObj [])) False s = Inr s" for s
  proof (induction s)
    case (ExportAssign e)
    then obtain callee r where "e = CallE callee [r]"
      by (cases "ExportAssign e" rule: single_argument_export.cases) auto
    then show ?case by (simp add: root)
  next
    case (StmtBlock n body)
    have "map_throw (merge_export (merge_root (JObj [])) False) body = Inr (map id body)"
      by (rule map_throw_map) (use StmtBlock in \<open>auto simp: list_all_iff\<close>)
    then show ?case by simp
  qed simp
  have "merge_export (merge_root (JObj [])) False s = Inr s" if "s \<in> set sf" for s
    using assms that by (intro stmt) (simp add: list_all_iff)
  then have "map_throw (merge_export (merge_root (JObj [])) False) sf = Inr (map id sf)"
    by (intro map_throw_map) simp
  then show ?thesis by (simp add: mergeCypressConfigs_def)
qed

theorem mergeCypressConfigs_empty_patch_identity_witness:
  "mergeCypressConfigs (JObj []) False spec_test_config = Inr spec_test_config"
  by (rule mergeCypressConfigs_empty_patch_identity) (simp add: spec_test_config_def)

section \<open>The root walk on a literal root\<close>

lemma root_walk_literals:
  assumes lits: "list_all literal_member props"
    and val: "\<And>n v. map_of kvs n = Some v \<Longrightarrow> js_truthy v \<and> spec_literal v \<noteq> None"
    and keys: "set (map fst pm) \<subseteq> dom (map_of kvs)"
  shows "visit_nodes (updateAssignments updateChild updatePropertyAssignment (JObj kvs)) props pm =
           Inr (map (spec_update kvs) props, filter (\<lambda>kv. fst kv \<notin> set (member_names props)) pm)"
  using lits keys
proof (induction props arbitrary: pm)
  case (Cons m ms)
  show ?case
  proof (cases m)
    case (PropAssign n e)
    with Cons.prems have lit: "is_literal_initializer e" and rest: "list_all literal_member ms" by simp_all
    have notobj: "\<not> isObjectLiteralExpression e" using lit by (cases e) (simp_all add: is_literal_initializer_def)
    show ?thesis
    proof (cases "map_of kvs n")
      case None
      with Cons.prems(2) have "\<forall>kv \<in> set pm. fst kv \<noteq> n" by force
      then have "filter (\<lambda>kv. fst kv \<noteq> n \<and> fst kv \<notin> set (member_names ms)) pm =
                   filter (\<lambda>kv. fst kv \<notin> set (member_names ms)) pm"
        by (intro filter_cong) auto
      moreover have "updateAssignments updateChild updatePropertyAssignment (JObj kvs) m pm = Inr (Some m, pm)"
        using PropAssign None lit notobj by (cases e) (simp_all add: Let_def)
      ultimately show ?thesis
        using Cons.IH [OF rest Cons.prems(2)] PropAssign None by (simp add: spec_update_def filter_filter conj_commute)
    next
      case (Some v)
      with val obtain lit' where truthy: "js_truthy v" and l: "spec_literal v = Some lit'" by blast
      have step: "updateAssignments updateChild updatePropertyAssignment (JObj kvs) m pm =
                    Inr (Some (PropAssign n lit'), jsmap_delete n pm)"
        using PropAssign Some lit notobj truthy updatePropertyAssignment_scalar [OF l]
        by (cases e) (simp_all add: Let_def)
      have "set (map fst (jsmap_delete n pm)) \<subseteq> dom (map_of kvs)"
        using Cons.prems(2) by (auto simp: jsmap_delete_def)
      with step show ?thesis
        using Cons.IH [OF rest] PropAssign Some l
        by (simp add: spec_update_def jsmap_delete_def filter_filter conj_commute)
    qed
  next
    case (OtherMember t)
    with Cons.prems Cons.IH show ?thesis by (simp add: spec_update_def)
  qed
qed simp

text \<open>
  C23. On a root whose properties all have a literal or call value, for a patch of
  distinct keys with truthy number, string or boolean values, the root walk of
  transformers.ts does the merge of spec.md section 4.2 up to the position of the new
  keys: mentioned properties are replaced by the literal of their patch value, the others
  are kept in order, and the new keys are put in front, in patch order, where the contract
  appends them; the result has the same members as the contract's.
\<close>

theorem merge_root_refines_merge_spec_up_to_order:
  assumes dist: "distinct (map fst kvs)"
    and scalar: "\<forall>(k, v) \<in> set kvs. is_scalar v \<and> js_truthy v"
    and lits: "list_all literal_member props"
  shows "merge_root (JObj kvs) (Some (ObjLit props)) =
           Inr (Some (ObjLit (map (\<lambda>(k, v). PropAssign k (the (spec_literal v)))
                                 (filter (\<lambda>(k, v). k \<notin> set (member_names props)) kvs)
                              @ map (spec_update kvs) props)))
         \<and> mset (map (\<lambda>(k, v). PropAssign k (the (spec_literal v)))
                   (filter (\<lambda>(k, v). k \<notin> set (member_names props)) kvs)
                 @ map (spec_update kvs) props) = mset (spec_merge_level props kvs)"
proof
  have pm: "root_property_map (JObj kvs) = kvs"
    using root_property_map_JObj [OF dist] scalar by (auto simp: filter_id_conv is_scalar_cases)
  have val: "js_truthy v \<and> spec_literal v \<noteq> None" if "map_of kvs n = Some v" for n v
    using scalar map_of_SomeD [OF that] by (auto simp: is_scalar_def)
  have walk: "visit_nodes (updateAssignments
                 (\<lambda>name ps. updateChildObjectLiteral updatePropertyAssignment ps [name] (JObj kvs))
                 updatePropertyAssignment (JObj kvs)) props (root_property_map (JObj kvs))
              = Inr (map (spec_update kvs) props, filter (\<lambda>kv. fst kv \<notin> set (member_names props)) kvs)"
    unfolding pm by (rule root_walk_literals [OF lits val]) (auto simp: dom_map_of_conv_image_fst split_def)
  have built: "map_throw (\<lambda>(key, value). built_property key (updatePropertyAssignment key value))
                 (filter (\<lambda>kv. fst kv \<notin> set (member_names props)) kvs)
               = Inr (map (\<lambda>(k, v). PropAssign k (the (spec_literal v)))
                        (filter (\<lambda>kv. fst kv \<notin> set (member_names props)) kvs))"
  proof (rule map_throw_map)
    fix kv assume "kv \<in> set (filter (\<lambda>kv. fst kv \<notin> set (member_names props)) kvs)"
    with scalar obtain lit where "spec_literal (snd kv) = Some lit"
      by (cases kv) (auto simp: is_scalar_def)
    then show "(\<lambda>(key, value). built_property key (updatePropertyAssignment key value)) kv =
                 Inr ((\<lambda>(k, v). PropAssign k (the (spec_literal v))) kv)"
      by (simp add: split_def built_property_def updatePropertyAssignment_scalar)
  qed
  show "merge_root (JObj kvs) (Some (ObjLit props)) =
          Inr (Some (ObjLit (map (\<lambda>(k, v). PropAssign k (the (spec_literal v)))
                                (filter (\<lambda>(k, v). k \<notin> set (member_names props)) kvs)
                             @ map (spec_update kvs) props)))"
  proof -
    have "filter (\<lambda>(k, v). k \<notin> set (member_names props)) kvs = filter (\<lambda>kv. fst kv \<notin> set (member_names props)) kvs"
      by (simp add: split_def)
    then show ?thesis unfolding merge_root_def by (simp only:) (rule visitRootConfigNode_from_walk [OF walk built])
  qed
  show "mset (map (\<lambda>(k, v). PropAssign k (the (spec_literal v)))
               (filter (\<lambda>(k, v). k \<notin> set (member_names props)) kvs)
             @ map (spec_update kvs) props) = mset (spec_merge_level props kvs)"
    by (simp add: spec_merge_level_def)
qed

theorem merge_root_refines_merge_spec_up_to_order_witness:
  "merge_root (JObj [(''baseUrl'', JStr ''http://localhost:1234''), (''blah'', JStr ''i am a top level property'')])
      (Some (ObjLit [PropAssign ''baseUrl'' (StrLit ''blah its me''), PropAssign ''video'' TrueLit]))
     = Inr (Some (ObjLit [PropAssign ''blah'' (StrLit ''i am a top level property''),
                          PropAssign ''baseUrl'' (StrLit ''http://localhost:1234''),
                          PropAssign ''video'' TrueLit]))"
proof -
  have "merge_root (JObj [(''baseUrl'', JStr ''http://localhost:1234''), (''blah'', JStr ''i am a top level property'')])
      (Some (ObjLit [PropAssign ''baseUrl'' (StrLit ''blah its me''), PropAssign ''video'' TrueLit]))
     = Inr (Some (ObjLit (map (\<lambda>(k, v). PropAssign k (the (spec_literal v)))
          (filter (\<lambda>(k, v). k \<notin> set (member_names [PropAssign ''baseUrl'' (StrLit ''blah its me''), PropAssign ''video'' TrueLit]))
             [(''baseUrl'', JStr ''http://localhost:1234''), (''blah'', JStr ''i am a top level property'')])
          @ map (spec_update [(''baseUrl'', JStr ''http://localhost:1234''), (''blah'', JStr ''i am a top level property'')])
              [PropAssign ''baseUrl'' (StrLit ''blah its me''), PropAssign ''video'' TrueLit])))"
    using merge_root_refines_merge_spec_up_to_order
            [of "[(''baseUrl'', JStr ''http://localhost:1234''), (''blah'', JStr ''i am a top level property'')]"
                "[PropAssign ''baseUrl'' (StrLit ''blah its me''), PropAssign ''video'' TrueLit]"]
    by (simp add: is_scalar_def is_literal_initializer_def)
  then show ?thesis by (simp add: spec_update_def)
qed

text \<open>
  C22. The two builders agree exactly on numbers, strings, booleans and
  \<open>undefined\<close>: \<open>updatePropertyAssignment\<close> of transformers.ts and
  \<open>createPropertyAssignment\<close> of add-update-property-transformer.ts with a real
  node factory build the same property for a scalar value and both give
  \<open>undefined\<close> for \<open>undefined\<close>; on objects, \<open>null\<close> and functions they differ
  (the first has no object case, the second no function case).
\<close>

theorem builders_agree_iff_scalar:
  "updatePropertyAssignment k v = createPropertyAssignment NodeFactory k v
     \<longleftrightarrow> is_scalar v \<or> v = JUndefined"
proof (cases v)
  case (JObj kvs)
  have "createPropertyAssignment NodeFactory k (JObj kvs) \<noteq> Inr None"
    by (auto simp: createIdentifier_def node_array_def split: sum.splits)
  with JObj show ?thesis by (simp add: updatePropertyAssignment_def is_scalar_def)
next
  case (JFun src)
  then show ?thesis
    by (simp add: updatePropertyAssignment_def createExpressionFromFunction_def is_scalar_def split: match_result.splits)
qed (simp_all add: updatePropertyAssignment_def createIdentifier_def is_scalar_def)

end
